theory Spec2Isabelle
  imports Complex_Main "HOL-Library.Sublist"
begin

section \<open>JavaScript numbers\<close>

text \<open>
  Every coordinate, progress value, life value and radius of the game is a JavaScript
  \<open>number\<close>. The model keeps the three non-finite values of such a number apart from the
  finite ones and computes on the finite ones with exact reals: rounding is not modelled.
  The two zeros are one value \<open>Fin 0\<close>; a division of a non-zero finite number by zero
  takes its sign from the numerator, which is what the program computes wherever its
  divisor can be zero (that divisor is always a result of \<open>Math.sqrt\<close>).
\<close>

datatype jsnum = Fin real | PInf | NInf | NaN

fun isFinite :: "jsnum \<Rightarrow> bool" where
  "isFinite (Fin a) = True"
| "isFinite PInf = False"
| "isFinite NInf = False"
| "isFinite NaN = False"


fun js_neg :: "jsnum \<Rightarrow> jsnum" where
  "js_neg (Fin a) = Fin (- a)"
| "js_neg PInf = NInf"
| "js_neg NInf = PInf"
| "js_neg NaN = NaN"

fun js_add :: "jsnum \<Rightarrow> jsnum \<Rightarrow> jsnum" where
  "js_add (Fin a) (Fin b) = Fin (a + b)"
| "js_add (Fin a) PInf = PInf"
| "js_add (Fin a) NInf = NInf"
| "js_add PInf (Fin b) = PInf"
| "js_add PInf PInf = PInf"
| "js_add PInf NInf = NaN"
| "js_add NInf (Fin b) = NInf"
| "js_add NInf PInf = NaN"
| "js_add NInf NInf = NInf"
| "js_add NaN b = NaN"
| "js_add a NaN = NaN"

definition js_sub :: "jsnum \<Rightarrow> jsnum \<Rightarrow> jsnum" where
  "js_sub a b = js_add a (js_neg b)"

fun js_mul :: "jsnum \<Rightarrow> jsnum \<Rightarrow> jsnum" where
  "js_mul (Fin a) (Fin b) = Fin (a * b)"
| "js_mul (Fin a) PInf = (if a = 0 then NaN else if 0 < a then PInf else NInf)"
| "js_mul (Fin a) NInf = (if a = 0 then NaN else if 0 < a then NInf else PInf)"
| "js_mul PInf (Fin b) = (if b = 0 then NaN else if 0 < b then PInf else NInf)"
| "js_mul NInf (Fin b) = (if b = 0 then NaN else if 0 < b then NInf else PInf)"
| "js_mul PInf PInf = PInf"
| "js_mul PInf NInf = NInf"
| "js_mul NInf PInf = NInf"
| "js_mul NInf NInf = PInf"
| "js_mul NaN b = NaN"
| "js_mul a NaN = NaN"

fun js_div :: "jsnum \<Rightarrow> jsnum \<Rightarrow> jsnum" where
  "js_div (Fin a) (Fin b) =
     (if b = 0 then (if a = 0 then NaN else if 0 < a then PInf else NInf)
      else Fin (a / b))"
| "js_div (Fin a) PInf = Fin 0"
| "js_div (Fin a) NInf = Fin 0"
| "js_div PInf (Fin b) = (if 0 \<le> b then PInf else NInf)"
| "js_div NInf (Fin b) = (if 0 \<le> b then NInf else PInf)"
| "js_div PInf PInf = NaN"
| "js_div PInf NInf = NaN"
| "js_div NInf PInf = NaN"
| "js_div NInf NInf = NaN"
| "js_div NaN b = NaN"
| "js_div a NaN = NaN"

definition js_inv :: "jsnum \<Rightarrow> jsnum" where
  "js_inv a = js_div (Fin 1) a"

fun js_abs :: "jsnum \<Rightarrow> jsnum" where
  "js_abs (Fin a) = Fin \<bar>a\<bar>"
| "js_abs PInf = PInf"
| "js_abs NInf = PInf"
| "js_abs NaN = NaN"

text \<open>The comparisons \<open><\<close> and \<open><=\<close> of the language: false as soon as one side is NaN.\<close>

fun js_lt :: "jsnum \<Rightarrow> jsnum \<Rightarrow> bool" where
  "js_lt (Fin a) (Fin b) = (a < b)"
| "js_lt (Fin a) PInf = True"
| "js_lt (Fin a) NInf = False"
| "js_lt PInf b = False"
| "js_lt NInf (Fin b) = True"
| "js_lt NInf PInf = True"
| "js_lt NInf NInf = False"
| "js_lt NInf NaN = False"
| "js_lt NaN b = False"
| "js_lt (Fin a) NaN = False"

fun js_le :: "jsnum \<Rightarrow> jsnum \<Rightarrow> bool" where
  "js_le (Fin a) (Fin b) = (a \<le> b)"
| "js_le (Fin a) PInf = True"
| "js_le (Fin a) NInf = False"
| "js_le PInf PInf = True"
| "js_le PInf (Fin b) = False"
| "js_le PInf NInf = False"
| "js_le NInf (Fin b) = True"
| "js_le NInf PInf = True"
| "js_le NInf NInf = True"
| "js_le NaN b = False"
| "js_le a NaN = False"

text \<open>
  The arithmetic and comparison symbols on \<open>jsnum\<close> stand for the operations above, so
  that the model of the game reads like its source.
\<close>

instantiation jsnum :: "{plus, minus, uminus, times, inverse, abs, ord}"
begin

definition uminus_jsnum :: "jsnum \<Rightarrow> jsnum" where
  "uminus_jsnum a = js_neg a"

definition plus_jsnum :: "jsnum \<Rightarrow> jsnum \<Rightarrow> jsnum" where
  "plus_jsnum a b = js_add a b"

definition minus_jsnum :: "jsnum \<Rightarrow> jsnum \<Rightarrow> jsnum" where
  "minus_jsnum a b = js_sub a b"

definition times_jsnum :: "jsnum \<Rightarrow> jsnum \<Rightarrow> jsnum" where
  "times_jsnum a b = js_mul a b"

definition divide_jsnum :: "jsnum \<Rightarrow> jsnum \<Rightarrow> jsnum" where
  "divide_jsnum a b = js_div a b"

definition inverse_jsnum :: "jsnum \<Rightarrow> jsnum" where
  "inverse_jsnum a = js_inv a"

definition abs_jsnum :: "jsnum \<Rightarrow> jsnum" where
  "abs_jsnum a = js_abs a"

definition less_jsnum :: "jsnum \<Rightarrow> jsnum \<Rightarrow> bool" where
  "less_jsnum a b = js_lt a b"

definition less_eq_jsnum :: "jsnum \<Rightarrow> jsnum \<Rightarrow> bool" where
  "less_eq_jsnum a b = js_le a b"

instance ..

end

fun Math_sqrt :: "jsnum \<Rightarrow> jsnum" where
  "Math_sqrt (Fin a) = (if a < 0 then NaN else Fin (sqrt a))"
| "Math_sqrt PInf = PInf"
| "Math_sqrt NInf = NaN"
| "Math_sqrt NaN = NaN"

fun Math_max :: "jsnum \<Rightarrow> jsnum \<Rightarrow> jsnum" where
  "Math_max NaN b = NaN"
| "Math_max a NaN = NaN"
| "Math_max a b = (if js_lt a b then b else a)"

fun Math_cos :: "jsnum \<Rightarrow> jsnum" where
  "Math_cos (Fin a) = Fin (cos a)"
| "Math_cos a = NaN"

fun Math_sin :: "jsnum \<Rightarrow> jsnum" where
  "Math_sin (Fin a) = Fin (sin a)"
| "Math_sin a = NaN"

definition Math_PI :: jsnum where
  "Math_PI = Fin pi"

text \<open>The remainder operator \<open>%\<close>: the result has the sign of the dividend.\<close>

fun js_rem :: "jsnum \<Rightarrow> jsnum \<Rightarrow> jsnum" where
  "js_rem (Fin a) (Fin b) =
     (if b = 0 then NaN
      else Fin (a - b * of_int (if 0 \<le> a / b then \<lfloor>a / b\<rfloor> else \<lceil>a / b\<rceil>)))"
| "js_rem (Fin a) PInf = Fin a"
| "js_rem (Fin a) NInf = Fin a"
| "js_rem a b = NaN"


section \<open>Constants and entity types\<close>

record AmmoCounts =
  left :: int
  center :: int
  right :: int

definition WIN_SCORE :: int where
  "WIN_SCORE = 1000"

definition INITIAL_AMMO :: AmmoCounts where
  "INITIAL_AMMO = \<lparr>left = 20, center = 40, right = 20\<rparr>"

definition EXPLOSION_RADIUS :: jsnum where
  "EXPLOSION_RADIUS = Fin 40"

definition EXPLOSION_DURATION :: jsnum where
  "EXPLOSION_DURATION = Fin 60"

definition ENEMY_SPEED_BASE :: jsnum where
  "ENEMY_SPEED_BASE = Fin (8 / 10)"

definition MISSILE_SPEED :: jsnum where
  "MISSILE_SPEED = Fin 5"

text \<open>
  The interfaces of the source, each extending \<open>Entity\<close>. The field \<open>id\<close> is \<open>ident\<close> here
  and \<open>type\<close> is \<open>mtype\<close>; an optional field is an \<open>option\<close>. Ammunition, the hover
  countdown and the score only ever hold integers and are of type \<open>int\<close>.
\<close>

record Entity =
  ident :: string
  x :: jsnum
  y :: jsnum

record EnemyRocket = Entity +
  startX :: jsnum
  startY :: jsnum
  targetX :: jsnum
  targetY :: jsnum
  progress :: jsnum
  speed :: jsnum

datatype MissileType = NORMAL | RARE | LIGHTNING | DRONE

record InterceptorMissile = Entity +
  startX :: jsnum
  startY :: jsnum
  targetX :: jsnum
  targetY :: jsnum
  progress :: jsnum
  mtype :: MissileType
  hoverTimer :: "int option"
  hasFired :: "bool option"

record Explosion = Entity +
  radius :: jsnum
  maxRadius :: jsnum
  life :: jsnum
  isRare :: "bool option"

record City = Entity +
  active :: bool

record Battery = Entity +
  active :: bool
  ammo :: int
  maxAmmo :: int

record Particle = Entity +
  vx :: jsnum
  vy :: jsnum
  life :: jsnum
  color :: string
  psize :: jsnum

datatype GameState = START | PLAYING | WIN | GAMEOVER

text \<open>
  The state of the component: the React state values (\<open>gameState\<close>, \<open>score\<close>, \<open>ammo\<close>,
  \<open>isPaused\<close>) and the refs the game loop works on.

  React queues what is passed to a state setter and runs the queue at the next render. A
  value passed to a setter, and the updater \<open>s => s + 20\<close>, give the same state at that
  render whenever they are run, so they are applied here at the call: \<open>score\<close> is the state
  value with the queued additions of 20 already made. The updater of the rare bomb,
  \<open>s => s + enemiesRef.current.length * 20\<close>, reads a ref, and reads it when it is run:
  it is kept in the queue. \<open>pendingClears\<close> is the number of these updaters in the queue,
  and \<open>render\<close> below runs them.

  The refs \<open>scoreRef\<close>, \<open>gameStateRef\<close> and \<open>isPausedRef\<close> mirror the state values and
  are assigned only by the synchronising effects (\<open>syncRefs\<close> below), which run after a
  render and so never inside a call of \<open>update\<close> or \<open>fireMissile\<close>, and, for \<open>scoreRef\<close>,
  by \<open>initGame\<close>. \<open>drawn\<close> counts the calls of \<open>Math.random\<close> made so far.

  The language choice, the background image, the pointer position and the handle of the
  scheduled animation frame are presentation only and are left out.
\<close>

record game =
  gameState :: GameState
  score :: int
  ammo :: AmmoCounts
  isPaused :: bool
  enemiesRef :: "EnemyRocket list"
  missilesRef :: "InterceptorMissile list"
  explosionsRef :: "Explosion list"
  citiesRef :: "City list"
  batteriesRef :: "Battery list"
  particlesRef :: "Particle list"
  scoreRef :: int
  gameStateRef :: GameState
  isPausedRef :: bool
  drawn :: nat
  pendingClears :: nat

text \<open>
  What the surroundings supply: the sequence of results of \<open>Math.random\<close>, the two
  renderings of a number as text that the identifiers are built from
  (\<open>toString(36).substr(2, 9)\<close> and the rendering inside a template literal), the size of
  the window, and the size of the canvas (its \<open>width\<close> and \<open>height\<close> are unsigned integers)
  when the canvas and its drawing context exist.
\<close>

record io =
  random :: "nat \<Rightarrow> real"
  toString36 :: "real \<Rightarrow> string"
  toStr :: "jsnum \<Rightarrow> string"
  innerWidth :: real
  innerHeight :: real
  canvas :: "(nat \<times> nat) option"

text \<open>
  \<open>Math.random()\<close> returns a number in \<open>[0, 1)\<close>: the fractional part of the next element
  of the sequence. The draws that only decide how something is painted (the flicker of a
  rocket flame, the jitter of a lightning bolt) are not taken from the sequence.
\<close>

definition Math_random :: "io \<Rightarrow> game \<Rightarrow> real" where
  "Math_random env s = frac (random env (drawn s))"

definition drew :: "game \<Rightarrow> game" where
  "drew s = s\<lparr>drawn := Suc (drawn s)\<rparr>"

section \<open>Initialisation and the mirrors\<close>

definition cityPositions :: "real list" where
  "cityPositions = [15 / 100, 25 / 100, 35 / 100, 65 / 100, 75 / 100, 85 / 100]"

definition initGame :: "io \<Rightarrow> game \<Rightarrow> game" where
  "initGame env s =
     (let width = innerWidth env; height = innerHeight env;
          cities = map (\<lambda>(i, pos).
                     \<lparr>ident = ''city-'' @ toStr env (Fin (real i)), x = Fin (width * pos),
                      y = Fin (height - 40), City.active = True\<rparr>)
                   (enumerate 0 cityPositions);
          batteries =
            [\<lparr>ident = ''left'', x = Fin (width * (5 / 100)), y = Fin (height - 50),
              Battery.active = True, Battery.ammo = left INITIAL_AMMO, maxAmmo = left INITIAL_AMMO\<rparr>,
             \<lparr>ident = ''center'', x = Fin (width * (5 / 10)), y = Fin (height - 50),
              Battery.active = True, Battery.ammo = center INITIAL_AMMO,
              maxAmmo = center INITIAL_AMMO\<rparr>,
             \<lparr>ident = ''right'', x = Fin (width * (95 / 100)), y = Fin (height - 50),
              Battery.active = True, Battery.ammo = right INITIAL_AMMO,
              maxAmmo = right INITIAL_AMMO\<rparr>]
      in s\<lparr>citiesRef := cities, batteriesRef := batteries, game.ammo := INITIAL_AMMO,
           enemiesRef := [], missilesRef := [], explosionsRef := [], particlesRef := [],
           score := 0, pendingClears := 0, scoreRef := 0\<rparr>)"

definition startGame :: "io \<Rightarrow> game \<Rightarrow> game" where
  "startGame env s = (initGame env s)\<lparr>gameState := PLAYING\<rparr>"

text \<open>
  \<open>setScore(0)\<close> replaces whatever the queue holds before it, so \<open>initGame\<close> leaves no
  updater pending.

  A render runs the queued updaters of the rare bomb: each adds 20 times the length of
  \<open>enemiesRef.current\<close> as it is at the render.
\<close>

definition render :: "game \<Rightarrow> game" where
  "render s =
     s\<lparr>score := score s + int (pendingClears s) * (int (length (enemiesRef s)) * 20),
       pendingClears := 0\<rparr>"

text \<open>The three effects that copy a state value into its ref after a render.\<close>

definition syncRefs :: "game \<Rightarrow> game" where
  "syncRefs s = s\<lparr>scoreRef := score s, gameStateRef := gameState s, isPausedRef := isPaused s\<rparr>"

text \<open>
  \<open>handleResize\<close> moves the cities and batteries to the proportional positions of the new
  window size; a city beyond the sixth finds no entry in the table of positions, and the
  product with \<open>undefined\<close> is NaN. The size it gives the canvas is what later calls find
  in \<open>canvas\<close>.
\<close>

definition handleResize :: "io \<Rightarrow> game \<Rightarrow> game" where
  "handleResize env s =
     (case canvas env of
        None \<Rightarrow> s
      | Some cv \<Rightarrow>
         (let width = innerWidth env; height = innerHeight env;
              cities = map (\<lambda>(i, city).
                         city\<lparr>x := (if i < length cityPositions
                                     then Fin (width * (cityPositions ! i)) else NaN),
                               y := Fin (height - 40)\<rparr>)
                       (enumerate 0 (citiesRef s));
              bs = batteriesRef s;
              batteries =
                (if length bs = 3
                 then [(bs ! 0)\<lparr>x := Fin (width * (5 / 100)), y := Fin (height - 50)\<rparr>,
                       (bs ! 1)\<lparr>x := Fin (width * (5 / 10)), y := Fin (height - 50)\<rparr>,
                       (bs ! 2)\<lparr>x := Fin (width * (95 / 100)), y := Fin (height - 50)\<rparr>]
                 else bs)
          in s\<lparr>citiesRef := cities, batteriesRef := batteries\<rparr>))"

section \<open>Spawner\<close>

definition spawnEnemy :: "io \<Rightarrow> game \<Rightarrow> game" where
  "spawnEnemy env s =
     (let width = innerWidth env;
          targets = map (\<lambda>c. (x c, y c)) (filter City.active (citiesRef s)) @
                    map (\<lambda>b. (x b, y b)) (filter Battery.active (batteriesRef s))
      in if length targets = 0 then s
         else
           (let r1 = Math_random env s; s1 = drew s;
                target = targets ! nat \<lfloor>r1 * real (length targets)\<rfloor>;
                r2 = Math_random env s1; s2 = drew s1;
                r3 = Math_random env s2; s3 = drew s2;
                enemy = \<lparr>ident = toString36 env r2, x = Fin 0, y = Fin 0,
                         EnemyRocket.startX = Fin (r3 * width), startY = Fin (- 20),
                         targetX = fst target, targetY = snd target, progress = Fin 0,
                         speed = ENEMY_SPEED_BASE +
                                 (Fin (of_int (scoreRef s)) / Fin 1000) * Fin (5 / 10)\<rparr>
            in s3\<lparr>enemiesRef := enemiesRef s3 @ [enemy]\<rparr>))"


section \<open>Targeting and dispatch\<close>

text \<open>
  The loop of \<open>fireMissile\<close> over the batteries. \<open>bestBattery\<close> is a reference to an element
  of the array: here, its index. The loop starts with no battery and \<open>minDist = Infinity\<close>.
\<close>

fun selectBattery ::
  "jsnum \<Rightarrow> Battery list \<Rightarrow> nat \<Rightarrow> nat option \<times> jsnum \<Rightarrow> nat option \<times> jsnum" where
  "selectBattery tx [] i acc = acc"
| "selectBattery tx (b # bs) i (bestBattery, minDist) =
     (if Battery.active b \<and> 0 < Battery.ammo b
      then (let dist = \<bar>x b - tx\<bar>
            in if dist < minDist then selectBattery tx bs (Suc i) (Some i, dist)
               else selectBattery tx bs (Suc i) (bestBattery, minDist))
      else selectBattery tx bs (Suc i) (bestBattery, minDist))"

datatype error = TypeError

definition rollType :: "real \<Rightarrow> MissileType" where
  "rollType rand =
     (if rand < 1 / 10 then RARE
      else if rand < 25 / 100 then LIGHTNING
      else if rand < 4 / 10 then DRONE
      else NORMAL)"

text \<open>
  After the decrement the three counters shown on screen are read from the first three
  batteries; with fewer than three in the array that read throws.
\<close>

definition fireMissile :: "io \<Rightarrow> jsnum \<Rightarrow> jsnum \<Rightarrow> game \<Rightarrow> error + game" where
  "fireMissile env tx ty s =
     (if gameStateRef s \<noteq> PLAYING \<or> isPausedRef s then Inr s
      else
        (case fst (selectBattery tx (batteriesRef s) 0 (None, PInf)) of
           None \<Rightarrow> Inr s
         | Some i \<Rightarrow>
            (let old = batteriesRef s ! i;
                 bestBattery = old\<lparr>Battery.ammo := Battery.ammo old - 1\<rparr>;
                 bs = (batteriesRef s)[i := bestBattery]
             in if length bs < 3 then Inl TypeError
                else
                  (let s1 = s\<lparr>batteriesRef := bs,
                              game.ammo := \<lparr>left = Battery.ammo (bs ! 0),
                                             center = Battery.ammo (bs ! 1),
                                             right = Battery.ammo (bs ! 2)\<rparr>\<rparr>;
                       rand = Math_random env s1; s2 = drew s1;
                       ty1 = rollType rand;
                       r2 = Math_random env s2; s3 = drew s2;
                       missile = \<lparr>ident = toString36 env r2, x = x bestBattery,
                                  y = y bestBattery,
                                  InterceptorMissile.startX = x bestBattery,
                                  startY = y bestBattery, targetX = tx, targetY = ty,
                                  progress = Fin 0, mtype = ty1,
                                  hoverTimer = Some (if ty1 = DRONE then 180 else 0),
                                  hasFired = None\<rparr>
                   in Inr (s3\<lparr>missilesRef := missilesRef s3 @ [missile]\<rparr>)))))"

section \<open>Frame simulation: enemy projectiles\<close>

definition advanceEnemy :: "EnemyRocket \<Rightarrow> EnemyRocket" where
  "advanceEnemy e =
     (let dx = EnemyRocket.targetX e - EnemyRocket.startX e;
          dy = EnemyRocket.targetY e - EnemyRocket.startY e;
          dist = Math_sqrt (dx * dx + dy * dy);
          p = EnemyRocket.progress e + speed e / dist
      in e\<lparr>EnemyRocket.progress := p,
            x := EnemyRocket.startX e + dx * p,
            y := EnemyRocket.startY e + dy * p\<rparr>)"

text \<open>
  \<open>find\<close> returns the first element whose \<open>x\<close> is less than 5 away from the target's \<open>x\<close>,
  and that element is switched off.
\<close>

fun hitCity :: "jsnum \<Rightarrow> City list \<Rightarrow> City list" where
  "hitCity tx [] = []"
| "hitCity tx (c # cs) =
     (if \<bar>x c - tx\<bar> < Fin 5 then c\<lparr>City.active := False\<rparr> # cs else c # hitCity tx cs)"

fun hitBattery :: "jsnum \<Rightarrow> Battery list \<Rightarrow> Battery list" where
  "hitBattery tx [] = []"
| "hitBattery tx (b # bs) =
     (if \<bar>x b - tx\<bar> < Fin 5 then b\<lparr>Battery.active := False\<rparr> # bs
      else b # hitBattery tx bs)"

definition impactEnemy :: "io \<Rightarrow> EnemyRocket \<Rightarrow> game \<Rightarrow> game" where
  "impactEnemy env e s =
     (let r = Math_random env s; s1 = drew s
      in s1\<lparr>explosionsRef := explosionsRef s1 @
                [\<lparr>ident = ''impact-'' @ toStr env (Fin r), x = EnemyRocket.targetX e,
                  y = EnemyRocket.targetY e, radius = Fin 0, maxRadius = Fin 30,
                  Explosion.life = Fin 1, isRare = None\<rparr>],
             citiesRef := hitCity (EnemyRocket.targetX e) (citiesRef s1),
             batteriesRef := hitBattery (EnemyRocket.targetX e) (batteriesRef s1)\<rparr>)"

text \<open>
  The callback of the filter over the enemies, run on each element in order: the result is
  the list of the enemies kept (already advanced) and the state after the side effects.
\<close>

fun filterEnemies :: "io \<Rightarrow> EnemyRocket list \<Rightarrow> game \<Rightarrow> EnemyRocket list \<times> game" where
  "filterEnemies env [] s = ([], s)"
| "filterEnemies env (e # es) s =
     (let e1 = advanceEnemy e
      in if Fin 1 \<le> EnemyRocket.progress e1
         then filterEnemies env es (impactEnemy env e1 s)
         else (case filterEnemies env es s of (kept, s1) \<Rightarrow> (e1 # kept, s1)))"

definition updateEnemies :: "io \<Rightarrow> game \<Rightarrow> game" where
  "updateEnemies env s =
     (case filterEnemies env (enemiesRef s) s of (kept, s1) \<Rightarrow> s1\<lparr>enemiesRef := kept\<rparr>)"


section \<open>Frame simulation: interceptor missiles\<close>

definition advanceMissile :: "InterceptorMissile \<Rightarrow> InterceptorMissile" where
  "advanceMissile m =
     (let dx = InterceptorMissile.targetX m - InterceptorMissile.startX m;
          dy = InterceptorMissile.targetY m - InterceptorMissile.startY m;
          dist = Math_sqrt (dx * dx + dy * dy)
      in if InterceptorMissile.progress m < Fin 1
         then (let p = InterceptorMissile.progress m + MISSILE_SPEED / dist
               in m\<lparr>InterceptorMissile.progress := p,
                     x := InterceptorMissile.startX m + dx * p,
                     y := InterceptorMissile.startY m + dy * p\<rparr>)
         else m)"

definition pushExplosion :: "Explosion \<Rightarrow> game \<Rightarrow> game" where
  "pushExplosion ex s = s\<lparr>explosionsRef := explosionsRef s @ [ex]\<rparr>"

definition droneSubBomb :: "io \<Rightarrow> InterceptorMissile \<Rightarrow> game \<Rightarrow> game" where
  "droneSubBomb env m s =
     (let r1 = Math_random env s; s1 = drew s;
          angle = Fin r1 * Math_PI * Fin 2;
          r2 = Math_random env s1; s2 = drew s1;
          dist = Fin r2 * Fin 150 + Fin 50;
          r3 = Math_random env s2; s3 = drew s2
      in pushExplosion
           \<lparr>ident = ''drone-sub-exp-'' @ toStr env (Fin r3),
            x = x m + Math_cos angle * dist, y = y m + Math_sin angle * dist,
            radius = Fin 0, maxRadius = EXPLOSION_RADIUS * Fin (6 / 10),
            Explosion.life = Fin 1, isRare = None\<rparr> s3)"

text \<open>One explosion of the final burst of a drone, and the appending of it.\<close>

definition finalExplosion :: "io \<Rightarrow> InterceptorMissile \<Rightarrow> nat \<Rightarrow> real \<Rightarrow> Explosion" where
  "finalExplosion env m i r =
     (let angle = (Fin (real i) / Fin 12) * Math_PI * Fin 2
      in \<lparr>ident = ''drone-final-exp-'' @ toStr env (Fin r),
          x = x m + Math_cos angle * Fin 80, y = y m + Math_sin angle * Fin 80,
          radius = Fin 0, maxRadius = EXPLOSION_RADIUS,
          Explosion.life = Fin 1, isRare = None\<rparr>)"

definition burstExplosion :: "io \<Rightarrow> InterceptorMissile \<Rightarrow> nat \<Rightarrow> game \<Rightarrow> game" where
  "burstExplosion env m i s =
     (let r = Math_random env s; s1 = drew s
      in pushExplosion (finalExplosion env m i r) s1)"

text \<open>The loop \<open>for (let i = 0; i < 12; i++)\<close> of the final burst, over the values of \<open>i\<close>.\<close>

fun droneFinalBurst :: "io \<Rightarrow> InterceptorMissile \<Rightarrow> nat list \<Rightarrow> game \<Rightarrow> game" where
  "droneFinalBurst env m [] s = s"
| "droneFinalBurst env m (i # rest) s = droneFinalBurst env m rest (burstExplosion env m i s)"

definition nearbyEnemies :: "InterceptorMissile \<Rightarrow> game \<Rightarrow> EnemyRocket list" where
  "nearbyEnemies m s =
     filter (\<lambda>e. let edx = x e - x m; edy = y e - y m
                 in Math_sqrt (edx * edx + edy * edy) < Fin 300)
       (enemiesRef s)"

text \<open>One strike of the lightning: the enemy is removed by its identifier.\<close>

definition lightningStrike :: "io \<Rightarrow> EnemyRocket \<Rightarrow> game \<Rightarrow> game" where
  "lightningStrike env e s =
     (let s1 = s\<lparr>enemiesRef := filter (\<lambda>en. ident en \<noteq> ident e) (enemiesRef s),
                 score := score s + 20\<rparr>;
          r = Math_random env s1; s2 = drew s1
      in pushExplosion
           \<lparr>ident = ''lightning-exp-'' @ toStr env (Fin r), x = x e, y = y e,
            radius = Fin 0, maxRadius = Fin 20,
            Explosion.life = Fin (5 / 10), isRare = None\<rparr> s2)"

text \<open>The \<open>forEach\<close> over the nearby enemies with its index: every other one is struck.\<close>

fun lightningChain :: "io \<Rightarrow> EnemyRocket list \<Rightarrow> nat \<Rightarrow> game \<Rightarrow> game" where
  "lightningChain env [] index s = s"
| "lightningChain env (e # es) index s =
     (if index mod 2 = 0 then lightningChain env es (Suc index) (lightningStrike env e s)
      else lightningChain env es (Suc index) s)"

definition normalExplosion :: "io \<Rightarrow> InterceptorMissile \<Rightarrow> game \<Rightarrow> game" where
  "normalExplosion env m s =
     (let r = Math_random env s; s1 = drew s
      in pushExplosion
           \<lparr>ident = ''exp-'' @ toStr env (Fin r), x = InterceptorMissile.targetX m,
            y = InterceptorMissile.targetY m, radius = Fin 0, maxRadius = EXPLOSION_RADIUS,
            Explosion.life = Fin 1, isRare = None\<rparr> s1)"

definition rareExplosion :: "io \<Rightarrow> nat \<Rightarrow> nat \<Rightarrow> InterceptorMissile \<Rightarrow> game \<Rightarrow> game" where
  "rareExplosion env width height m s =
     (let r = Math_random env s; s1 = drew s
      in pushExplosion
           \<lparr>ident = ''rare-exp-'' @ toStr env (Fin r), x = x m, y = y m, radius = Fin 0,
            maxRadius = Math_max (Fin (real width)) (Fin (real height)) * Fin (15 / 10),
            Explosion.life = Fin 1, isRare = Some True\<rparr> s1)"

text \<open>
  The callback of the filter over the missiles: the missile to keep, if it is kept, and
  the state after the side effects.
\<close>

definition missileCallback ::
  "io \<Rightarrow> nat \<Rightarrow> nat \<Rightarrow> InterceptorMissile \<Rightarrow> game \<Rightarrow> InterceptorMissile option \<times> game" where
  "missileCallback env width height m0 s =
     (let m = advanceMissile m0
      in if Fin 1 \<le> InterceptorMissile.progress m
         then
           (if mtype m = DRONE
            then
              (if (case hoverTimer m of None \<Rightarrow> False | Some t \<Rightarrow> 0 < t)
               then
                 (let m1 = m\<lparr>hoverTimer := Some (the (hoverTimer m) - 1)\<rparr>
                  in (Some m1,
                      if the (hoverTimer m1) mod 20 = 0 then droneSubBomb env m1 s else s))
               else (None, droneFinalBurst env m [0..<12] s))
            else if mtype m = RARE then (None, rareExplosion env width height m s)
            else if mtype m = LIGHTNING
            then (None, normalExplosion env m (lightningChain env (nearbyEnemies m s) 0 s))
            else (None, normalExplosion env m s))
         else (Some m, s))"

fun filterMissiles ::
  "io \<Rightarrow> nat \<Rightarrow> nat \<Rightarrow> InterceptorMissile list \<Rightarrow> game
     \<Rightarrow> InterceptorMissile list \<times> game" where
  "filterMissiles env width height [] s = ([], s)"
| "filterMissiles env width height (m # ms) s =
     (case missileCallback env width height m s of
        (keep, s1) \<Rightarrow>
          (case filterMissiles env width height ms s1 of
             (kept, s2) \<Rightarrow> ((case keep of None \<Rightarrow> kept | Some m1 \<Rightarrow> m1 # kept), s2)))"

definition updateMissiles :: "io \<Rightarrow> nat \<Rightarrow> nat \<Rightarrow> game \<Rightarrow> game" where
  "updateMissiles env width height s =
     (case filterMissiles env width height (missilesRef s) s of
        (kept, s1) \<Rightarrow> s1\<lparr>missilesRef := kept\<rparr>)"


section \<open>Frame simulation: explosions and particles\<close>

text \<open>One particle of the batch that a new explosion emits.\<close>

definition emitParticle :: "io \<Rightarrow> real \<Rightarrow> Explosion \<Rightarrow> game \<Rightarrow> game" where
  "emitParticle env time ex s =
     (let r1 = Math_random env s; s1 = drew s;
          angle = Fin r1 * Math_PI * Fin 2;
          r2 = Math_random env s1; s2 = drew s1;
          pspeed = Fin r2 * Fin 3 + Fin 1;
          r3 = Math_random env s2; s3 = drew s2;
          r4 = Math_random env s3; s4 = drew s3
      in s4\<lparr>particlesRef := particlesRef s4 @
                [\<lparr>ident = ''p-'' @ toStr env (Fin r3), x = x ex, y = y ex,
                  vx = Math_cos angle * pspeed, vy = Math_sin angle * pspeed,
                  Particle.life = Fin 1,
                  color = ''hsl('' @ toStr env (js_rem (Fin time / Fin 10) (Fin 360)) @
                          '', 100%, 70%)'',
                  psize = Fin r4 * Fin 3 + Fin 1\<rparr>]\<rparr>)"

text \<open>The loop \<open>for (let i = 0; i < 15; i++)\<close> that emits the particles, counted down.\<close>

fun spawnParticles :: "io \<Rightarrow> real \<Rightarrow> Explosion \<Rightarrow> nat \<Rightarrow> game \<Rightarrow> game" where
  "spawnParticles env time ex 0 s = s"
| "spawnParticles env time ex (Suc n) s =
     spawnParticles env time ex n (emitParticle env time ex s)"

text \<open>The radius of an explosion as the source derives it from \<open>maxRadius\<close> and \<open>life\<close>.\<close>

definition explosionRadius :: "jsnum \<Rightarrow> jsnum \<Rightarrow> jsnum" where
  "explosionRadius maxR l =
     (if Fin (5 / 10) < l
      then Math_max (Fin 0) (maxR * (Fin 1 - (l - Fin (5 / 10)) * Fin 2))
      else Math_max (Fin 0) (maxR * (l * Fin 2)))"

text \<open>
  The clearing by a rare explosion at its peak: \<open>setScore\<close> is handed the updater, which
  goes to the queue, and the next statement empties \<open>enemiesRef.current\<close>.
\<close>

definition rareClear :: "Explosion \<Rightarrow> game \<Rightarrow> game" where
  "rareClear ex s =
     (if isRare ex = Some True \<and> Explosion.life ex < Fin (6 / 10) \<and>
         Fin (4 / 10) < Explosion.life ex
      then (if 0 < length (enemiesRef s)
            then s\<lparr>pendingClears := Suc (pendingClears s), enemiesRef := []\<rparr>
            else s)
      else s)"

text \<open>The filter of the enemies against one explosion: 20 points for each enemy caught.\<close>

fun filterHit :: "Explosion \<Rightarrow> EnemyRocket list \<Rightarrow> game \<Rightarrow> EnemyRocket list \<times> game" where
  "filterHit ex [] s = ([], s)"
| "filterHit ex (enemy # es) s =
     (let edx = x enemy - x ex; edy = y enemy - y ex;
          edist = Math_sqrt (edx * edx + edy * edy)
      in if edist < radius ex then filterHit ex es (s\<lparr>score := score s + 20\<rparr>)
         else (case filterHit ex es s of (kept, s1) \<Rightarrow> (enemy # kept, s1)))"

definition explosionCallback ::
  "io \<Rightarrow> real \<Rightarrow> Explosion \<Rightarrow> game \<Rightarrow> Explosion option \<times> game" where
  "explosionCallback env time ex0 s =
     (let oldLife = Explosion.life ex0;
          ex1 = ex0\<lparr>Explosion.life := Explosion.life ex0 - Fin 1 / EXPLOSION_DURATION\<rparr>;
          s1 = (if oldLife = Fin 1 then spawnParticles env time ex1 15 s else s);
          ex2 = ex1\<lparr>radius := explosionRadius (maxRadius ex1) (Explosion.life ex1)\<rparr>;
          s2 = rareClear ex2 s1
      in case filterHit ex2 (enemiesRef s2) s2 of
           (kept, s3) \<Rightarrow>
             (if Fin 0 < Explosion.life ex2 then Some ex2 else None,
              s3\<lparr>enemiesRef := kept\<rparr>))"

fun filterExplosions ::
  "io \<Rightarrow> real \<Rightarrow> Explosion list \<Rightarrow> game \<Rightarrow> Explosion list \<times> game" where
  "filterExplosions env time [] s = ([], s)"
| "filterExplosions env time (ex # exs) s =
     (case explosionCallback env time ex s of
        (keep, s1) \<Rightarrow>
          (case filterExplosions env time exs s1 of
             (kept, s2) \<Rightarrow> ((case keep of None \<Rightarrow> kept | Some ex1 \<Rightarrow> ex1 # kept), s2)))"

definition updateExplosions :: "io \<Rightarrow> real \<Rightarrow> game \<Rightarrow> game" where
  "updateExplosions env time s =
     (case filterExplosions env time (explosionsRef s) s of
        (kept, s1) \<Rightarrow> s1\<lparr>explosionsRef := kept\<rparr>)"

definition stepParticle :: "Particle \<Rightarrow> Particle" where
  "stepParticle p =
     p\<lparr>Particle.life := Particle.life p - Fin (2 / 100),
       x := x p + vx p, y := y p + vy p,
       vx := vx p * Fin (98 / 100), vy := vy p * Fin (98 / 100)\<rparr>"

definition updateParticles :: "game \<Rightarrow> game" where
  "updateParticles s =
     s\<lparr>particlesRef :=
         filter (\<lambda>p. Fin 0 < Particle.life p) (map stepParticle (particlesRef s))\<rparr>"

section \<open>Win and loss, and the whole tick\<close>

definition checkWinLoss :: "game \<Rightarrow> game" where
  "checkWinLoss s =
     (if WIN_SCORE \<le> scoreRef s then s\<lparr>gameState := WIN\<rparr>
      else if list_all (\<lambda>b. \<not> Battery.active b) (batteriesRef s)
      then s\<lparr>gameState := GAMEOVER\<rparr>
      else s)"

definition spawnPhase :: "io \<Rightarrow> game \<Rightarrow> game" where
  "spawnPhase env s =
     (let r = Math_random env s; s1 = drew s
      in if r < 15 / 1000 + real_of_int (scoreRef s1) / 5000 then spawnEnemy env s1 else s1)"

text \<open>
  One call of \<open>update\<close>: nothing happens unless the mirror of the session state says
  PLAYING, the mirror of the pause flag is off and the canvas exists; otherwise the phases
  run in the order of the source. Painting and the request for the next frame leave the
  state of the game alone and are not modelled.
\<close>

definition update :: "io \<Rightarrow> real \<Rightarrow> game \<Rightarrow> game" where
  "update env time s =
     (if gameStateRef s \<noteq> PLAYING then s
      else if isPausedRef s then s
      else
        (case canvas env of
           None \<Rightarrow> s
         | Some (width, height) \<Rightarrow>
             checkWinLoss
               (updateParticles
                  (updateExplosions env time
                     (updateMissiles env width height
                        (updateEnemies env
                           (spawnPhase env s)))))))"


section \<open>The component as a transition system\<close>

text \<open>
  The state the component is mounted with (the initial values of its state hooks and
  refs), and the states that the handlers of the component can lead to from there: the
  start button, a render with the synchronising effects that follow it, an animation frame,
  a click on the canvas while the session is PLAYING, the pause button and a resize of the
  window.
\<close>

definition mount :: game where
  "mount =
     \<lparr>gameState = START, score = 0, game.ammo = INITIAL_AMMO, isPaused = False,
      enemiesRef = [], missilesRef = [], explosionsRef = [], citiesRef = [],
      batteriesRef = [], particlesRef = [], scoreRef = 0, gameStateRef = START,
      isPausedRef = False, drawn = 0, pendingClears = 0\<rparr>"

inductive reachable :: "game \<Rightarrow> bool" where
  mounted: "reachable (initGame env mount)"
| started: "reachable s \<Longrightarrow> reachable (startGame env s)"
| synced: "reachable s \<Longrightarrow> reachable (syncRefs (render s))"
| frame: "reachable s \<Longrightarrow> reachable (update env time s)"
| fired: "reachable s \<Longrightarrow> gameState s = PLAYING \<Longrightarrow> fireMissile env tx ty s = Inr s'
          \<Longrightarrow> reachable s'"
| paused: "reachable s \<Longrightarrow> gameState s = PLAYING \<Longrightarrow> reachable (s\<lparr>isPaused := \<not> isPaused s\<rparr>)"
| resized: "reachable s \<Longrightarrow> reachable (handleResize env s)"

section \<open>Notions used in the statements\<close>

text \<open>A battery that may fire, and its horizontal distance to the point aimed at.\<close>

definition eligible :: "Battery \<Rightarrow> bool" where
  "eligible b = (Battery.active b \<and> 0 < Battery.ammo b)"

definition horizontal :: "jsnum \<Rightarrow> Battery \<Rightarrow> jsnum" where
  "horizontal tx b = \<bar>x b - tx\<bar>"

text \<open>The score of \<open>s'\<close> is the score of \<open>s\<close> plus a multiple of 20 that is not negative.\<close>

definition awarded :: "game \<Rightarrow> game \<Rightarrow> bool" where
  "awarded s s' = (score s \<le> score s' \<and> 20 dvd (score s' - score s))"

text \<open>The score together with 20 points for each enemy projectile still in flight.\<close>

definition bounty :: "game \<Rightarrow> int" where
  "bounty s = score s + 20 * int (length (enemiesRef s))"

text \<open>
  An explosion after the explosion phase has processed it once: its life is one sixtieth
  less and its radius is the one the profile gives for the new life.
\<close>

definition ageExplosion :: "Explosion \<Rightarrow> Explosion" where
  "ageExplosion ex =
     (let l = Explosion.life ex - Fin 1 / EXPLOSION_DURATION
      in ex\<lparr>Explosion.life := l, radius := explosionRadius (maxRadius ex) l\<rparr>)"

text \<open>
  The element at index \<open>i\<close> of a list of \<open>x\<close> coordinates is the first one less than 5
  away from \<open>tx\<close>: the element that \<open>find\<close> returns for a target at \<open>tx\<close>.
\<close>

definition firstNear :: "jsnum \<Rightarrow> jsnum list \<Rightarrow> nat \<Rightarrow> bool" where
  "firstNear tx xs i =
     (i < length xs \<and> \<bar>xs ! i - tx\<bar> < Fin 5 \<and>
      list_all (\<lambda>a. \<not> \<bar>a - tx\<bar> < Fin 5) (take i xs))"

section \<open>Sample data\<close>

text \<open>
  A window of 800 by 600 with a random source that always returns one half, and the session
  right after the start button on a freshly mounted component, rendered.
\<close>

definition env0 :: io where
  "env0 = \<lparr>random = (\<lambda>n. 1 / 2), toString36 = (\<lambda>r. ''r''), toStr = (\<lambda>a. ''n''),
           innerWidth = 800, innerHeight = 600, canvas = Some (800, 600)\<rparr>"

definition playing0 :: game where
  "playing0 = syncRefs (render (startGame env0 (initGame env0 mount)))"

text \<open>The same session with every battery out of ammunition.\<close>

definition dry :: game where
  "dry = playing0\<lparr>batteriesRef := map (\<lambda>b. b\<lparr>Battery.ammo := 0\<rparr>) (batteriesRef playing0)\<rparr>"


text \<open>An explosion a quarter of the way through its life.\<close>

definition blast0 :: Explosion where
  "blast0 = \<lparr>ident = ''exp-n'', x = Fin 400, y = Fin 300, radius = Fin 0, maxRadius = Fin 40,
             Explosion.life = Fin (3 / 4), isRare = None\<rparr>"

text \<open>
  An enemy projectile on its way from the top of the screen to the centre battery, one tick
  before it arrives, and a projectile whose target is the point it starts from.
\<close>

definition incoming :: EnemyRocket where
  "incoming = \<lparr>ident = ''r'', x = Fin 400, y = Fin (54943 / 100),
               EnemyRocket.startX = Fin 400, startY = Fin (- 20), targetX = Fin 400,
               targetY = Fin 550, progress = Fin (999 / 1000), speed = Fin (8 / 10)\<rparr>"

definition stuck :: EnemyRocket where
  "stuck = \<lparr>ident = ''r'', x = Fin 0, y = Fin 0,
            EnemyRocket.startX = Fin 400, startY = Fin (- 20), targetX = Fin 400,
            targetY = Fin (- 20), progress = Fin 0, speed = Fin (8 / 10)\<rparr>"

text \<open>
  A drone hovering at its target, on the tick that takes its countdown from 1 to 0, and the
  same drone one tick later.
\<close>

definition drone1 :: InterceptorMissile where
  "drone1 = \<lparr>ident = ''r'', x = Fin 400, y = Fin 300,
             InterceptorMissile.startX = Fin 400, startY = Fin 550, targetX = Fin 400,
             targetY = Fin 300, progress = Fin 1, mtype = DRONE,
             hoverTimer = Some 1, hasFired = None\<rparr>"

definition drone0 :: InterceptorMissile where
  "drone0 = drone1\<lparr>hoverTimer := Some 0\<rparr>"


definition falling2 :: EnemyRocket where
  "falling2 = \<lparr>ident = ''b'', x = Fin 200, y = Fin 94, EnemyRocket.startX = Fin 200,
               startY = Fin (- 20), targetX = Fin 200, targetY = Fin 550,
               progress = Fin (2 / 10), speed = Fin (8 / 10)\<rparr>"

definition rare0 :: Explosion where
  "rare0 = \<lparr>ident = ''rare-exp-n'', x = Fin 400, y = Fin 300, radius = Fin 1176,
            maxRadius = Fin 1200, Explosion.life = Fin (51 / 100), isRare = Some True\<rparr>"


text \<open>
  An enemy projectile impacts in a tick when its progress after the advance is 1 or more.
  What a set of enemy projectiles may do to a city or a battery in a tick: nothing, or
  switch it off, and then one of them impacts with its target's \<open>x\<close> less than 5 away.
\<close>

definition impacts :: "EnemyRocket \<Rightarrow> bool" where
  "impacts e = (Fin 1 \<le> EnemyRocket.progress (advanceEnemy e))"

definition cityFate :: "EnemyRocket set \<Rightarrow> City \<Rightarrow> City \<Rightarrow> bool" where
  "cityFate E c c' =
     (c' = c \<or>
      (c' = c\<lparr>City.active := False\<rparr> \<and>
       (\<exists>e\<in>E. impacts e \<and> \<bar>x c - EnemyRocket.targetX e\<bar> < Fin 5)))"

definition batteryFate :: "EnemyRocket set \<Rightarrow> Battery \<Rightarrow> Battery \<Rightarrow> bool" where
  "batteryFate E b b' =
     (b' = b \<or>
      (b' = b\<lparr>Battery.active := False\<rparr> \<and>
       (\<exists>e\<in>E. impacts e \<and> \<bar>x b - EnemyRocket.targetX e\<bar> < Fin 5)))"

text \<open>The sample session with the projectile about to arrive at the centre battery.\<close>

definition strike_state :: game where
  "strike_state = playing0\<lparr>enemiesRef := [incoming]\<rparr>"

text \<open>
  A session at 980 points with only the centre battery left: one projectile is about to
  hit that battery, and another is about to be caught by an explosion already burning.
\<close>

definition flak :: Explosion where
  "flak = \<lparr>ident = ''exp-n'', x = Fin 200, y = Fin (474 / 5), radius = Fin 20,
           maxRadius = Fin 40, Explosion.life = Fin (3 / 4), isRare = None\<rparr>"

definition last_stand :: game where
  "last_stand =
     playing0\<lparr>score := 980, scoreRef := 980,
              batteriesRef :=
                [(batteriesRef playing0 ! 0)\<lparr>Battery.active := False\<rparr>,
                 batteriesRef playing0 ! 1,
                 (batteriesRef playing0 ! 2)\<lparr>Battery.active := False\<rparr>],
              enemiesRef := [incoming, falling2], explosionsRef := [flak]\<rparr>"

text \<open>
  A window only 40 units wide, where neighbouring cities stand 4 units apart, with a
  projectile one tick before it impacts on the second city and another one tick before it
  impacts on the first city.
\<close>

definition env40 :: io where
  "env40 = env0\<lparr>innerWidth := 40, canvas := Some (40, 600)\<rparr>"

definition narrow0 :: game where
  "narrow0 = syncRefs (render (startGame env40 (initGame env40 mount)))"

definition aimed1 :: EnemyRocket where
  "aimed1 = \<lparr>ident = ''r'', x = Fin 10, y = Fin (55942 / 100),
              EnemyRocket.startX = Fin 10, startY = Fin (- 20), targetX = Fin 10,
              targetY = Fin 560, progress = Fin (999 / 1000), speed = Fin (8 / 10)\<rparr>"

definition aimed0 :: EnemyRocket where
  "aimed0 = \<lparr>ident = ''r'', x = Fin 6, y = Fin (55942 / 100),
              EnemyRocket.startX = Fin 6, startY = Fin (- 20), targetX = Fin 6,
              targetY = Fin 560, progress = Fin (999 / 1000), speed = Fin (8 / 10)\<rparr>"

definition narrow1 :: game where
  "narrow1 = narrow0\<lparr>enemiesRef := [aimed1]\<rparr>"

definition narrow2 :: game where
  "narrow2 = narrow0\<lparr>enemiesRef := [aimed0]\<rparr>"

text \<open>
  A window only 30 units high, where the batteries stand at the height at which projectiles
  start, with a random source whose first draws make the spawner send a projectile to the
  centre battery from the battery's own position.
\<close>

definition env_low :: io where
  "env_low = \<lparr>random = (\<lambda>n. if n = 0 then 0 else if n = 1 then 5 / 6 else 1 / 2),
              toString36 = (\<lambda>r. ''r''), toStr = (\<lambda>a. ''n''),
              innerWidth = 800, innerHeight = 30, canvas = Some (800, 30)\<rparr>"

definition low0 :: game where
  "low0 = syncRefs (render (startGame env_low (initGame env_low mount)))"

text \<open>The sample session with the hovering drone in flight, and with the drone at countdown 0.\<close>

definition hover_state :: game where
  "hover_state = playing0\<lparr>missilesRef := [drone1]\<rparr>"

definition burst_state :: game where
  "burst_state = playing0\<lparr>missilesRef := [drone0]\<rparr>"

text \<open>The three refs that mirror state values.\<close>

definition mirrors :: "game \<Rightarrow> GameState \<times> bool \<times> int" where
  "mirrors s = (gameStateRef s, isPausedRef s, scoreRef s)"

text \<open>An explosion whose maximal radius is a finite number that is not negative.\<close>

definition sound_radius :: "Explosion \<Rightarrow> bool" where
  "sound_radius ex = (case maxRadius ex of Fin m \<Rightarrow> 0 \<le> m | PInf \<Rightarrow> False
                      | NInf \<Rightarrow> False | NaN \<Rightarrow> False)"

section \<open>Facts about the numbers\<close>

lemmas jsnum_ops =
  uminus_jsnum_def plus_jsnum_def minus_jsnum_def times_jsnum_def divide_jsnum_def
  inverse_jsnum_def abs_jsnum_def less_jsnum_def less_eq_jsnum_def js_sub_def js_inv_def

lemma Math_max_zero: "0 \<le> r \<Longrightarrow> Math_max (Fin 0) (Fin r) = Fin r"
  by (auto simp add: jsnum_ops)

lemma js_less_PInf: "isFinite a \<Longrightarrow> a < PInf"
  by (cases a) (simp_all add: jsnum_ops)

lemma js_less_trans: "(a::jsnum) < b \<Longrightarrow> b < c \<Longrightarrow> a < c"
  by (cases a; cases b; cases c) (simp_all add: jsnum_ops)

lemma js_less_imp_le: "(a::jsnum) < b \<Longrightarrow> a \<le> b"
  by (cases a; cases b) (simp_all add: jsnum_ops)

lemma js_not_less_le: "\<not> (a::jsnum) < b \<Longrightarrow> isFinite a \<Longrightarrow> isFinite b \<Longrightarrow> b \<le> a"
  by (cases a; cases b) (simp_all add: jsnum_ops)

lemma js_less_not_less: 
  "(a::jsnum) < md \<Longrightarrow> \<not> c < md \<Longrightarrow> isFinite c \<Longrightarrow> a < c"
  by (cases a; cases md; cases c) (simp_all add: jsnum_ops)

lemma js_less_isFinite: "(a::jsnum) < b \<Longrightarrow> isFinite b \<Longrightarrow> a = NInf \<or> isFinite a"
  by (cases a; cases b) (simp_all add: jsnum_ops)


section \<open>What each phase of a tick leaves alone\<close>

lemma drew_frame [simp]:
  "score (drew s) = score s" "scoreRef (drew s) = scoreRef s" "gameState (drew s) = gameState s"
  "citiesRef (drew s) = citiesRef s" "batteriesRef (drew s) = batteriesRef s"
  "enemiesRef (drew s) = enemiesRef s" "explosionsRef (drew s) = explosionsRef s"
  "missilesRef (drew s) = missilesRef s" "particlesRef (drew s) = particlesRef s"
  by (simp_all add: drew_def)

lemma render_frame [simp]:
  "scoreRef (render s) = scoreRef s" "gameState (render s) = gameState s"
  "gameStateRef (render s) = gameStateRef s" "isPausedRef (render s) = isPausedRef s"
  "isPaused (render s) = isPaused s"
  "citiesRef (render s) = citiesRef s" "batteriesRef (render s) = batteriesRef s"
  "enemiesRef (render s) = enemiesRef s" "explosionsRef (render s) = explosionsRef s"
  "missilesRef (render s) = missilesRef s" "particlesRef (render s) = particlesRef s"
  "pendingClears (render s) = 0"
  by (simp_all add: render_def)

lemma pushExplosion_frame [simp]:
  "score (pushExplosion ex s) = score s" "scoreRef (pushExplosion ex s) = scoreRef s"
  "gameState (pushExplosion ex s) = gameState s"
  "citiesRef (pushExplosion ex s) = citiesRef s" "batteriesRef (pushExplosion ex s) = batteriesRef s"
  "enemiesRef (pushExplosion ex s) = enemiesRef s"
  "explosionsRef (pushExplosion ex s) = explosionsRef s @ [ex]"
  by (simp_all add: pushExplosion_def)

lemma spawnEnemy_frame [simp]:
  "score (spawnEnemy env s) = score s" "scoreRef (spawnEnemy env s) = scoreRef s"
  "gameState (spawnEnemy env s) = gameState s"
  "citiesRef (spawnEnemy env s) = citiesRef s" "batteriesRef (spawnEnemy env s) = batteriesRef s"
  "explosionsRef (spawnEnemy env s) = explosionsRef s"
  by (simp_all add: spawnEnemy_def Let_def)

lemma spawnPhase_frame [simp]:
  "score (spawnPhase env s) = score s" "scoreRef (spawnPhase env s) = scoreRef s"
  "gameState (spawnPhase env s) = gameState s"
  "citiesRef (spawnPhase env s) = citiesRef s" "batteriesRef (spawnPhase env s) = batteriesRef s"
  "explosionsRef (spawnPhase env s) = explosionsRef s"
  by (simp_all add: spawnPhase_def Let_def)

lemma impactEnemy_frame [simp]:
  "score (impactEnemy env e s) = score s" "scoreRef (impactEnemy env e s) = scoreRef s"
  "gameState (impactEnemy env e s) = gameState s"
  "enemiesRef (impactEnemy env e s) = enemiesRef s"
  by (simp_all add: impactEnemy_def Let_def)

lemma filterEnemies_frame:
  "filterEnemies env es s = (kept, s') \<Longrightarrow>
   score s' = score s \<and> scoreRef s' = scoreRef s \<and> gameState s' = gameState s"
proof (induction es arbitrary: s kept s')
  case Nil
  then show ?case by simp
next
  case (Cons e es)
  show ?case
  proof (cases "Fin 1 \<le> EnemyRocket.progress (advanceEnemy e)")
    case True
    with Cons.prems have "filterEnemies env es (impactEnemy env (advanceEnemy e) s) = (kept, s')"
      by (simp add: Let_def)
    from Cons.IH[OF this] show ?thesis by simp
  next
    case False
    with Cons.prems obtain k where "filterEnemies env es s = (k, s')"
      by (auto simp add: Let_def split: prod.splits)
    from Cons.IH[OF this] show ?thesis .
  qed
qed

lemma updateEnemies_frame [simp]:
  "score (updateEnemies env s) = score s" "scoreRef (updateEnemies env s) = scoreRef s"
  "gameState (updateEnemies env s) = gameState s"
  by (auto simp add: updateEnemies_def split: prod.splits dest: filterEnemies_frame)


lemma droneSubBomb_frame [simp]:
  "score (droneSubBomb env m s) = score s" "scoreRef (droneSubBomb env m s) = scoreRef s"
  "gameState (droneSubBomb env m s) = gameState s"
  "citiesRef (droneSubBomb env m s) = citiesRef s"
  "batteriesRef (droneSubBomb env m s) = batteriesRef s"
  "enemiesRef (droneSubBomb env m s) = enemiesRef s"
  by (simp_all add: droneSubBomb_def Let_def)

lemma normalExplosion_frame [simp]:
  "score (normalExplosion env m s) = score s" "scoreRef (normalExplosion env m s) = scoreRef s"
  "gameState (normalExplosion env m s) = gameState s"
  "citiesRef (normalExplosion env m s) = citiesRef s"
  "batteriesRef (normalExplosion env m s) = batteriesRef s"
  "enemiesRef (normalExplosion env m s) = enemiesRef s"
  by (simp_all add: normalExplosion_def Let_def)

lemma rareExplosion_frame [simp]:
  "score (rareExplosion env w h m s) = score s"
  "scoreRef (rareExplosion env w h m s) = scoreRef s"
  "gameState (rareExplosion env w h m s) = gameState s"
  "citiesRef (rareExplosion env w h m s) = citiesRef s"
  "batteriesRef (rareExplosion env w h m s) = batteriesRef s"
  "enemiesRef (rareExplosion env w h m s) = enemiesRef s"
  by (simp_all add: rareExplosion_def Let_def)

lemma burstExplosion_frame [simp]:
  "score (burstExplosion env m i s) = score s"
  "scoreRef (burstExplosion env m i s) = scoreRef s"
  "gameState (burstExplosion env m i s) = gameState s"
  "citiesRef (burstExplosion env m i s) = citiesRef s"
  "batteriesRef (burstExplosion env m i s) = batteriesRef s"
  "enemiesRef (burstExplosion env m i s) = enemiesRef s"
  by (simp_all add: burstExplosion_def Let_def)

lemma droneFinalBurst_frame [simp]:
  "score (droneFinalBurst env m ns s) = score s"
  "scoreRef (droneFinalBurst env m ns s) = scoreRef s"
  "gameState (droneFinalBurst env m ns s) = gameState s"
  "citiesRef (droneFinalBurst env m ns s) = citiesRef s"
  "batteriesRef (droneFinalBurst env m ns s) = batteriesRef s"
  "enemiesRef (droneFinalBurst env m ns s) = enemiesRef s"
  by (induction ns arbitrary: s; simp)+

lemma lightningStrike_frame [simp]:
  "score (lightningStrike env e s) = score s + 20"
  "scoreRef (lightningStrike env e s) = scoreRef s"
  "gameState (lightningStrike env e s) = gameState s"
  "citiesRef (lightningStrike env e s) = citiesRef s"
  "batteriesRef (lightningStrike env e s) = batteriesRef s"
  by (simp_all add: lightningStrike_def Let_def)

lemma lightningChain_frame [simp]:
  "scoreRef (lightningChain env es n s) = scoreRef s"
  "gameState (lightningChain env es n s) = gameState s"
  "citiesRef (lightningChain env es n s) = citiesRef s"
  "batteriesRef (lightningChain env es n s) = batteriesRef s"
  by (induction es arbitrary: n s; simp)+

lemma awarded_refl: "score s' = score s \<Longrightarrow> awarded s s'"
  by (simp add: awarded_def)

lemma awarded_trans: "awarded s s1 \<Longrightarrow> awarded s1 s2 \<Longrightarrow> awarded s s2"
proof -
  assume a: "awarded s s1" and b: "awarded s1 s2"
  have "score s2 - score s = (score s2 - score s1) + (score s1 - score s)" by simp
  moreover have "20 dvd (score s2 - score s1) + (score s1 - score s)"
    using a b by (intro dvd_add) (simp_all add: awarded_def)
  ultimately show ?thesis using a b by (simp add: awarded_def)
qed

lemma lightningChain_awarded: "awarded s (lightningChain env es n s)"
proof (induction es arbitrary: n s)
  case Nil
  show ?case by (simp add: awarded_def)
next
  case (Cons e es)
  have st: "awarded s (lightningStrike env e s)" by (simp add: awarded_def)
  show ?case
  proof (cases "n mod 2 = 0")
    case True
    have "awarded (lightningStrike env e s) (lightningChain env es (Suc n) (lightningStrike env e s))"
      by (rule Cons.IH)
    with st have "awarded s (lightningChain env es (Suc n) (lightningStrike env e s))"
      by (rule awarded_trans)
    with True show ?thesis by simp
  next
    case False
    with Cons.IH[of s "Suc n"] show ?thesis by simp
  qed
qed

lemma missileCallback_frame:
  "missileCallback env w h m s = (keep, s') \<Longrightarrow>
   scoreRef s' = scoreRef s \<and> gameState s' = gameState s \<and>
   citiesRef s' = citiesRef s \<and> batteriesRef s' = batteriesRef s"
  by (auto simp add: missileCallback_def Let_def split: if_splits)

lemma missileCallback_awarded:
  "missileCallback env w h m s = (keep, s') \<Longrightarrow> awarded s s'"
  using lightningChain_awarded[of s env "nearbyEnemies (advanceMissile m) s" 0]
  by (auto simp add: missileCallback_def Let_def awarded_def split: if_splits)

lemma filterMissiles_frame:
  "filterMissiles env w h ms s = (kept, s') \<Longrightarrow>
   scoreRef s' = scoreRef s \<and> gameState s' = gameState s \<and>
   citiesRef s' = citiesRef s \<and> batteriesRef s' = batteriesRef s \<and> awarded s s'"
proof (induction ms arbitrary: s kept s')
  case Nil
  then show ?case by (simp add: awarded_def)
next
  case (Cons m ms)
  obtain keep s1 where cb: "missileCallback env w h m s = (keep, s1)" by fastforce
  obtain k2 s2 where rest: "filterMissiles env w h ms s1 = (k2, s2)" by fastforce
  from Cons.prems cb rest have eq: "s' = s2" by (simp split: option.splits)
  have "awarded s s1" using cb by (rule missileCallback_awarded)
  moreover have "awarded s1 s2" using Cons.IH[OF rest] by simp
  ultimately have "awarded s s2" by (rule awarded_trans)
  with missileCallback_frame[OF cb] Cons.IH[OF rest] eq show ?case by simp
qed

lemma updateMissiles_frame:
  "scoreRef (updateMissiles env w h s) = scoreRef s"
  "gameState (updateMissiles env w h s) = gameState s"
  "citiesRef (updateMissiles env w h s) = citiesRef s"
  "batteriesRef (updateMissiles env w h s) = batteriesRef s"
  "awarded s (updateMissiles env w h s)"
proof -
  obtain kept s1 where f: "filterMissiles env w h (missilesRef s) s = (kept, s1)" by fastforce
  have u: "updateMissiles env w h s = s1\<lparr>missilesRef := kept\<rparr>"
    by (simp add: updateMissiles_def f)
  from filterMissiles_frame[OF f]
  show "scoreRef (updateMissiles env w h s) = scoreRef s"
    "gameState (updateMissiles env w h s) = gameState s"
    "citiesRef (updateMissiles env w h s) = citiesRef s"
    "batteriesRef (updateMissiles env w h s) = batteriesRef s"
    "awarded s (updateMissiles env w h s)"
    by (simp_all add: u awarded_def)
qed


lemma emitParticle_frame [simp]:
  "score (emitParticle env time ex s) = score s"
  "scoreRef (emitParticle env time ex s) = scoreRef s"
  "gameState (emitParticle env time ex s) = gameState s"
  "citiesRef (emitParticle env time ex s) = citiesRef s"
  "batteriesRef (emitParticle env time ex s) = batteriesRef s"
  "enemiesRef (emitParticle env time ex s) = enemiesRef s"
  by (simp_all add: emitParticle_def Let_def)

lemma spawnParticles_frame [simp]:
  "score (spawnParticles env time ex n s) = score s"
  "scoreRef (spawnParticles env time ex n s) = scoreRef s"
  "gameState (spawnParticles env time ex n s) = gameState s"
  "citiesRef (spawnParticles env time ex n s) = citiesRef s"
  "batteriesRef (spawnParticles env time ex n s) = batteriesRef s"
  "enemiesRef (spawnParticles env time ex n s) = enemiesRef s"
  by (induction n arbitrary: s; simp)+

lemma rareClear_frame [simp]:
  "score (rareClear ex s) = score s"
  "scoreRef (rareClear ex s) = scoreRef s"
  "gameState (rareClear ex s) = gameState s"
  "citiesRef (rareClear ex s) = citiesRef s"
  "batteriesRef (rareClear ex s) = batteriesRef s"
  by (simp_all add: rareClear_def)

lemma rareClear_plain: "isRare ex \<noteq> Some True \<Longrightarrow> rareClear ex s = s"
  by (simp add: rareClear_def)

lemma rareClear_length: "length (enemiesRef (rareClear ex s)) \<le> length (enemiesRef s)"
  by (simp add: rareClear_def)


lemma filterHit_frame:
  "filterHit ex es s = (kept, s') \<Longrightarrow>
   scoreRef s' = scoreRef s \<and> gameState s' = gameState s \<and>
   citiesRef s' = citiesRef s \<and> batteriesRef s' = batteriesRef s \<and>
   enemiesRef s' = enemiesRef s \<and> length kept \<le> length es \<and>
   score s' + 20 * int (length kept) = score s + 20 * int (length es)"
proof (induction es arbitrary: s kept s')
  case Nil
  then show ?case by simp
next
  case (Cons e es)
  let ?hit = "Math_sqrt ((x e - x ex) * (x e - x ex) + (y e - y ex) * (y e - y ex)) < radius ex"
  show ?case
  proof (cases ?hit)
    case True
    with Cons.prems have "filterHit ex es (s\<lparr>score := score s + 20\<rparr>) = (kept, s')"
      by (simp add: Let_def)
    from Cons.IH[OF this] show ?thesis by simp
  next
    case False
    with Cons.prems obtain k where r: "filterHit ex es s = (k, s')" and k: "kept = e # k"
      by (auto simp add: Let_def split: prod.splits)
    from Cons.IH[OF r] k show ?thesis by simp
  qed
qed

lemma filterHit_Nil: "filterHit ex [] s = ([], s)"
  by simp

lemma explosionCallback_frame:
  assumes "explosionCallback env time ex s = (keep, s')"
  shows "scoreRef s' = scoreRef s \<and> gameState s' = gameState s \<and>
         citiesRef s' = citiesRef s \<and> batteriesRef s' = batteriesRef s \<and>
         length (enemiesRef s') \<le> length (enemiesRef s) \<and> awarded s s' \<and>
         (isRare ex \<noteq> Some True \<longrightarrow> bounty s' = bounty s)"
proof -
  let ?ex1 = "ex\<lparr>Explosion.life := Explosion.life ex - Fin 1 / EXPLOSION_DURATION\<rparr>"
  let ?s1 = "if Explosion.life ex = Fin 1 then spawnParticles env time ?ex1 15 s else s"
  let ?ex2 = "?ex1\<lparr>radius := explosionRadius (maxRadius ?ex1) (Explosion.life ?ex1)\<rparr>"
  let ?s2 = "rareClear ?ex2 ?s1"
  obtain kept s3 where f: "filterHit ?ex2 (enemiesRef ?s2) ?s2 = (kept, s3)" by fastforce
  have s': "s' = s3\<lparr>enemiesRef := kept\<rparr>"
    using assms f by (simp add: explosionCallback_def Let_def)
  have sc: "score ?s2 = score s" by simp
  have b2: "isRare ex \<noteq> Some True \<Longrightarrow> bounty ?s2 = bounty s"
    by (simp add: rareClear_plain bounty_def)
  have "length (enemiesRef ?s2) \<le> length (enemiesRef ?s1)" by (rule rareClear_length)
  also have "enemiesRef ?s1 = enemiesRef s" by simp
  finally have l1: "length (enemiesRef ?s2) \<le> length (enemiesRef s)" .
  from filterHit_frame[OF f] have h:
    "scoreRef s3 = scoreRef ?s2" "gameState s3 = gameState ?s2" "citiesRef s3 = citiesRef ?s2"
    "batteriesRef s3 = batteriesRef ?s2" "length kept \<le> length (enemiesRef ?s2)"
    "score s3 + 20 * int (length kept) = bounty ?s2"
    by (simp_all add: bounty_def)
  from h(5,6) sc have "score s3 - score s = 20 * (int (length (enemiesRef ?s2)) - int (length kept))"
    and "score s \<le> score s3"
    by (simp_all add: bounty_def)
  hence aw: "awarded s s'" by (simp add: awarded_def s')
  from h b2 l1 aw show ?thesis by (simp add: s' bounty_def)
qed



lemma filterExplosions_frame:
  "filterExplosions env time exs s = (kept, s') \<Longrightarrow>
   scoreRef s' = scoreRef s \<and> gameState s' = gameState s \<and>
   citiesRef s' = citiesRef s \<and> batteriesRef s' = batteriesRef s \<and>
   length (enemiesRef s') \<le> length (enemiesRef s) \<and> awarded s s' \<and>
   (list_all (\<lambda>ex. isRare ex \<noteq> Some True) exs \<longrightarrow> bounty s' = bounty s)"
proof (induction exs arbitrary: s kept s')
  case Nil
  then show ?case by (simp add: awarded_def)
next
  case (Cons ex exs)
  obtain keep s1 where cb: "explosionCallback env time ex s = (keep, s1)" by fastforce
  obtain k2 s2 where rest: "filterExplosions env time exs s1 = (k2, s2)" by fastforce
  from Cons.prems cb rest have eq: "s' = s2" by (simp split: option.splits)
  have "awarded s s1" using explosionCallback_frame[OF cb] by simp
  moreover have "awarded s1 s2" using Cons.IH[OF rest] by simp
  ultimately have "awarded s s2" by (rule awarded_trans)
  with explosionCallback_frame[OF cb] Cons.IH[OF rest] eq show ?case by simp
qed


lemma updateExplosions_frame:
  "scoreRef (updateExplosions env time s) = scoreRef s"
  "gameState (updateExplosions env time s) = gameState s"
  "citiesRef (updateExplosions env time s) = citiesRef s"
  "batteriesRef (updateExplosions env time s) = batteriesRef s"
  "length (enemiesRef (updateExplosions env time s)) \<le> length (enemiesRef s)"
  "awarded s (updateExplosions env time s)"
  "list_all (\<lambda>ex. isRare ex \<noteq> Some True) (explosionsRef s) \<Longrightarrow>
   bounty (updateExplosions env time s) = bounty s"
proof -
  obtain kept s1 where f: "filterExplosions env time (explosionsRef s) s = (kept, s1)"
    by fastforce
  have u: "updateExplosions env time s = s1\<lparr>explosionsRef := kept\<rparr>"
    by (simp add: updateExplosions_def f)
  from filterExplosions_frame[OF f]
  show "scoreRef (updateExplosions env time s) = scoreRef s"
    "gameState (updateExplosions env time s) = gameState s"
    "citiesRef (updateExplosions env time s) = citiesRef s"
    "batteriesRef (updateExplosions env time s) = batteriesRef s"
    "length (enemiesRef (updateExplosions env time s)) \<le> length (enemiesRef s)"
    "awarded s (updateExplosions env time s)"
    "list_all (\<lambda>ex. isRare ex \<noteq> Some True) (explosionsRef s) \<Longrightarrow>
     bounty (updateExplosions env time s) = bounty s"
    by (simp_all add: u bounty_def awarded_def)
qed


lemma updateParticles_frame [simp]:
  "score (updateParticles s) = score s" "scoreRef (updateParticles s) = scoreRef s"
  "gameState (updateParticles s) = gameState s"
  "citiesRef (updateParticles s) = citiesRef s" "batteriesRef (updateParticles s) = batteriesRef s"
  "enemiesRef (updateParticles s) = enemiesRef s"
  "explosionsRef (updateParticles s) = explosionsRef s"
  "missilesRef (updateParticles s) = missilesRef s"
  by (simp_all add: updateParticles_def)

lemma checkWinLoss_frame [simp]:
  "score (checkWinLoss s) = score s" "scoreRef (checkWinLoss s) = scoreRef s"
  "citiesRef (checkWinLoss s) = citiesRef s" "batteriesRef (checkWinLoss s) = batteriesRef s"
  "enemiesRef (checkWinLoss s) = enemiesRef s"
  "explosionsRef (checkWinLoss s) = explosionsRef s"
  "missilesRef (checkWinLoss s) = missilesRef s"
  by (simp_all add: checkWinLoss_def)


section \<open>The battery chosen by a fire request\<close>

lemma isFinite_horizontal: "isFinite tx \<Longrightarrow> isFinite (x b) \<Longrightarrow> isFinite (horizontal tx b)"
  by (cases tx; cases "x b") (simp_all add: horizontal_def jsnum_ops)

lemma selectBattery_Cons:
  "selectBattery tx (b # bs) i (best, md) =
     (if eligible b \<and> horizontal tx b < md then selectBattery tx bs (Suc i) (Some i, horizontal tx b)
      else selectBattery tx bs (Suc i) (best, md))"
  by (simp add: eligible_def horizontal_def Let_def)

lemma selectBattery_spec:
  assumes "\<forall>b\<in>set bs. isFinite (horizontal tx b)"
  shows "(\<exists>k<length bs. selectBattery tx bs i (best, md) = (Some (i + k), horizontal tx (bs ! k)) \<and>
            eligible (bs ! k) \<and> horizontal tx (bs ! k) < md \<and>
            (\<forall>j<length bs. eligible (bs ! j) \<longrightarrow> horizontal tx (bs ! k) \<le> horizontal tx (bs ! j)) \<and>
            (\<forall>j<k. eligible (bs ! j) \<longrightarrow> horizontal tx (bs ! k) < horizontal tx (bs ! j)))
       \<or> (selectBattery tx bs i (best, md) = (best, md) \<and>
            (\<forall>b\<in>set bs. eligible b \<longrightarrow> \<not> horizontal tx b < md))"
  using assms
proof (induction bs arbitrary: i best md)
  case Nil
  show ?case by simp
next
  case (Cons b bs)
  let ?d = "horizontal tx b"
  have fin: "\<forall>b\<in>set bs. isFinite (horizontal tx b)" and finb: "isFinite ?d"
    using Cons.prems by simp_all
  show ?case
  proof (cases "eligible b \<and> ?d < md")
    case True
    hence sel: "selectBattery tx (b # bs) i (best, md) = selectBattery tx bs (Suc i) (Some i, ?d)"
      by (subst selectBattery_Cons) simp
    from Cons.IH[OF fin, of "Suc i" "Some i" ?d]
    show ?thesis
    proof (elim disjE exE conjE)
      fix k assume k: "k < length bs"
        and r: "selectBattery tx bs (Suc i) (Some i, ?d) = (Some (Suc i + k), horizontal tx (bs ! k))"
        and e: "eligible (bs ! k)" and lt: "horizontal tx (bs ! k) < ?d"
        and mn: "\<forall>j<length bs. eligible (bs ! j) \<longrightarrow> horizontal tx (bs ! k) \<le> horizontal tx (bs ! j)"
        and fs: "\<forall>j<k. eligible (bs ! j) \<longrightarrow> horizontal tx (bs ! k) < horizontal tx (bs ! j)"
      have "horizontal tx (bs ! k) < md" using lt True js_less_trans by blast
      with k r e lt mn fs sel js_less_imp_le[OF lt]
      have "Suc k < length (b # bs) \<and> selectBattery tx (b # bs) i (best, md) = (Some (i + Suc k), horizontal tx ((b # bs) ! Suc k)) \<and>
            eligible ((b # bs) ! Suc k) \<and> horizontal tx ((b # bs) ! Suc k) < md \<and>
            (\<forall>j<length (b # bs). eligible ((b # bs) ! j) \<longrightarrow> horizontal tx ((b # bs) ! Suc k) \<le> horizontal tx ((b # bs) ! j)) \<and>
            (\<forall>j<Suc k. eligible ((b # bs) ! j) \<longrightarrow> horizontal tx ((b # bs) ! Suc k) < horizontal tx ((b # bs) ! j))"
        by (simp add: All_less_Suc2)
      thus ?thesis by - (rule disjI1, rule exI[of _ "Suc k"], assumption)
    next
      assume r: "selectBattery tx bs (Suc i) (Some i, ?d) = (Some i, ?d)"
        and no: "\<forall>b\<in>set bs. eligible b \<longrightarrow> \<not> horizontal tx b < ?d"
      have "\<forall>j<length bs. eligible (bs ! j) \<longrightarrow> ?d \<le> horizontal tx (bs ! j)"
        using no fin finb js_not_less_le by (metis nth_mem)
      moreover have "?d \<le> ?d" using finb by (cases ?d) (simp_all add: jsnum_ops)
      ultimately
      have "0 < length (b # bs) \<and> selectBattery tx (b # bs) i (best, md) = (Some (i + 0), horizontal tx ((b # bs) ! 0)) \<and>
            eligible ((b # bs) ! 0) \<and> horizontal tx ((b # bs) ! 0) < md \<and>
            (\<forall>j<length (b # bs). eligible ((b # bs) ! j) \<longrightarrow> horizontal tx ((b # bs) ! 0) \<le> horizontal tx ((b # bs) ! j)) \<and>
            (\<forall>j<(0::nat). eligible ((b # bs) ! j) \<longrightarrow> horizontal tx ((b # bs) ! 0) < horizontal tx ((b # bs) ! j))"
        using True r sel by (simp add: All_less_Suc2)
      thus ?thesis by - (rule disjI1, rule exI[of _ "0"], assumption)
    qed
  next
    case False
    hence sel: "selectBattery tx (b # bs) i (best, md) = selectBattery tx bs (Suc i) (best, md)"
      by (subst selectBattery_Cons) auto
    from Cons.IH[OF fin, of "Suc i" best md]
    show ?thesis
    proof (elim disjE exE conjE)
      fix k assume k: "k < length bs"
        and r: "selectBattery tx bs (Suc i) (best, md) = (Some (Suc i + k), horizontal tx (bs ! k))"
        and e: "eligible (bs ! k)" and lt: "horizontal tx (bs ! k) < md"
        and mn: "\<forall>j<length bs. eligible (bs ! j) \<longrightarrow> horizontal tx (bs ! k) \<le> horizontal tx (bs ! j)"
        and fs: "\<forall>j<k. eligible (bs ! j) \<longrightarrow> horizontal tx (bs ! k) < horizontal tx (bs ! j)"
      have b0: "eligible b \<longrightarrow> horizontal tx (bs ! k) < ?d"
        using False lt finb js_less_not_less by blast
      hence b1: "eligible b \<longrightarrow> horizontal tx (bs ! k) \<le> ?d" using js_less_imp_le by blast
      from k r e lt mn fs sel b0 b1
      have "Suc k < length (b # bs) \<and> selectBattery tx (b # bs) i (best, md) = (Some (i + Suc k), horizontal tx ((b # bs) ! Suc k)) \<and>
            eligible ((b # bs) ! Suc k) \<and> horizontal tx ((b # bs) ! Suc k) < md \<and>
            (\<forall>j<length (b # bs). eligible ((b # bs) ! j) \<longrightarrow> horizontal tx ((b # bs) ! Suc k) \<le> horizontal tx ((b # bs) ! j)) \<and>
            (\<forall>j<Suc k. eligible ((b # bs) ! j) \<longrightarrow> horizontal tx ((b # bs) ! Suc k) < horizontal tx ((b # bs) ! j))"
        by (simp add: All_less_Suc2)
      thus ?thesis by - (rule disjI1, rule exI[of _ "Suc k"], assumption)
    next
      assume r: "selectBattery tx bs (Suc i) (best, md) = (best, md)"
        and no: "\<forall>b\<in>set bs. eligible b \<longrightarrow> \<not> horizontal tx b < md"
      thus ?thesis using False sel by auto
    qed
  qed
qed

lemma selectBattery_none:
  "\<forall>b \<in> set bs. \<not> eligible b \<Longrightarrow> selectBattery tx bs i acc = acc"
  by (induction bs arbitrary: i acc) (auto simp add: eligible_def split: prod.splits)

section \<open>Sample data, evaluated\<close>

lemma playing0_simps:
  "gameStateRef playing0 = PLAYING" "isPausedRef playing0 = False" "enemiesRef playing0 = []"
  "missilesRef playing0 = []" "explosionsRef playing0 = []" "score playing0 = 0"
  "scoreRef playing0 = 0" "gameState playing0 = PLAYING"
  by (simp_all add: playing0_def syncRefs_def render_def startGame_def initGame_def mount_def Let_def)

lemma playing0_batteries:
  "batteriesRef playing0 =
     [\<lparr>ident = ''left'', x = Fin 40, y = Fin 550, Battery.active = True,
       Battery.ammo = 20, maxAmmo = 20\<rparr>,
      \<lparr>ident = ''center'', x = Fin 400, y = Fin 550, Battery.active = True,
       Battery.ammo = 40, maxAmmo = 40\<rparr>,
      \<lparr>ident = ''right'', x = Fin 760, y = Fin 550, Battery.active = True,
       Battery.ammo = 20, maxAmmo = 20\<rparr>]"
  by (simp add: playing0_def syncRefs_def render_def startGame_def initGame_def mount_def env0_def
        Let_def INITIAL_AMMO_def)

lemma dry_simps:
  "gameStateRef dry = PLAYING" "isPausedRef dry = False"
  "batteriesRef dry =
     [\<lparr>ident = ''left'', x = Fin 40, y = Fin 550, Battery.active = True,
       Battery.ammo = 0, maxAmmo = 20\<rparr>,
      \<lparr>ident = ''center'', x = Fin 400, y = Fin 550, Battery.active = True,
       Battery.ammo = 0, maxAmmo = 40\<rparr>,
      \<lparr>ident = ''right'', x = Fin 760, y = Fin 550, Battery.active = True,
       Battery.ammo = 0, maxAmmo = 20\<rparr>]"
  by (simp_all add: dry_def playing0_simps playing0_batteries)

section \<open>Fire requests and the profile of an explosion\<close>

text \<open>
  C8. A fire request made when no battery is both active and stocked is a silent no-op: the
  call returns normally, and the state it returns is the state it was given, so every
  entity store, every battery's ammunition and every active flag is as before.
\<close>

theorem fireMissile_noop:
  "\<forall>b \<in> set (batteriesRef s). \<not> eligible b \<Longrightarrow> fireMissile env tx ty s = Inr s"
  by (simp add: fireMissile_def selectBattery_none)

theorem fireMissile_noop_witness:
  "gameStateRef dry = PLAYING \<and> \<not> isPausedRef dry \<and>
   \<not> (\<exists>b \<in> set (batteriesRef dry). eligible b) \<and>
   fireMissile env0 (Fin 100) (Fin 100) dry = Inr dry"
proof -
  have h: "\<forall>b \<in> set (batteriesRef dry). \<not> eligible b"
    by (simp add: dry_simps eligible_def)
  from h fireMissile_noop[OF h, of env0 "Fin 100" "Fin 100"] show ?thesis
    by (simp add: dry_simps)
qed

text \<open>
  C5. The radius an explosion is given from its life follows the triangular profile, for
  a maximal radius that is finite and not negative: 0 at life 1, rising linearly to the
  maximal radius as life falls through (0.5, 1], the maximal radius at life 0.5, and falling
  linearly to 0 at life 0. Each tick gives an explosion the radius of this profile at
  its life after the decrement. Every explosion stored in a reachable state has such a
  maximal radius (lemma reachable_explosions below).
\<close>

theorem explosion_radius_profile:
  assumes "0 \<le> m"
  shows "explosionRadius (Fin m) (Fin 1) = Fin 0 \<and>
         explosionRadius (Fin m) (Fin (1 / 2)) = Fin m \<and>
         explosionRadius (Fin m) (Fin 0) = Fin 0 \<and>
         (\<forall>l. 1 / 2 < l \<and> l \<le> 1 \<longrightarrow> explosionRadius (Fin m) (Fin l) = Fin (m * (2 - 2 * l))) \<and>
         (\<forall>l. 0 \<le> l \<and> l \<le> 1 / 2 \<longrightarrow> explosionRadius (Fin m) (Fin l) = Fin (m * (2 * l))) \<and>
         (\<forall>env time ex s ex' s'.
            explosionCallback env time ex s = (Some ex', s') \<longrightarrow>
            Explosion.life ex' = Explosion.life ex - Fin 1 / EXPLOSION_DURATION \<and>
            radius ex' = explosionRadius (maxRadius ex) (Explosion.life ex'))"
proof -
  have up: "explosionRadius (Fin m) (Fin l) = Fin (m * (2 - 2 * l))"
    if "1 / 2 < l" "l \<le> 1" for l
  proof -
    have "0 \<le> m * (2 - 2 * l)" using assms that by (intro mult_nonneg_nonneg) auto
    hence "Math_max (Fin 0) (Fin (m * (2 - 2 * l))) = Fin (m * (2 - 2 * l))"
      by (rule Math_max_zero)
    moreover have "Fin m * (Fin 1 - (Fin l - Fin (5 / 10)) * Fin 2) = Fin (m * (2 - 2 * l))"
      by (simp add: jsnum_ops algebra_simps)
    moreover have "Fin (5 / 10) < Fin l" using that by (simp add: jsnum_ops)
    ultimately show ?thesis by (simp add: explosionRadius_def)
  qed
  have down: "explosionRadius (Fin m) (Fin l) = Fin (m * (2 * l))"
    if "0 \<le> l" "l \<le> 1 / 2" for l
  proof -
    have "0 \<le> m * (2 * l)" using assms that by (intro mult_nonneg_nonneg) auto
    hence "Math_max (Fin 0) (Fin (m * (2 * l))) = Fin (m * (2 * l))" by (rule Math_max_zero)
    moreover have "Fin m * (Fin l * Fin 2) = Fin (m * (2 * l))"
      by (simp add: jsnum_ops algebra_simps)
    moreover have "\<not> Fin (5 / 10) < Fin l" using that by (simp add: jsnum_ops)
    ultimately show ?thesis by (simp add: explosionRadius_def)
  qed
  have cb: "Explosion.life ex' = Explosion.life ex - Fin 1 / EXPLOSION_DURATION \<and>
            radius ex' = explosionRadius (maxRadius ex) (Explosion.life ex')"
    if "explosionCallback env time ex s = (Some ex', s')" for env time ex s ex' s'
    using that by (auto simp add: explosionCallback_def Let_def split: prod.splits if_splits)
  from up[of 1] down[of "1 / 2"] down[of 0] up down cb show ?thesis by simp
qed

theorem explosion_radius_profile_witness:
  "explosionRadius (Fin 40) (Fin 1) = Fin 0 \<and>
   explosionRadius (Fin 40) (Fin (1 / 2)) = Fin 40 \<and>
   explosionRadius (Fin 40) (Fin 0) = Fin 0 \<and>
   explosionRadius (Fin 40) (Fin (3 / 4)) = Fin 20 \<and>
   explosionRadius (Fin 40) (Fin (1 / 4)) = Fin 20 \<and>
   (\<exists>ex'. explosionCallback env0 0 blast0 playing0 = (Some ex', playing0) \<and>
          Explosion.life ex' = Fin (11 / 15) \<and> radius ex' = Fin (64 / 3))"
proof -
  have m: "(0::real) \<le> 40" by simp
  note p = explosion_radius_profile[OF m]
  have a: "explosionRadius (Fin 40) (Fin (3 / 4)) = Fin 20"
    using p by simp
  have b: "explosionRadius (Fin 40) (Fin (1 / 4)) = Fin 20"
    using p by simp
  have l: "Explosion.life blast0 - Fin 1 / EXPLOSION_DURATION = Fin (11 / 15)"
    by (simp add: blast0_def EXPLOSION_DURATION_def jsnum_ops)
  have r: "explosionRadius (Fin 40) (Fin (11 / 15)) = Fin (64 / 3)"
    using p by simp
  have c: "explosionCallback env0 0 blast0 playing0 =
             (Some (blast0\<lparr>Explosion.life := Fin (11 / 15), radius := Fin (64 / 3)\<rparr>), playing0)"
    using l r
    by (simp add: explosionCallback_def Let_def rareClear_def playing0_simps jsnum_ops)
       (simp add: blast0_def jsnum_ops)
  from p a b c show ?thesis by simp
qed

text \<open>
  C7. A fire request made while the session is PLAYING and not paused, with a finite target
  and finite battery positions, three batteries or more, and a battery that is active with
  ammunition left: the battery chosen is active and stocked, no active and stocked battery
  is horizontally nearer to the target, every such battery before it in the array is strictly
  farther (the first one met wins a tie), that battery alone loses one round, and one
  interceptor is appended that starts at the battery's position with progress 0. The
  other entity stores and the score are as before. Every reachable state has exactly three
  batteries, at finite positions (lemma reachable_batteries below).
\<close>

theorem fireMissile_selects:
  assumes playing: "gameStateRef s = PLAYING" "\<not> isPausedRef s"
    and fin: "isFinite tx" "\<forall>b \<in> set (batteriesRef s). isFinite (x b)"
    and three: "3 \<le> length (batteriesRef s)"
    and some: "\<exists>b \<in> set (batteriesRef s). eligible b"
  shows "\<exists>k<length (batteriesRef s).
           eligible (batteriesRef s ! k) \<and>
           (\<forall>j<length (batteriesRef s). eligible (batteriesRef s ! j) \<longrightarrow>
              horizontal tx (batteriesRef s ! k) \<le> horizontal tx (batteriesRef s ! j)) \<and>
           (\<forall>j<k. eligible (batteriesRef s ! j) \<longrightarrow>
              horizontal tx (batteriesRef s ! k) < horizontal tx (batteriesRef s ! j)) \<and>
           (\<exists>s' m. fireMissile env tx ty s = Inr s' \<and>
              batteriesRef s' =
                (batteriesRef s)[k := (batteriesRef s ! k)
                   \<lparr>Battery.ammo := Battery.ammo (batteriesRef s ! k) - 1\<rparr>] \<and>
              missilesRef s' = missilesRef s @ [m] \<and>
              x m = x (batteriesRef s ! k) \<and> y m = y (batteriesRef s ! k) \<and>
              InterceptorMissile.startX m = x (batteriesRef s ! k) \<and>
              InterceptorMissile.startY m = y (batteriesRef s ! k) \<and>
              InterceptorMissile.targetX m = tx \<and> InterceptorMissile.targetY m = ty \<and>
              InterceptorMissile.progress m = Fin 0 \<and>
              enemiesRef s' = enemiesRef s \<and> explosionsRef s' = explosionsRef s \<and>
              citiesRef s' = citiesRef s \<and> particlesRef s' = particlesRef s \<and>
              score s' = score s)"
proof -
  let ?bs = "batteriesRef s"
  have finh: "\<forall>b\<in>set ?bs. isFinite (horizontal tx b)"
    using fin by (simp add: isFinite_horizontal)
  from some obtain b where b: "b \<in> set ?bs" "eligible b" by blast
  with finh have "horizontal tx b < PInf" by (simp add: js_less_PInf)
  with b have no: "\<not> (\<forall>b\<in>set ?bs. eligible b \<longrightarrow> \<not> horizontal tx b < PInf)" by blast
  from selectBattery_spec[OF finh, of 0 None PInf] no
  obtain k where k: "k < length ?bs"
    and sel: "selectBattery tx ?bs 0 (None, PInf) = (Some k, horizontal tx (?bs ! k))"
    and el: "eligible (?bs ! k)"
    and mn: "\<forall>j<length ?bs. eligible (?bs ! j) \<longrightarrow> horizontal tx (?bs ! k) \<le> horizontal tx (?bs ! j)"
    and fs: "\<forall>j<k. eligible (?bs ! j) \<longrightarrow> horizontal tx (?bs ! k) < horizontal tx (?bs ! j)"
    by auto
  have fire: "\<exists>s' m. fireMissile env tx ty s = Inr s' \<and>
              batteriesRef s' = ?bs[k := (?bs ! k)\<lparr>Battery.ammo := Battery.ammo (?bs ! k) - 1\<rparr>] \<and>
              missilesRef s' = missilesRef s @ [m] \<and>
              x m = x (?bs ! k) \<and> y m = y (?bs ! k) \<and>
              InterceptorMissile.startX m = x (?bs ! k) \<and>
              InterceptorMissile.startY m = y (?bs ! k) \<and>
              InterceptorMissile.targetX m = tx \<and> InterceptorMissile.targetY m = ty \<and>
              InterceptorMissile.progress m = Fin 0 \<and>
              enemiesRef s' = enemiesRef s \<and> explosionsRef s' = explosionsRef s \<and>
              citiesRef s' = citiesRef s \<and> particlesRef s' = particlesRef s \<and>
              score s' = score s"
    using playing three sel
    by (simp add: fireMissile_def Let_def drew_def)
  from k el mn fs fire show ?thesis by blast
qed


theorem fireMissile_selects_witness:
  "\<exists>s' m. fireMissile env0 (Fin 100) (Fin 100) playing0 = Inr s' \<and>
          map Battery.ammo (batteriesRef s') = [19, 40, 20] \<and>
          missilesRef s' = [m] \<and> x m = Fin 40 \<and> y m = Fin 550 \<and>
          InterceptorMissile.progress m = Fin 0"
proof -
  let ?bs = "batteriesRef playing0"
  have h1: "gameStateRef playing0 = PLAYING" and h2: "\<not> isPausedRef playing0"
    by (simp_all add: playing0_simps)
  have h3: "isFinite (Fin 100)" by simp
  have h4: "\<forall>b \<in> set ?bs. isFinite (x b)" by (simp add: playing0_batteries)
  have h5: "3 \<le> length ?bs" by (simp add: playing0_batteries)
  have h6: "\<exists>b \<in> set ?bs. eligible b" by (simp add: playing0_batteries eligible_def)
  from fireMissile_selects[OF h1 h2 h3 h4 h5 h6, of env0 "Fin 100"]
  obtain k s' m where k: "k < length ?bs"
    and mn: "\<forall>j<length ?bs. eligible (?bs ! j) \<longrightarrow>
               horizontal (Fin 100) (?bs ! k) \<le> horizontal (Fin 100) (?bs ! j)"
    and fire: "fireMissile env0 (Fin 100) (Fin 100) playing0 = Inr s'"
    and bs': "batteriesRef s' = ?bs[k := (?bs ! k)\<lparr>Battery.ammo := Battery.ammo (?bs ! k) - 1\<rparr>]"
    and ms: "missilesRef s' = missilesRef playing0 @ [m]"
    and pos: "x m = x (?bs ! k)" "y m = y (?bs ! k)" "InterceptorMissile.progress m = Fin 0"
    by (elim exE conjE) (rule that; assumption)
  from k have "k = 0 \<or> k = 1 \<or> k = 2" by (auto simp add: playing0_batteries)
  moreover from mn[rule_format, of 0]
  have "horizontal (Fin 100) (?bs ! k) \<le> horizontal (Fin 100) (?bs ! 0)"
    by (simp add: playing0_batteries eligible_def)
  ultimately have k0: "k = 0"
    by (auto simp add: playing0_batteries horizontal_def jsnum_ops)
  from fire bs' ms pos show ?thesis
    by (simp add: k0 playing0_batteries playing0_simps)
qed

section \<open>Impacts of enemy projectiles\<close>

lemma hitCity_length [simp]: "length (hitCity tx cs) = length cs"
  by (induction cs) simp_all

lemma hitBattery_length [simp]: "length (hitBattery tx bs) = length bs"
  by (induction bs) simp_all

lemma hitCity_nth:
  "i < length cs \<Longrightarrow>
   hitCity tx cs ! i =
     (if \<bar>x (cs ! i) - tx\<bar> < Fin 5 \<and> (\<forall>j<i. \<not> \<bar>x (cs ! j) - tx\<bar> < Fin 5)
      then (cs ! i)\<lparr>City.active := False\<rparr> else cs ! i)"
proof (induction cs arbitrary: i)
  case Nil
  then show ?case by simp
next
  case (Cons c cs)
  show ?case
  proof (cases i)
    case 0
    then show ?thesis by simp
  next
    case (Suc n)
    with Cons.prems Cons.IH[of n] show ?thesis by (auto simp add: All_less_Suc2)
  qed
qed

lemma hitBattery_nth:
  "i < length bs \<Longrightarrow>
   hitBattery tx bs ! i =
     (if \<bar>x (bs ! i) - tx\<bar> < Fin 5 \<and> (\<forall>j<i. \<not> \<bar>x (bs ! j) - tx\<bar> < Fin 5)
      then (bs ! i)\<lparr>Battery.active := False\<rparr> else bs ! i)"
proof (induction bs arbitrary: i)
  case Nil
  then show ?case by simp
next
  case (Cons c cs)
  show ?case
  proof (cases i)
    case 0
    then show ?thesis by simp
  next
    case (Suc n)
    with Cons.prems Cons.IH[of n] show ?thesis by (auto simp add: All_less_Suc2)
  qed
qed

lemma advanceEnemy_target [simp]:
  "EnemyRocket.targetX (advanceEnemy e) = EnemyRocket.targetX e"
  "EnemyRocket.targetY (advanceEnemy e) = EnemyRocket.targetY e"
  "ident (advanceEnemy e) = ident e"
  by (simp_all add: advanceEnemy_def Let_def)

lemma filterEnemies_kept:
  "filterEnemies env es s = (kept, s') \<Longrightarrow>
   kept = filter (\<lambda>e. \<not> Fin 1 \<le> EnemyRocket.progress e) (map advanceEnemy es)"
proof (induction es arbitrary: s kept s')
  case Nil
  then show ?case by simp
next
  case (Cons e es)
  show ?case
  proof (cases "Fin 1 \<le> EnemyRocket.progress (advanceEnemy e)")
    case True
    with Cons.prems have "filterEnemies env es (impactEnemy env (advanceEnemy e) s) = (kept, s')"
      by (simp add: Let_def)
    from Cons.IH[OF this] True show ?thesis by simp
  next
    case False
    with Cons.prems obtain k where r: "filterEnemies env es s = (k, s')"
      and k: "kept = advanceEnemy e # k"
      by (auto simp add: Let_def split: prod.splits)
    from Cons.IH[OF r] k False show ?thesis by simp
  qed
qed

lemma updateEnemies_kept:
  "enemiesRef (updateEnemies env s) =
     filter (\<lambda>e. \<not> Fin 1 \<le> EnemyRocket.progress e) (map advanceEnemy (enemiesRef s))"
proof -
  obtain kept s1 where f: "filterEnemies env (enemiesRef s) s = (kept, s1)" by fastforce
  from filterEnemies_kept[OF f] show ?thesis by (simp add: updateEnemies_def f)
qed

lemma sqrt_324900: "sqrt 324900 = 570"
  by (rule real_sqrt_unique) simp_all

lemma advance_incoming:
  "advanceEnemy incoming =
     incoming\<lparr>EnemyRocket.progress := Fin (999 / 1000 + 8 / 5700),
              x := Fin 400, y := Fin (- 20 + 570 * (999 / 1000 + 8 / 5700))\<rparr>"
  by (simp add: advanceEnemy_def incoming_def Let_def jsnum_ops sqrt_324900)

lemma playing0_cities:
  "citiesRef playing0 =
     [\<lparr>ident = ''city-n'', x = Fin 120, y = Fin 560, City.active = True\<rparr>,
      \<lparr>ident = ''city-n'', x = Fin 200, y = Fin 560, City.active = True\<rparr>,
      \<lparr>ident = ''city-n'', x = Fin 280, y = Fin 560, City.active = True\<rparr>,
      \<lparr>ident = ''city-n'', x = Fin 520, y = Fin 560, City.active = True\<rparr>,
      \<lparr>ident = ''city-n'', x = Fin 600, y = Fin 560, City.active = True\<rparr>,
      \<lparr>ident = ''city-n'', x = Fin 680, y = Fin 560, City.active = True\<rparr>]"
  by (simp add: playing0_def syncRefs_def render_def startGame_def initGame_def mount_def env0_def
        Let_def cityPositions_def)

section \<open>The drone\<close>

lemma js_le_not_less: "Fin 1 \<le> a \<Longrightarrow> \<not> a < Fin 1"
  by (cases a) (simp_all add: jsnum_ops)

lemma advanceMissile_arrived:
  "Fin 1 \<le> InterceptorMissile.progress m \<Longrightarrow> advanceMissile m = m"
  by (simp add: advanceMissile_def Let_def js_le_not_less)

lemma burstExplosion_effect:
  "explosionsRef (burstExplosion env m i s) =
     explosionsRef s @ [finalExplosion env m i (frac (random env (drawn s)))]"
  "drawn (burstExplosion env m i s) = Suc (drawn s)"
  by (simp_all add: burstExplosion_def Let_def pushExplosion_def drew_def Math_random_def)

lemma droneFinalBurst_explosions:
  "explosionsRef (droneFinalBurst env m ns s) =
     explosionsRef s @
       map2 (\<lambda>i k. finalExplosion env m i (frac (random env k))) ns
         [drawn s ..< drawn s + length ns]"
proof (induction ns arbitrary: s)
  case Nil
  show ?case by simp
next
  case (Cons i ns)
  have "[drawn s ..< drawn s + Suc (length ns)] =
          drawn s # [Suc (drawn s) ..< Suc (drawn s) + length ns]"
    by (subst upt_rec) simp
  then show ?case
    by (simp add: Cons.IH burstExplosion_effect del: upt_Suc)
qed

section \<open>Explosions that stay in the store, and the rare bomb\<close>

lemma drew_more [simp]:
  "missilesRef (drew s) = missilesRef s" "gameStateRef (drew s) = gameStateRef s"
  by (simp_all add: drew_def)

lemma spawnPhase_more [simp]:
  "missilesRef (spawnPhase env s) = missilesRef s"
  by (simp add: spawnPhase_def spawnEnemy_def Let_def)

lemma impactEnemy_more [simp]:
  "missilesRef (impactEnemy env e s) = missilesRef s"
  "ex \<in> set (explosionsRef s) \<Longrightarrow> ex \<in> set (explosionsRef (impactEnemy env e s))"
  by (simp_all add: impactEnemy_def Let_def)

lemma filterEnemies_more:
  "filterEnemies env es s = (kept, s') \<Longrightarrow>
   missilesRef s' = missilesRef s \<and>
   (ex \<in> set (explosionsRef s) \<longrightarrow> ex \<in> set (explosionsRef s'))"
proof (induction es arbitrary: s kept s')
  case Nil
  then show ?case by simp
next
  case (Cons e es)
  show ?case
  proof (cases "Fin 1 \<le> EnemyRocket.progress (advanceEnemy e)")
    case True
    with Cons.prems have "filterEnemies env es (impactEnemy env (advanceEnemy e) s) = (kept, s')"
      by (simp add: Let_def)
    from Cons.IH[OF this] show ?thesis by simp
  next
    case False
    with Cons.prems obtain k where "filterEnemies env es s = (k, s')"
      by (auto simp add: Let_def split: prod.splits)
    from Cons.IH[OF this] show ?thesis .
  qed
qed

lemma updateEnemies_more:
  "missilesRef (updateEnemies env s) = missilesRef s"
  "ex \<in> set (explosionsRef s) \<Longrightarrow> ex \<in> set (explosionsRef (updateEnemies env s))"
proof -
  obtain kept s1 where f: "filterEnemies env (enemiesRef s) s = (kept, s1)" by fastforce
  from filterEnemies_more[OF f]
  show "missilesRef (updateEnemies env s) = missilesRef s"
    "ex \<in> set (explosionsRef s) \<Longrightarrow> ex \<in> set (explosionsRef (updateEnemies env s))"
    by (simp_all add: updateEnemies_def f)
qed

lemma missile_effects_explosions [simp]:
  "ex \<in> set (explosionsRef s) \<Longrightarrow> ex \<in> set (explosionsRef (droneSubBomb env m s))"
  "ex \<in> set (explosionsRef s) \<Longrightarrow> ex \<in> set (explosionsRef (burstExplosion env m i s))"
  "ex \<in> set (explosionsRef s) \<Longrightarrow> ex \<in> set (explosionsRef (normalExplosion env m s))"
  "ex \<in> set (explosionsRef s) \<Longrightarrow> ex \<in> set (explosionsRef (rareExplosion env w h m s))"
  "ex \<in> set (explosionsRef s) \<Longrightarrow> ex \<in> set (explosionsRef (lightningStrike env e s))"
  by (simp_all add: droneSubBomb_def burstExplosion_def normalExplosion_def rareExplosion_def
        lightningStrike_def Let_def)

lemma droneFinalBurst_explosions_mono [simp]:
  "ex \<in> set (explosionsRef s) \<Longrightarrow> ex \<in> set (explosionsRef (droneFinalBurst env m ns s))"
  by (induction ns arbitrary: s) simp_all

lemma lightningChain_explosions_mono [simp]:
  "ex \<in> set (explosionsRef s) \<Longrightarrow> ex \<in> set (explosionsRef (lightningChain env es n s))"
  by (induction es arbitrary: n s) simp_all

lemma missileCallback_explosions_mono:
  "missileCallback env w h m s = (keep, s') \<Longrightarrow> ex \<in> set (explosionsRef s) \<Longrightarrow>
   ex \<in> set (explosionsRef s')"
  by (auto simp add: missileCallback_def Let_def split: if_splits)

lemma filterMissiles_explosions_mono:
  "filterMissiles env w h ms s = (kept, s') \<Longrightarrow> ex \<in> set (explosionsRef s) \<Longrightarrow>
   ex \<in> set (explosionsRef s')"
proof (induction ms arbitrary: s kept s')
  case Nil
  then show ?case by simp
next
  case (Cons m ms)
  obtain keep s1 where cb: "missileCallback env w h m s = (keep, s1)" by fastforce
  obtain k2 s2 where rest: "filterMissiles env w h ms s1 = (k2, s2)" by fastforce
  from Cons.prems(1) cb rest have eq: "s' = s2" by (simp split: option.splits)
  from missileCallback_explosions_mono[OF cb Cons.prems(2)] have "ex \<in> set (explosionsRef s1)" .
  from Cons.IH[OF rest this] eq show ?case by simp
qed

lemma updateMissiles_explosions_mono:
  "ex \<in> set (explosionsRef s) \<Longrightarrow> ex \<in> set (explosionsRef (updateMissiles env w h s))"
proof -
  assume a: "ex \<in> set (explosionsRef s)"
  obtain kept s1 where f: "filterMissiles env w h (missilesRef s) s = (kept, s1)" by fastforce
  from filterMissiles_explosions_mono[OF f a] show ?thesis by (simp add: updateMissiles_def f)
qed

lemma updateMissiles_none:
  "missilesRef s = [] \<Longrightarrow> updateMissiles env w h s = s"
  by (simp add: updateMissiles_def)

lemma update_playing:
  "gameStateRef s = PLAYING \<Longrightarrow> \<not> isPausedRef s \<Longrightarrow> canvas env = Some (w, h) \<Longrightarrow>
   update env time s =
     checkWinLoss (updateParticles (updateExplosions env time
       (updateMissiles env w h (updateEnemies env (spawnPhase env s)))))"
  by (simp add: update_def)


lemma frac_half: "frac (1 / 2 :: real) = 1 / 2"
  by (simp add: frac_def)




section \<open>The score\<close>











section \<open>What can switch a city or a battery off\<close>

lemma cityFate_refl: "list_all2 (cityFate E) cs cs"
  by (simp add: list_all2_refl cityFate_def)

lemma batteryFate_refl: "list_all2 (batteryFate E) bs bs"
  by (simp add: list_all2_refl batteryFate_def)

lemma hitCity_fate:
  "impacts e \<Longrightarrow> list_all2 (cityFate {e}) cs (hitCity (EnemyRocket.targetX e) cs)"
  by (induction cs) (simp_all add: cityFate_refl, simp_all add: cityFate_def)

lemma hitBattery_fate:
  "impacts e \<Longrightarrow> list_all2 (batteryFate {e}) bs (hitBattery (EnemyRocket.targetX e) bs)"
  by (induction bs) (simp_all add: batteryFate_refl, simp_all add: batteryFate_def)

lemma cityFate_step:
  "cityFate {e} c c1 \<Longrightarrow> cityFate E c1 c' \<Longrightarrow> cityFate (insert e E) c c'"
  by (auto simp add: cityFate_def)

lemma batteryFate_step:
  "batteryFate {e} b b1 \<Longrightarrow> batteryFate E b1 b' \<Longrightarrow> batteryFate (insert e E) b b'"
  by (auto simp add: batteryFate_def)

lemma cityFate_mono: "cityFate E c c' \<Longrightarrow> cityFate (insert e E) c c'"
  by (auto simp add: cityFate_def)

lemma batteryFate_mono: "batteryFate E b b' \<Longrightarrow> batteryFate (insert e E) b b'"
  by (auto simp add: batteryFate_def)

lemma impactEnemy_defences:
  "citiesRef (impactEnemy env e s) = hitCity (EnemyRocket.targetX e) (citiesRef s)"
  "batteriesRef (impactEnemy env e s) = hitBattery (EnemyRocket.targetX e) (batteriesRef s)"
  by (simp_all add: impactEnemy_def Let_def)

lemma filterEnemies_fate:
  "filterEnemies env es s = (kept, s') \<Longrightarrow>
   list_all2 (cityFate (set es)) (citiesRef s) (citiesRef s') \<and>
   list_all2 (batteryFate (set es)) (batteriesRef s) (batteriesRef s')"
proof (induction es arbitrary: s kept s')
  case Nil
  then show ?case by (simp add: cityFate_refl batteryFate_refl)
next
  case (Cons e es)
  show ?case
  proof (cases "impacts e")
    case True
    let ?s1 = "impactEnemy env (advanceEnemy e) s"
    from True Cons.prems have r: "filterEnemies env es ?s1 = (kept, s')"
      by (simp add: Let_def impacts_def)
    have c1: "list_all2 (cityFate {e}) (citiesRef s) (citiesRef ?s1)"
      and b1: "list_all2 (batteryFate {e}) (batteriesRef s) (batteriesRef ?s1)"
      using hitCity_fate[OF True] hitBattery_fate[OF True] by (simp_all add: impactEnemy_defences)
    from Cons.IH[OF r] have c2: "list_all2 (cityFate (set es)) (citiesRef ?s1) (citiesRef s')"
      and b2: "list_all2 (batteryFate (set es)) (batteriesRef ?s1) (batteriesRef s')" by simp_all
    have "list_all2 (cityFate (insert e (set es))) (citiesRef s) (citiesRef s')"
      using c1 c2 by (rule list_all2_trans[rotated]) (rule cityFate_step)
    moreover have "list_all2 (batteryFate (insert e (set es))) (batteriesRef s) (batteriesRef s')"
      using b1 b2 by (rule list_all2_trans[rotated]) (rule batteryFate_step)
    ultimately show ?thesis by simp
  next
    case False
    with Cons.prems obtain k where r: "filterEnemies env es s = (k, s')"
      by (auto simp add: Let_def impacts_def split: prod.splits)
    from Cons.IH[OF r] have "list_all2 (cityFate (insert e (set es))) (citiesRef s) (citiesRef s')"
      and "list_all2 (batteryFate (insert e (set es))) (batteriesRef s) (batteriesRef s')"
      by (auto elim!: list_all2_mono intro: cityFate_mono batteryFate_mono)
    thus ?thesis by simp
  qed
qed

lemma updateEnemies_fate:
  "list_all2 (cityFate (set (enemiesRef s))) (citiesRef s) (citiesRef (updateEnemies env s))"
  "list_all2 (batteryFate (set (enemiesRef s))) (batteriesRef s)
     (batteriesRef (updateEnemies env s))"
proof -
  obtain kept s1 where f: "filterEnemies env (enemiesRef s) s = (kept, s1)" by fastforce
  from filterEnemies_fate[OF f]
  show "list_all2 (cityFate (set (enemiesRef s))) (citiesRef s) (citiesRef (updateEnemies env s))"
    "list_all2 (batteryFate (set (enemiesRef s))) (batteriesRef s)
       (batteriesRef (updateEnemies env s))"
    by (simp_all add: updateEnemies_def f)
qed

lemma update_defences:
  "citiesRef (update env time s) = citiesRef (updateEnemies env (spawnPhase env s)) \<or>
   citiesRef (update env time s) = citiesRef s"
  "batteriesRef (update env time s) = batteriesRef (updateEnemies env (spawnPhase env s)) \<or>
   batteriesRef (update env time s) = batteriesRef s"
  by (auto simp add: update_def updateMissiles_frame updateExplosions_frame split: option.splits)

lemma update_fate:
  "list_all2 (cityFate (set (enemiesRef (spawnPhase env s)))) (citiesRef s)
     (citiesRef (update env time s))"
  "list_all2 (batteryFate (set (enemiesRef (spawnPhase env s)))) (batteriesRef s)
     (batteriesRef (update env time s))"
  using updateEnemies_fate[of "spawnPhase env s" env] update_defences[of env time s]
  by (auto simp add: cityFate_refl batteryFate_refl)

lemma batteryFate_ammo: "list_all2 (batteryFate E) bs bs' \<Longrightarrow> map Battery.ammo bs' = map Battery.ammo bs"
  by (induction rule: list_all2_induct) (auto simp add: batteryFate_def)


lemma map_update_same: "(map f bs)[i := f (bs ! i)] = map f bs"
  by (cases "i < length bs") (auto simp add: nth_list_update intro!: nth_equalityI)

lemma fireMissile_defences:
  assumes "fireMissile env tx ty s = Inr s'"
  shows "citiesRef s' = citiesRef s \<and>
         map Battery.active (batteriesRef s') = map Battery.active (batteriesRef s)"
proof -
  have "map Battery.active ((batteriesRef s)[i := (batteriesRef s ! i)\<lparr>Battery.ammo := a\<rparr>]) =
        map Battery.active (batteriesRef s)" for i a
    using map_update_same[of Battery.active "batteriesRef s" i] by (simp add: map_update)
  with assms show ?thesis
    by (auto simp add: fireMissile_def Let_def drew_def split: if_splits option.splits)
qed

lemma handleResize_defences:
  "map City.active (citiesRef (handleResize env s)) = map City.active (citiesRef s)"
  "map Battery.active (batteriesRef (handleResize env s)) = map Battery.active (batteriesRef s)"
proof -
  have "map City.active (map (\<lambda>(i, city). city\<lparr>x := f i, y := g\<rparr>) (enumerate 0 cs)) =
        map City.active cs" for f g and cs :: "City list"
  proof -
    have "map City.active (map (\<lambda>(i, city). city\<lparr>x := f i, y := g\<rparr>) (enumerate 0 cs)) =
          map (\<lambda>p. City.active (snd p)) (enumerate 0 cs)"
      by (simp add: case_prod_unfold comp_def)
    also have "\<dots> = map City.active (map snd (enumerate 0 cs))"
      by (simp only: map_map comp_def)
    also have "\<dots> = map City.active cs"
      by (simp only: map_snd_enumerate)
    finally show ?thesis .
  qed

  thus "map City.active (citiesRef (handleResize env s)) = map City.active (citiesRef s)"
    by (simp add: handleResize_def Let_def split: option.splits)
  have "length bs = 3 \<Longrightarrow>
        map Battery.active bs =
          [Battery.active (bs ! 0), Battery.active (bs ! 1), Battery.active (bs ! 2)]"
    for bs :: "Battery list"
    by (auto simp add: numeral_3_eq_3 length_Suc_conv)
  thus "map Battery.active (batteriesRef (handleResize env s)) = map Battery.active (batteriesRef s)"
    by (simp add: handleResize_def Let_def split: option.splits)
qed

lemma spawnPhase_strike_state: "spawnPhase env0 strike_state = drew strike_state"
  by (simp add: spawnPhase_def Let_def Math_random_def env0_def frac_half strike_state_def
        playing0_simps)

lemma strike_state_simps:
  "gameStateRef strike_state = PLAYING" "isPausedRef strike_state = False"
  "enemiesRef strike_state = [incoming]" "explosionsRef strike_state = []"
  "missilesRef strike_state = []" "score strike_state = 0" "scoreRef strike_state = 0"
  "batteriesRef strike_state = batteriesRef playing0" "citiesRef strike_state = citiesRef playing0"
  "gameState strike_state = PLAYING"
  by (simp_all add: strike_state_def playing0_simps)

lemma strike_batteries:
  "map Battery.active (batteriesRef (update env0 0 strike_state)) = [True, False, True]"
proof -
  have c: "canvas env0 = Some (800, 600)" by (simp add: env0_def)
  have "batteriesRef (update env0 0 strike_state) =
        batteriesRef (updateEnemies env0 (drew strike_state))"
    by (simp add: update_playing[OF _ _ c] strike_state_simps updateMissiles_frame
          updateExplosions_frame spawnPhase_strike_state)
  also have "\<dots> = hitBattery (Fin 400) (batteriesRef playing0)"
    by (simp add: updateEnemies_def strike_state_simps Let_def advance_incoming jsnum_ops
          impactEnemy_defences)
       (simp add: incoming_def)
  finally show ?thesis by (simp add: playing0_batteries jsnum_ops)
qed

text \<open>
  C10. Over a whole tick every city and every battery is either exactly as before or
  differs only in that its active flag is now false, and then an enemy projectile of that
  tick has impacted (progress 1 or more after its advance) with the \<open>x\<close> of its target
  less than 5 away from it; the ammunition of every battery is as before. The terminal
  effect of any interceptor (normal, rare, lightning, the sub-bombs and the final burst of
  a drone) and the processing of any explosion leave the cities and batteries untouched,
  and so do the missile, explosion and particle phases, the spawner and the win and loss
  check. Outside the tick, a fire request, a resize, a render and the synchronising effects
  change no active flag either.
\<close>

theorem defences_fall_only_to_impacts:
  "list_all2 (cityFate (set (enemiesRef (spawnPhase env s)))) (citiesRef s)
     (citiesRef (update env time s)) \<and>
   list_all2 (batteryFate (set (enemiesRef (spawnPhase env s)))) (batteriesRef s)
     (batteriesRef (update env time s)) \<and>
   map Battery.ammo (batteriesRef (update env time s)) = map Battery.ammo (batteriesRef s) \<and>
   (\<forall>m keep s'. missileCallback env w h m s = (keep, s') \<longrightarrow>
      citiesRef s' = citiesRef s \<and> batteriesRef s' = batteriesRef s) \<and>
   (\<forall>ex keep s'. explosionCallback env time ex s = (keep, s') \<longrightarrow>
      citiesRef s' = citiesRef s \<and> batteriesRef s' = batteriesRef s) \<and>
   citiesRef (updateMissiles env w h s) = citiesRef s \<and>
   batteriesRef (updateMissiles env w h s) = batteriesRef s \<and>
   citiesRef (updateExplosions env time s) = citiesRef s \<and>
   batteriesRef (updateExplosions env time s) = batteriesRef s \<and>
   citiesRef (updateParticles s) = citiesRef s \<and>
   batteriesRef (updateParticles s) = batteriesRef s \<and>
   citiesRef (checkWinLoss s) = citiesRef s \<and> batteriesRef (checkWinLoss s) = batteriesRef s \<and>
   citiesRef (spawnPhase env s) = citiesRef s \<and> batteriesRef (spawnPhase env s) = batteriesRef s \<and>
   (\<forall>tx ty s'. fireMissile env tx ty s = Inr s' \<longrightarrow>
      citiesRef s' = citiesRef s \<and>
      map Battery.active (batteriesRef s') = map Battery.active (batteriesRef s)) \<and>
   map City.active (citiesRef (handleResize env s)) = map City.active (citiesRef s) \<and>
   map Battery.active (batteriesRef (handleResize env s)) =
     map Battery.active (batteriesRef s) \<and>
   citiesRef (syncRefs s) = citiesRef s \<and> batteriesRef (syncRefs s) = batteriesRef s \<and>
   citiesRef (render s) = citiesRef s \<and> batteriesRef (render s) = batteriesRef s"
proof -
  have m: "citiesRef s' = citiesRef s \<and> batteriesRef s' = batteriesRef s"
    if "missileCallback env w h m s = (keep, s')" for m keep s'
    using missileCallback_frame[OF that] by simp
  have e: "citiesRef s' = citiesRef s \<and> batteriesRef s' = batteriesRef s"
    if "explosionCallback env time ex s = (keep, s')" for ex keep s'
    using explosionCallback_frame[OF that] by simp
  have a: "map Battery.ammo (batteriesRef (update env time s)) = map Battery.ammo (batteriesRef s)"
    using update_fate(2) by (rule batteryFate_ammo)
  have f: "citiesRef s' = citiesRef s \<and>
           map Battery.active (batteriesRef s') = map Battery.active (batteriesRef s)"
    if "fireMissile env tx ty s = Inr s'" for tx ty s'
    using that by (rule fireMissile_defences)
  from m e a f show ?thesis
    by (simp add: update_fate updateMissiles_frame updateExplosions_frame
          handleResize_defences syncRefs_def)
qed

lemma fire_strike_state:
  "\<exists>s'. fireMissile env0 (Fin 100) (Fin 100) strike_state = Inr s'"
  by (simp add: fireMissile_def strike_state_simps playing0_batteries Let_def jsnum_ops)

theorem defences_fall_only_to_impacts_witness:
  "list_all2 (batteryFate {incoming}) (batteriesRef strike_state)
     (batteriesRef (update env0 0 strike_state)) \<and>
   list_all2 (cityFate {incoming}) (citiesRef strike_state)
     (citiesRef (update env0 0 strike_state)) \<and>
   map Battery.ammo (batteriesRef (update env0 0 strike_state)) = [20, 40, 20] \<and>
   map Battery.active (batteriesRef (update env0 0 strike_state)) = [True, False, True] \<and>
   (\<exists>keep s'. missileCallback env0 800 600 drone0 strike_state = (keep, s') \<and>
      citiesRef s' = citiesRef strike_state \<and> batteriesRef s' = batteriesRef strike_state) \<and>
   (\<exists>keep s'. explosionCallback env0 0 rare0 strike_state = (keep, s') \<and>
      citiesRef s' = citiesRef strike_state \<and> batteriesRef s' = batteriesRef strike_state) \<and>
   (\<exists>s'. fireMissile env0 (Fin 100) (Fin 100) strike_state = Inr s' \<and>
      citiesRef s' = citiesRef strike_state \<and>
      map Battery.active (batteriesRef s') = map Battery.active (batteriesRef strike_state))"
proof -
  note p = defences_fall_only_to_impacts[of env0 strike_state 0 800 600]
  have en: "set (enemiesRef (spawnPhase env0 strike_state)) = {incoming}"
    unfolding spawnPhase_strike_state by (simp add: strike_state_def)
  have am: "map Battery.ammo (batteriesRef strike_state) = [20, 40, 20]"
    by (simp add: strike_state_def playing0_batteries)
  obtain k1 s1 where m: "missileCallback env0 800 600 drone0 strike_state = (k1, s1)" by fastforce
  with p have m': "citiesRef s1 = citiesRef strike_state \<and> batteriesRef s1 = batteriesRef strike_state"
    by blast
  obtain k2 s2 where e: "explosionCallback env0 0 rare0 strike_state = (k2, s2)" by fastforce
  with p have e': "citiesRef s2 = citiesRef strike_state \<and> batteriesRef s2 = batteriesRef strike_state"
    by blast
  from p en am have "list_all2 (batteryFate {incoming}) (batteriesRef strike_state)
     (batteriesRef (update env0 0 strike_state)) \<and>
   list_all2 (cityFate {incoming}) (citiesRef strike_state)
     (citiesRef (update env0 0 strike_state)) \<and>
   map Battery.ammo (batteriesRef (update env0 0 strike_state)) = [20, 40, 20]"
    by simp
  moreover from fire_strike_state obtain s3
    where f: "fireMissile env0 (Fin 100) (Fin 100) strike_state = Inr s3" ..
  moreover from p f have "citiesRef s3 = citiesRef strike_state \<and>
      map Battery.active (batteriesRef s3) = map Battery.active (batteriesRef strike_state)"
    by blast
  ultimately show ?thesis using m m' e e' strike_batteries by blast
qed

section \<open>The stores of a reachable state\<close>

text \<open>
  Two invariants of the transition system. The battery array always has its three members, at
  finite positions: a fire request, a tick and a resize rewrite members in place and never
  add or drop one. Every explosion in the store has a maximal radius that is finite and not
  negative: each site that creates one gives it a literal radius, a fraction of
  \<^const>\<open>EXPLOSION_RADIUS\<close>, or one and a half times the larger side of the canvas, and the
  explosion phase rewrites life and radius only.
\<close>

lemma batteryFate_shape:
  "list_all2 (batteryFate E) bs bs' \<Longrightarrow> length bs' = length bs \<and> map x bs' = map x bs"
  by (induction rule: list_all2_induct) (auto simp add: batteryFate_def)

lemma fireMissile_batteries:
  assumes "fireMissile env tx ty s = Inr s'"
  shows "length (batteriesRef s') = length (batteriesRef s) \<and>
         map x (batteriesRef s') = map x (batteriesRef s)"
proof -
  have "map x ((batteriesRef s)[i := (batteriesRef s ! i)\<lparr>Battery.ammo := a\<rparr>]) =
        map x (batteriesRef s)" for i a
    using map_update_same[of x "batteriesRef s" i] by (simp add: map_update)
  with assms show ?thesis
    by (auto simp add: fireMissile_def Let_def drew_def split: if_splits option.splits)
qed

lemma reachable_batteries:
  "reachable s \<Longrightarrow>
   length (batteriesRef s) = 3 \<and> list_all isFinite (map x (batteriesRef s))"
proof (induction rule: reachable.induct)
  case (mounted env)
  show ?case by (simp add: initGame_def Let_def)
next
  case (started s env)
  show ?case by (simp add: startGame_def initGame_def Let_def)
next
  case (synced s)
  then show ?case by (simp add: syncRefs_def)
next
  case (frame s env time)
  from update_fate(2)[of env s time] frame.IH batteryFate_shape show ?case by metis
next
  case (fired s env tx ty s')
  from fireMissile_batteries[OF fired.hyps(3)] fired.IH show ?case by simp
next
  case (paused s)
  then show ?case by simp
next
  case (resized s env)
  then show ?case by (simp add: handleResize_def Let_def split: option.splits)
qed

lemma sound_impactEnemy:
  "list_all sound_radius (explosionsRef s) \<Longrightarrow>
   list_all sound_radius (explosionsRef (impactEnemy env e s))"
  by (simp add: impactEnemy_def Let_def sound_radius_def)

lemma sound_filterEnemies:
  "filterEnemies env es s = (kept, s') \<Longrightarrow> list_all sound_radius (explosionsRef s) \<Longrightarrow>
   list_all sound_radius (explosionsRef s')"
proof (induction es arbitrary: s kept s')
  case Nil
  then show ?case by simp
next
  case (Cons e es)
  show ?case
  proof (cases "Fin 1 \<le> EnemyRocket.progress (advanceEnemy e)")
    case True
    with Cons.prems have "filterEnemies env es (impactEnemy env (advanceEnemy e) s) = (kept, s')"
      by (simp add: Let_def)
    from Cons.IH[OF this sound_impactEnemy[OF Cons.prems(2)]] show ?thesis .
  next
    case False
    with Cons.prems obtain k where "filterEnemies env es s = (k, s')"
      by (auto simp add: Let_def split: prod.splits)
    from Cons.IH[OF this Cons.prems(2)] show ?thesis .
  qed
qed

lemma sound_missile_effects:
  assumes "list_all sound_radius (explosionsRef s)"
  shows "list_all sound_radius (explosionsRef (droneSubBomb env m s))"
    and "list_all sound_radius (explosionsRef (burstExplosion env m i s))"
    and "list_all sound_radius (explosionsRef (normalExplosion env m s))"
    and "list_all sound_radius (explosionsRef (rareExplosion env w h m s))"
    and "list_all sound_radius (explosionsRef (lightningStrike env e s))"
  using assms
  by (simp_all add: droneSubBomb_def burstExplosion_def finalExplosion_def normalExplosion_def
        rareExplosion_def lightningStrike_def Let_def pushExplosion_def drew_def
        sound_radius_def EXPLOSION_RADIUS_def jsnum_ops)

lemma sound_droneFinalBurst:
  "list_all sound_radius (explosionsRef s) \<Longrightarrow>
   list_all sound_radius (explosionsRef (droneFinalBurst env m ns s))"
  by (induction ns arbitrary: s) (simp_all add: sound_missile_effects)

lemma sound_lightningChain:
  "list_all sound_radius (explosionsRef s) \<Longrightarrow>
   list_all sound_radius (explosionsRef (lightningChain env es n s))"
  by (induction es arbitrary: n s) (simp_all add: sound_missile_effects)

lemma sound_missileCallback:
  "missileCallback env w h m s = (keep, s') \<Longrightarrow> list_all sound_radius (explosionsRef s) \<Longrightarrow>
   list_all sound_radius (explosionsRef s')"
  by (auto simp add: missileCallback_def Let_def sound_missile_effects sound_droneFinalBurst
        sound_lightningChain split: if_splits)

lemma sound_filterMissiles:
  "filterMissiles env w h ms s = (kept, s') \<Longrightarrow> list_all sound_radius (explosionsRef s) \<Longrightarrow>
   list_all sound_radius (explosionsRef s')"
proof (induction ms arbitrary: s kept s')
  case Nil
  then show ?case by simp
next
  case (Cons m ms)
  obtain keep s1 where cb: "missileCallback env w h m s = (keep, s1)" by fastforce
  obtain k2 s2 where rest: "filterMissiles env w h ms s1 = (k2, s2)" by fastforce
  from Cons.prems(1) cb rest have eq: "s' = s2" by (simp split: option.splits)
  from Cons.IH[OF rest sound_missileCallback[OF cb Cons.prems(2)]] eq show ?case by simp
qed

lemma explosionsRef_kept [simp]:
  "explosionsRef (emitParticle env time ex s) = explosionsRef s"
  "explosionsRef (rareClear ex s) = explosionsRef s"
  by (simp_all add: emitParticle_def rareClear_def Let_def)

lemma explosionsRef_spawnParticles [simp]:
  "explosionsRef (spawnParticles env time ex n s) = explosionsRef s"
  by (induction n arbitrary: s) simp_all

lemma explosionsRef_filterHit:
  "filterHit ex es s = (kept, s') \<Longrightarrow> explosionsRef s' = explosionsRef s"
proof (induction es arbitrary: s kept s')
  case Nil
  then show ?case by simp
next
  case (Cons e es)
  let ?hit = "Math_sqrt ((x e - x ex) * (x e - x ex) + (y e - y ex) * (y e - y ex)) < radius ex"
  show ?case
  proof (cases ?hit)
    case True
    with Cons.prems have "filterHit ex es (s\<lparr>score := score s + 20\<rparr>) = (kept, s')"
      by (simp add: Let_def)
    from Cons.IH[OF this] show ?thesis by simp
  next
    case False
    with Cons.prems obtain k where r: "filterHit ex es s = (k, s')"
      by (auto simp add: Let_def split: prod.splits)
    from Cons.IH[OF r] show ?thesis .
  qed
qed

lemma sound_explosionCallback:
  assumes "explosionCallback env time ex s = (keep, s')"
  shows "explosionsRef s' = explosionsRef s"
    and "sound_radius ex \<Longrightarrow> list_all sound_radius (case keep of None \<Rightarrow> [] | Some e \<Rightarrow> [e])"
proof -
  let ?ex1 = "ex\<lparr>Explosion.life := Explosion.life ex - Fin 1 / EXPLOSION_DURATION\<rparr>"
  let ?s1 = "if Explosion.life ex = Fin 1 then spawnParticles env time ?ex1 15 s else s"
  let ?ex2 = "?ex1\<lparr>radius := explosionRadius (maxRadius ?ex1) (Explosion.life ?ex1)\<rparr>"
  let ?s2 = "rareClear ?ex2 ?s1"
  obtain kept s3 where f: "filterHit ?ex2 (enemiesRef ?s2) ?s2 = (kept, s3)" by fastforce
  have s': "s' = s3\<lparr>enemiesRef := kept\<rparr>"
    and k: "keep = (if Fin 0 < Explosion.life ?ex2 then Some ?ex2 else None)"
    using assms f by (simp_all add: explosionCallback_def Let_def)
  have "explosionsRef ?s2 = explosionsRef s" by simp
  with explosionsRef_filterHit[OF f] show "explosionsRef s' = explosionsRef s"
    by (simp add: s')
  show "sound_radius ex \<Longrightarrow> list_all sound_radius (case keep of None \<Rightarrow> [] | Some e \<Rightarrow> [e])"
    by (simp add: k sound_radius_def)
qed

lemma sound_filterExplosions:
  "filterExplosions env time exs s = (kept, s') \<Longrightarrow> list_all sound_radius exs \<Longrightarrow>
   list_all sound_radius kept"
proof (induction exs arbitrary: s kept s')
  case Nil
  then show ?case by simp
next
  case (Cons ex exs)
  obtain keep s1 where cb: "explosionCallback env time ex s = (keep, s1)" by fastforce
  obtain k2 s2 where rest: "filterExplosions env time exs s1 = (k2, s2)" by fastforce
  from Cons.prems(1) cb rest
  have eq: "kept = (case keep of None \<Rightarrow> [] | Some e \<Rightarrow> [e]) @ k2"
    by (simp split: option.splits)
  from Cons.prems(2) have a: "sound_radius ex" and b: "list_all sound_radius exs" by simp_all
  from sound_explosionCallback(2)[OF cb a] Cons.IH[OF rest b] eq show ?case by simp
qed

lemma sound_update:
  assumes "list_all sound_radius (explosionsRef s)"
  shows "list_all sound_radius (explosionsRef (update env time s))"
proof (cases "gameStateRef s = PLAYING \<and> \<not> isPausedRef s \<and> canvas env \<noteq> None")
  case False
  hence "update env time s = s" by (auto simp add: update_def split: option.splits)
  with assms show ?thesis by simp
next
  case True
  then obtain w h where c: "canvas env = Some (w, h)" by auto
  let ?s0 = "spawnPhase env s"
  obtain k1 s1 where f1: "filterEnemies env (enemiesRef ?s0) ?s0 = (k1, s1)" by fastforce
  let ?s1 = "updateEnemies env ?s0"
  obtain k2 s2 where f2: "filterMissiles env w h (missilesRef ?s1) ?s1 = (k2, s2)" by fastforce
  let ?s2 = "updateMissiles env w h ?s1"
  obtain k3 s3 where f3: "filterExplosions env time (explosionsRef ?s2) ?s2 = (k3, s3)"
    by fastforce
  have "list_all sound_radius (explosionsRef ?s0)" using assms by simp
  hence "list_all sound_radius (explosionsRef s1)" using f1 by (rule sound_filterEnemies[rotated])
  hence a1: "list_all sound_radius (explosionsRef ?s1)" by (simp add: updateEnemies_def f1)
  hence "list_all sound_radius (explosionsRef s2)" using f2 by (rule sound_filterMissiles[rotated])
  hence a2: "list_all sound_radius (explosionsRef ?s2)" by (simp add: updateMissiles_def f2)
  hence "list_all sound_radius k3" using f3 by (rule sound_filterExplosions[rotated])
  hence "list_all sound_radius (explosionsRef (updateExplosions env time ?s2))"
    by (simp add: updateExplosions_def f3)
  thus ?thesis using True c by (simp add: update_playing)
qed

lemma fireMissile_explosions:
  "fireMissile env tx ty s = Inr s' \<Longrightarrow> explosionsRef s' = explosionsRef s"
  by (auto simp add: fireMissile_def Let_def drew_def split: if_splits option.splits)

lemma reachable_explosions: "reachable s \<Longrightarrow> list_all sound_radius (explosionsRef s)"
proof (induction rule: reachable.induct)
  case (frame s env time)
  then show ?case by (simp add: sound_update)
next
  case (fired s env tx ty s')
  then show ?case by (simp add: fireMissile_explosions)
qed (simp_all add: initGame_def startGame_def syncRefs_def handleResize_def Let_def
      split: option.splits)

section \<open>The win and loss check\<close>

lemma mirrors_simple [simp]:
  "mirrors (drew s) = mirrors s"
  "mirrors (pushExplosion ex s) = mirrors s"
  "mirrors (spawnEnemy env s) = mirrors s"
  "mirrors (spawnPhase env s) = mirrors s"
  "mirrors (impactEnemy env e s) = mirrors s"
  "mirrors (droneSubBomb env m s) = mirrors s"
  "mirrors (burstExplosion env m i s) = mirrors s"
  "mirrors (lightningStrike env e s) = mirrors s"
  "mirrors (normalExplosion env m s) = mirrors s"
  "mirrors (rareExplosion env w h m s) = mirrors s"
  "mirrors (emitParticle env time ex s) = mirrors s"
  "mirrors (rareClear ex s) = mirrors s"
  "mirrors (updateParticles s) = mirrors s"
  "mirrors (checkWinLoss s) = mirrors s"
  by (simp_all add: mirrors_def drew_def pushExplosion_def spawnEnemy_def spawnPhase_def
        impactEnemy_def droneSubBomb_def burstExplosion_def lightningStrike_def
        normalExplosion_def rareExplosion_def emitParticle_def rareClear_def
        updateParticles_def checkWinLoss_def Let_def)

lemma mirrors_loops [simp]:
  "mirrors (droneFinalBurst env m ns s) = mirrors s"
  "mirrors (lightningChain env es n s) = mirrors s"
  "mirrors (spawnParticles env time ex k s) = mirrors s"
    apply (induction ns arbitrary: s; simp)
   apply (induction es arbitrary: n s; simp)
  apply (induction k arbitrary: s; simp)
  done

lemma mirrors_filterEnemies:
  "filterEnemies env es s = (kept, s') \<Longrightarrow> mirrors s' = mirrors s"
proof (induction es arbitrary: s kept s')
  case Nil
  then show ?case by simp
next
  case (Cons e es)
  show ?case
  proof (cases "Fin 1 \<le> EnemyRocket.progress (advanceEnemy e)")
    case True
    with Cons.prems have "filterEnemies env es (impactEnemy env (advanceEnemy e) s) = (kept, s')"
      by (simp add: Let_def)
    from Cons.IH[OF this] show ?thesis by simp
  next
    case False
    with Cons.prems obtain k where "filterEnemies env es s = (k, s')"
      by (auto simp add: Let_def split: prod.splits)
    from Cons.IH[OF this] show ?thesis .
  qed
qed

lemma mirrors_missileCallback:
  "missileCallback env w h m s = (keep, s') \<Longrightarrow> mirrors s' = mirrors s"
  by (auto simp add: missileCallback_def Let_def split: if_splits)

lemma mirrors_filterMissiles:
  "filterMissiles env w h ms s = (kept, s') \<Longrightarrow> mirrors s' = mirrors s"
proof (induction ms arbitrary: s kept s')
  case Nil
  then show ?case by simp
next
  case (Cons m ms)
  obtain keep s1 where cb: "missileCallback env w h m s = (keep, s1)" by fastforce
  obtain k2 s2 where rest: "filterMissiles env w h ms s1 = (k2, s2)" by fastforce
  from Cons.prems cb rest have eq: "s' = s2" by (simp split: option.splits)
  from mirrors_missileCallback[OF cb] Cons.IH[OF rest] eq show ?case by simp
qed

lemma mirrors_score [simp]: "mirrors (s\<lparr>score := a\<rparr>) = mirrors s"
  by (simp add: mirrors_def)

lemma mirrors_filterHit:
  "filterHit ex es s = (kept, s') \<Longrightarrow> mirrors s' = mirrors s"
proof (induction es arbitrary: s kept s')
  case Nil
  then show ?case by simp
next
  case (Cons e es)
  let ?hit = "Math_sqrt ((x e - x ex) * (x e - x ex) + (y e - y ex) * (y e - y ex)) < radius ex"
  show ?case
  proof (cases ?hit)
    case True
    with Cons.prems have "filterHit ex es (s\<lparr>score := score s + 20\<rparr>) = (kept, s')"
      by (simp add: Let_def)
    from Cons.IH[OF this] show ?thesis by simp
  next
    case False
    with Cons.prems obtain k where r: "filterHit ex es s = (k, s')"
      by (auto simp add: Let_def split: prod.splits)
    from Cons.IH[OF r] show ?thesis .
  qed
qed

lemma mirrors_explosionCallback:
  assumes "explosionCallback env time ex s = (keep, s')"
  shows "mirrors s' = mirrors s"
proof -
  let ?ex1 = "ex\<lparr>Explosion.life := Explosion.life ex - Fin 1 / EXPLOSION_DURATION\<rparr>"
  let ?s1 = "if Explosion.life ex = Fin 1 then spawnParticles env time ?ex1 15 s else s"
  let ?ex2 = "?ex1\<lparr>radius := explosionRadius (maxRadius ?ex1) (Explosion.life ?ex1)\<rparr>"
  let ?s2 = "rareClear ?ex2 ?s1"
  obtain kept s3 where f: "filterHit ?ex2 (enemiesRef ?s2) ?s2 = (kept, s3)" by fastforce
  have s': "s' = s3\<lparr>enemiesRef := kept\<rparr>"
    using assms f by (simp add: explosionCallback_def Let_def)
  have "mirrors ?s2 = mirrors s" by simp
  with mirrors_filterHit[OF f] show ?thesis by (simp add: s' mirrors_def)
qed

lemma mirrors_filterExplosions:
  "filterExplosions env time exs s = (kept, s') \<Longrightarrow> mirrors s' = mirrors s"
proof (induction exs arbitrary: s kept s')
  case Nil
  then show ?case by simp
next
  case (Cons ex exs)
  obtain keep s1 where cb: "explosionCallback env time ex s = (keep, s1)" by fastforce
  obtain k2 s2 where rest: "filterExplosions env time exs s1 = (k2, s2)" by fastforce
  from Cons.prems cb rest have eq: "s' = s2" by (simp split: option.splits)
  from mirrors_explosionCallback[OF cb] Cons.IH[OF rest] eq show ?case by simp
qed

lemma mirrors_field_update [simp]:
  "mirrors (s\<lparr>enemiesRef := a\<rparr>) = mirrors s"
  "mirrors (s\<lparr>missilesRef := b\<rparr>) = mirrors s"
  "mirrors (s\<lparr>explosionsRef := c\<rparr>) = mirrors s"
  by (simp_all add: mirrors_def)

lemma mirrors_phases [simp]:
  "mirrors (updateEnemies env s) = mirrors s"
  "mirrors (updateMissiles env w h s) = mirrors s"
  "mirrors (updateExplosions env time s) = mirrors s"
proof -
  obtain k1 s1 where f1: "filterEnemies env (enemiesRef s) s = (k1, s1)" by fastforce
  from mirrors_filterEnemies[OF f1] show "mirrors (updateEnemies env s) = mirrors s"
    by (simp add: updateEnemies_def f1)
  obtain k2 s2 where f2: "filterMissiles env w h (missilesRef s) s = (k2, s2)" by fastforce
  from mirrors_filterMissiles[OF f2] show "mirrors (updateMissiles env w h s) = mirrors s"
    by (simp add: updateMissiles_def f2)
  obtain k3 s3 where f3: "filterExplosions env time (explosionsRef s) s = (k3, s3)" by fastforce
  from mirrors_filterExplosions[OF f3] show "mirrors (updateExplosions env time s) = mirrors s"
    by (simp add: updateExplosions_def f3)
qed

lemma mirrors_update: "mirrors (update env time s) = mirrors s"
  by (simp add: update_def split: option.splits)

lemma update_gameState:
  assumes "gameStateRef s = PLAYING" "\<not> isPausedRef s" "canvas env = Some (w, h)"
  shows "gameState (update env time s) =
           (if WIN_SCORE \<le> scoreRef s then WIN
            else if list_all (\<lambda>b. \<not> Battery.active b)
                      (batteriesRef (updateEnemies env (spawnPhase env s)))
            then GAMEOVER else gameState s)"
    and "scoreRef (update env time s) = scoreRef s"
    and "score (update env time s) =
           score (updateExplosions env time
                    (updateMissiles env w h (updateEnemies env (spawnPhase env s))))"
    and "batteriesRef (update env time s) = batteriesRef (updateEnemies env (spawnPhase env s))"
  by (simp_all add: update_playing[OF assms] checkWinLoss_def updateExplosions_frame
        updateMissiles_frame)

lemma last_stand_simps:
  "gameStateRef last_stand = PLAYING" "isPausedRef last_stand = False"
  "gameState last_stand = PLAYING"
  "enemiesRef last_stand = [incoming, falling2]" "explosionsRef last_stand = [flak]"
  "missilesRef last_stand = []" "score last_stand = 980" "scoreRef last_stand = 980"
  "batteriesRef last_stand =
     [\<lparr>ident = ''left'', x = Fin 40, y = Fin 550, Battery.active = False,
       Battery.ammo = 20, maxAmmo = 20\<rparr>,
      \<lparr>ident = ''center'', x = Fin 400, y = Fin 550, Battery.active = True,
       Battery.ammo = 40, maxAmmo = 40\<rparr>,
      \<lparr>ident = ''right'', x = Fin 760, y = Fin 550, Battery.active = False,
       Battery.ammo = 20, maxAmmo = 20\<rparr>]"
  by (simp_all add: last_stand_def playing0_simps playing0_batteries)

lemma spawnPhase_last_stand: "spawnPhase env0 last_stand = drew last_stand"
  by (simp add: spawnPhase_def Let_def Math_random_def env0_def frac_half last_stand_simps)

lemma advance_falling2:
  "advanceEnemy falling2 =
     falling2\<lparr>EnemyRocket.progress := Fin (2 / 10 + 8 / 5700), x := Fin 200, y := Fin (474 / 5)\<rparr>"
  by (simp add: advanceEnemy_def falling2_def Let_def jsnum_ops sqrt_324900)

lemma enemies_last_stand:
  "updateEnemies env0 (drew last_stand) =
     (impactEnemy env0 (advanceEnemy incoming) (drew last_stand))
       \<lparr>enemiesRef := [advanceEnemy falling2]\<rparr>"
  by (simp add: updateEnemies_def last_stand_simps Let_def advance_incoming advance_falling2
        jsnum_ops)


lemma flak_catches:
  assumes "enemiesRef t = [advanceEnemy falling2]"
    and "explosionCallback env0 0 flak t = (keep, t')"
  shows "enemiesRef t' = []"
proof -
  have l: "Explosion.life flak - Fin 1 / EXPLOSION_DURATION = Fin (11 / 15)"
    by (simp add: flak_def EXPLOSION_DURATION_def jsnum_ops)
  have r: "explosionRadius (Fin 40) (Fin (11 / 15)) = Fin (64 / 3)"
    by (simp add: explosionRadius_def jsnum_ops)
  have f: "Explosion.life flak \<noteq> Fin 1" "isRare flak = None" "maxRadius flak = Fin 40"
    "x flak = Fin 200" "y flak = Fin (474 / 5)"
    by (simp_all add: flak_def)
  have hit: "filterHit (flak\<lparr>Explosion.life := Fin (11 / 15), radius := Fin (64 / 3)\<rparr>)
               [advanceEnemy falling2] t = ([], t\<lparr>score := score t + 20\<rparr>)"
    by (simp add: advance_falling2 f Let_def jsnum_ops)
  from assms(2) show ?thesis
    by (auto simp add: explosionCallback_def Let_def l r f rareClear_def assms(1) hit
          simp del: filterHit.simps)
qed

lemma score_last_stand: "score (update env0 0 last_stand) = 1000"
proof -
  have c: "canvas env0 = Some (800, 600)" by (simp add: env0_def)
  let ?s2 = "updateEnemies env0 (drew last_stand)"
  have m: "missilesRef ?s2 = []" by (simp add: updateEnemies_more last_stand_simps)
  have en: "enemiesRef ?s2 = [advanceEnemy falling2]" by (simp add: enemies_last_stand)
  have ex: "\<exists>rest. explosionsRef ?s2 = flak # rest"
    by (simp add: enemies_last_stand impactEnemy_def Let_def last_stand_simps)
  then obtain rest where ex': "explosionsRef ?s2 = flak # rest" ..
  have sc: "score ?s2 = 980" by (simp add: last_stand_simps)
  obtain k1 t1 where cb: "explosionCallback env0 0 flak ?s2 = (k1, t1)" by fastforce
  obtain k2 t2 where fr: "filterExplosions env0 0 rest t1 = (k2, t2)" by fastforce
  have e1: "enemiesRef t1 = []" using en cb by (rule flak_catches)
  have e2: "enemiesRef t2 = []" using filterExplosions_frame[OF fr] e1 by simp
  have "updateExplosions env0 0 ?s2 =
          t2\<lparr>explosionsRef := (case k1 of None \<Rightarrow> k2 | Some e \<Rightarrow> e # k2)\<rparr>"
    by (simp add: updateExplosions_def ex' cb fr)
  hence e3: "enemiesRef (updateExplosions env0 0 ?s2) = []" using e2 by simp
  have "list_all (\<lambda>ex. isRare ex \<noteq> Some True) (explosionsRef ?s2)"
    by (simp add: enemies_last_stand impactEnemy_def Let_def last_stand_simps flak_def)
  hence "bounty (updateExplosions env0 0 ?s2) = bounty ?s2" by (rule updateExplosions_frame)
  with e3 en sc have "score (updateExplosions env0 0 ?s2) = 1000" by (simp add: bounty_def)
  thus ?thesis
    by (simp add: update_gameState(3)[OF _ _ c] last_stand_simps spawnPhase_last_stand
          updateMissiles_none[OF m])
qed

lemma batteries_last_stand:
  "map Battery.active (batteriesRef (update env0 0 last_stand)) = [False, False, False]"
  "list_all (\<lambda>b. \<not> Battery.active b) (batteriesRef (update env0 0 last_stand))"
proof -
  have c: "canvas env0 = Some (800, 600)" by (simp add: env0_def)
  have "batteriesRef (update env0 0 last_stand) =
        hitBattery (Fin 400) (batteriesRef last_stand)"
    by (simp add: update_gameState(4)[OF _ _ c] last_stand_simps spawnPhase_last_stand
          enemies_last_stand impactEnemy_defences)
       (simp add: incoming_def)
  thus "map Battery.active (batteriesRef (update env0 0 last_stand)) = [False, False, False]"
    "list_all (\<lambda>b. \<not> Battery.active b) (batteriesRef (update env0 0 last_stand))"
    by (simp_all add: last_stand_simps jsnum_ops)
qed

lemma batteryFate_inactive:
  "list_all2 (batteryFate E) bs bs' \<Longrightarrow> list_all (\<lambda>b. \<not> Battery.active b) bs \<Longrightarrow>
   list_all (\<lambda>b. \<not> Battery.active b) bs'"
  by (induction rule: list_all2_induct) (auto simp add: batteryFate_def)

lemma update_lost:
  assumes "gameStateRef s = PLAYING" "\<not> isPausedRef s" "canvas env = Some (w, h)"
    and "scoreRef s < WIN_SCORE" "list_all (\<lambda>b. \<not> Battery.active b) (batteriesRef s)"
  shows "gameState (update env time s) = GAMEOVER"
proof -
  have "list_all2 (batteryFate (set (enemiesRef (spawnPhase env s)))) (batteriesRef s)
          (batteriesRef (updateEnemies env (spawnPhase env s)))"
    using updateEnemies_fate(2)[of "spawnPhase env s" env] by simp
  hence "list_all (\<lambda>b. \<not> Battery.active b) (batteriesRef (updateEnemies env (spawnPhase env s)))"
    using assms(5) by (rule batteryFate_inactive)
  thus ?thesis using assms(4) by (simp add: update_gameState(1)[OF assms(1-3)])
qed

text \<open>
  C1. The win check does come before the defeat check, but it reads the mirror
  \<open>scoreRef\<close>, and no tick writes a mirror: the points awarded during a tick are not
  seen by the check of that tick. In the sample session at 980 points, the tick in which
  the last battery falls and a kill takes the score to 1000 ends in GAMEOVER, not in WIN,
  and the session stays in GAMEOVER whether or not the mirrors are synchronised before the
  next frame.
\<close>

theorem win_check_misses_tick_awards:
  "mirrors (update env time s) = mirrors s \<and>
   gameState last_stand = PLAYING \<and> score last_stand = 980 \<and> scoreRef last_stand = 980 \<and>
   score (update env0 0 last_stand) = 1000 \<and>
   map Battery.active (batteriesRef (update env0 0 last_stand)) = [False, False, False] \<and>
   gameState (update env0 0 last_stand) = GAMEOVER \<and>
   gameState (update env0 0 (syncRefs (update env0 0 last_stand))) = GAMEOVER \<and>
   gameState (update env0 0 (update env0 0 last_stand)) = GAMEOVER"
proof -
  let ?s' = "update env0 0 last_stand"
  have c: "canvas env0 = Some (800, 600)" by (simp add: env0_def)
  have p: "gameStateRef last_stand = PLAYING" "\<not> isPausedRef last_stand"
    by (simp_all add: last_stand_simps)
  have b: "batteriesRef (updateEnemies env0 (spawnPhase env0 last_stand)) = batteriesRef ?s'"
    by (simp add: update_gameState(4)[OF p c])
  have g: "gameState ?s' = GAMEOVER"
    using batteries_last_stand(2)
    by (simp add: update_gameState(1)[OF p c] b last_stand_simps WIN_SCORE_def)
  hence "gameStateRef (syncRefs ?s') = GAMEOVER" by (simp add: syncRefs_def)
  hence "update env0 0 (syncRefs ?s') = syncRefs ?s'" by (simp add: update_def)
  hence g2: "gameState (update env0 0 (syncRefs ?s')) = GAMEOVER"
    using g by (simp add: syncRefs_def)
  have "mirrors ?s' = mirrors last_stand" by (rule mirrors_update)
  hence m: "gameStateRef ?s' = PLAYING" "\<not> isPausedRef ?s'" "scoreRef ?s' < WIN_SCORE"
    by (simp_all add: mirrors_def last_stand_simps WIN_SCORE_def)
  have g3: "gameState (update env0 0 ?s') = GAMEOVER"
    using m(1,2) c m(3) batteries_last_stand(2) by (rule update_lost)
  from g g2 g3 score_last_stand batteries_last_stand(1) mirrors_update show ?thesis
    by (simp add: last_stand_simps)
qed

section \<open>The stores after a tick\<close>

text \<open>
  What a tick that runs leaves in each store, in terms of the store before it: the cities
  and batteries are hit by the impacting projectiles in order, the enemy projectiles kept
  are among the advanced ones that did not impact, the interceptors kept are those the
  callback of their filter keeps, and the explosions kept are the aged ones with life left.
\<close>

lemma hitCity_x [simp]: "map x (hitCity tx cs) = map x cs"
  by (induction cs) simp_all

lemma hitBattery_x [simp]: "map x (hitBattery tx bs) = map x bs"
  by (induction bs) simp_all

lemma firstNear_nth:
  "i < length xs \<Longrightarrow>
   firstNear tx xs i = (\<bar>xs ! i - tx\<bar> < Fin 5 \<and> (\<forall>j<i. \<not> \<bar>xs ! j - tx\<bar> < Fin 5))"
  by (auto simp add: firstNear_def list_all_length)

lemma hitCity_firstNear:
  "i < length cs \<Longrightarrow>
   hitCity tx cs ! i =
     (if firstNear tx (map x cs) i then (cs ! i)\<lparr>City.active := False\<rparr> else cs ! i)"
  by (simp add: hitCity_nth firstNear_nth)

lemma hitBattery_firstNear:
  "i < length bs \<Longrightarrow>
   hitBattery tx bs ! i =
     (if firstNear tx (map x bs) i then (bs ! i)\<lparr>Battery.active := False\<rparr> else bs ! i)"
  by (simp add: hitBattery_nth firstNear_nth)

lemma fold_hitCity_shape [simp]:
  "length (fold (\<lambda>e. hitCity (EnemyRocket.targetX e)) es cs) = length cs"
  "map x (fold (\<lambda>e. hitCity (EnemyRocket.targetX e)) es cs) = map x cs"
  by (induction es arbitrary: cs; simp)+

lemma fold_hitBattery_shape [simp]:
  "length (fold (\<lambda>e. hitBattery (EnemyRocket.targetX e)) es bs) = length bs"
  "map x (fold (\<lambda>e. hitBattery (EnemyRocket.targetX e)) es bs) = map x bs"
  by (induction es arbitrary: bs; simp)+

lemma fold_hitCity_nth:
  "i < length cs \<Longrightarrow>
   fold (\<lambda>e. hitCity (EnemyRocket.targetX e)) es cs ! i =
     (if \<exists>e\<in>set es. firstNear (EnemyRocket.targetX e) (map x cs) i
      then (cs ! i)\<lparr>City.active := False\<rparr> else cs ! i)"
proof (induction es arbitrary: cs)
  case Nil
  then show ?case by simp
next
  case (Cons e es)
  let ?cs1 = "hitCity (EnemyRocket.targetX e) cs"
  have i: "i < length ?cs1" using Cons.prems by simp
  have "fold (\<lambda>e. hitCity (EnemyRocket.targetX e)) (e # es) cs ! i =
        fold (\<lambda>e. hitCity (EnemyRocket.targetX e)) es ?cs1 ! i" by simp
  also have "\<dots> = (if \<exists>e\<in>set es. firstNear (EnemyRocket.targetX e) (map x cs) i
                   then (?cs1 ! i)\<lparr>City.active := False\<rparr> else ?cs1 ! i)"
    using Cons.IH[OF i] by simp
  finally show ?case using Cons.prems by (simp add: hitCity_firstNear)
qed

lemma fold_hitBattery_nth:
  "i < length bs \<Longrightarrow>
   fold (\<lambda>e. hitBattery (EnemyRocket.targetX e)) es bs ! i =
     (if \<exists>e\<in>set es. firstNear (EnemyRocket.targetX e) (map x bs) i
      then (bs ! i)\<lparr>Battery.active := False\<rparr> else bs ! i)"
proof (induction es arbitrary: bs)
  case Nil
  then show ?case by simp
next
  case (Cons e es)
  let ?bs1 = "hitBattery (EnemyRocket.targetX e) bs"
  have i: "i < length ?bs1" using Cons.prems by simp
  have "fold (\<lambda>e. hitBattery (EnemyRocket.targetX e)) (e # es) bs ! i =
        fold (\<lambda>e. hitBattery (EnemyRocket.targetX e)) es ?bs1 ! i" by simp
  also have "\<dots> = (if \<exists>e\<in>set es. firstNear (EnemyRocket.targetX e) (map x bs) i
                   then (?bs1 ! i)\<lparr>Battery.active := False\<rparr> else ?bs1 ! i)"
    using Cons.IH[OF i] by simp
  finally show ?case using Cons.prems by (simp add: hitBattery_firstNear)
qed

lemma filterEnemies_defences:
  "filterEnemies env es s = (kept, s') \<Longrightarrow>
   citiesRef s' = fold (\<lambda>e. hitCity (EnemyRocket.targetX e)) (filter impacts es) (citiesRef s) \<and>
   batteriesRef s' =
     fold (\<lambda>e. hitBattery (EnemyRocket.targetX e)) (filter impacts es) (batteriesRef s)"
proof (induction es arbitrary: s kept s')
  case Nil
  then show ?case by simp
next
  case (Cons e es)
  show ?case
  proof (cases "impacts e")
    case True
    with Cons.prems have "filterEnemies env es (impactEnemy env (advanceEnemy e) s) = (kept, s')"
      by (simp add: Let_def impacts_def)
    from Cons.IH[OF this] True show ?thesis by (simp add: impactEnemy_defences)
  next
    case False
    with Cons.prems obtain k where "filterEnemies env es s = (k, s')"
      by (auto simp add: Let_def impacts_def split: prod.splits)
    from Cons.IH[OF this] False show ?thesis by simp
  qed
qed

lemma update_defences_fold:
  assumes "gameStateRef s = PLAYING" "\<not> isPausedRef s" "canvas env = Some (w, h)"
  shows "citiesRef (update env time s) =
           fold (\<lambda>e. hitCity (EnemyRocket.targetX e))
             (filter impacts (enemiesRef (spawnPhase env s))) (citiesRef s)"
    and "batteriesRef (update env time s) =
           fold (\<lambda>e. hitBattery (EnemyRocket.targetX e))
             (filter impacts (enemiesRef (spawnPhase env s))) (batteriesRef s)"
proof -
  let ?s0 = "spawnPhase env s"
  obtain kept s1 where f: "filterEnemies env (enemiesRef ?s0) ?s0 = (kept, s1)" by fastforce
  have u: "updateEnemies env ?s0 = s1\<lparr>enemiesRef := kept\<rparr>" by (simp add: updateEnemies_def f)
  from filterEnemies_defences[OF f]
  show "citiesRef (update env time s) =
           fold (\<lambda>e. hitCity (EnemyRocket.targetX e))
             (filter impacts (enemiesRef (spawnPhase env s))) (citiesRef s)"
    and "batteriesRef (update env time s) =
           fold (\<lambda>e. hitBattery (EnemyRocket.targetX e))
             (filter impacts (enemiesRef (spawnPhase env s))) (batteriesRef s)"
    by (simp_all add: update_playing[OF assms] updateMissiles_frame updateExplosions_frame u)
qed

lemma lightningStrike_enemies:
  "subseq (enemiesRef (lightningStrike env e s)) (enemiesRef s)"
  by (simp add: lightningStrike_def Let_def pushExplosion_def drew_def)

lemma lightningChain_enemies:
  "subseq (enemiesRef (lightningChain env es n s)) (enemiesRef s)"
proof (induction es arbitrary: n s)
  case Nil
  show ?case by simp
next
  case (Cons e es)
  show ?case
  proof (cases "n mod 2 = 0")
    case True
    have "subseq (enemiesRef (lightningChain env es (Suc n) (lightningStrike env e s)))
            (enemiesRef (lightningStrike env e s))" by (rule Cons.IH)
    hence "subseq (enemiesRef (lightningChain env es (Suc n) (lightningStrike env e s)))
            (enemiesRef s)"
      using lightningStrike_enemies by (rule subseq_order.trans)
    with True show ?thesis by simp
  next
    case False
    with Cons.IH[of "Suc n" s] show ?thesis by simp
  qed
qed

lemma missileCallback_enemies:
  "missileCallback env w h m s = (keep, s') \<Longrightarrow> subseq (enemiesRef s') (enemiesRef s)"
  using lightningChain_enemies[of env "nearbyEnemies (advanceMissile m) s" 0 s]
  by (auto simp add: missileCallback_def Let_def split: if_splits)

lemma filterMissiles_enemies:
  "filterMissiles env w h ms s = (kept, s') \<Longrightarrow> subseq (enemiesRef s') (enemiesRef s)"
proof (induction ms arbitrary: s kept s')
  case Nil
  then show ?case by simp
next
  case (Cons m ms)
  obtain keep s1 where cb: "missileCallback env w h m s = (keep, s1)" by fastforce
  obtain k2 s2 where rest: "filterMissiles env w h ms s1 = (k2, s2)" by fastforce
  from Cons.prems cb rest have eq: "s' = s2" by (simp split: option.splits)
  from Cons.IH[OF rest] missileCallback_enemies[OF cb]
  have "subseq (enemiesRef s2) (enemiesRef s)" by (rule subseq_order.trans)
  with eq show ?case by simp
qed

lemma updateMissiles_enemies:
  "subseq (enemiesRef (updateMissiles env w h s)) (enemiesRef s)"
proof -
  obtain kept s1 where f: "filterMissiles env w h (missilesRef s) s = (kept, s1)" by fastforce
  from filterMissiles_enemies[OF f] show ?thesis by (simp add: updateMissiles_def f)
qed

lemma rareClear_enemies: "subseq (enemiesRef (rareClear ex s)) (enemiesRef s)"
  by (simp add: rareClear_def)

lemma filterHit_kept: "filterHit ex es s = (kept, s') \<Longrightarrow> subseq kept es"
proof (induction es arbitrary: s kept s')
  case Nil
  then show ?case by simp
next
  case (Cons e es)
  let ?hit = "Math_sqrt ((x e - x ex) * (x e - x ex) + (y e - y ex) * (y e - y ex)) < radius ex"
  show ?case
  proof (cases ?hit)
    case True
    with Cons.prems have "filterHit ex es (s\<lparr>score := score s + 20\<rparr>) = (kept, s')"
      by (simp add: Let_def)
    from Cons.IH[OF this] show ?thesis by (rule list_emb_Cons)
  next
    case False
    with Cons.prems obtain k where r: "filterHit ex es s = (k, s')" and k: "kept = e # k"
      by (auto simp add: Let_def split: prod.splits)
    from Cons.IH[OF r] k show ?thesis by simp
  qed
qed

lemma explosionCallback_enemies:
  assumes "explosionCallback env time ex s = (keep, s')"
  shows "subseq (enemiesRef s') (enemiesRef s)"
proof -
  let ?ex1 = "ex\<lparr>Explosion.life := Explosion.life ex - Fin 1 / EXPLOSION_DURATION\<rparr>"
  let ?s1 = "if Explosion.life ex = Fin 1 then spawnParticles env time ?ex1 15 s else s"
  let ?ex2 = "?ex1\<lparr>radius := explosionRadius (maxRadius ?ex1) (Explosion.life ?ex1)\<rparr>"
  let ?s2 = "rareClear ?ex2 ?s1"
  obtain kept s3 where f: "filterHit ?ex2 (enemiesRef ?s2) ?s2 = (kept, s3)" by fastforce
  have s': "s' = s3\<lparr>enemiesRef := kept\<rparr>"
    using assms f by (simp add: explosionCallback_def Let_def)
  have "subseq kept (enemiesRef ?s2)" using f by (rule filterHit_kept)
  moreover have "subseq (enemiesRef ?s2) (enemiesRef ?s1)" by (rule rareClear_enemies)
  ultimately have "subseq kept (enemiesRef ?s1)" by (rule subseq_order.trans)
  moreover have "enemiesRef ?s1 = enemiesRef s" by simp
  ultimately show ?thesis by (simp add: s')
qed

lemma filterExplosions_enemies:
  "filterExplosions env time exs s = (kept, s') \<Longrightarrow> subseq (enemiesRef s') (enemiesRef s)"
proof (induction exs arbitrary: s kept s')
  case Nil
  then show ?case by simp
next
  case (Cons ex exs)
  obtain keep s1 where cb: "explosionCallback env time ex s = (keep, s1)" by fastforce
  obtain k2 s2 where rest: "filterExplosions env time exs s1 = (k2, s2)" by fastforce
  from Cons.prems cb rest have eq: "s' = s2" by (simp split: option.splits)
  from Cons.IH[OF rest] explosionCallback_enemies[OF cb]
  have "subseq (enemiesRef s2) (enemiesRef s)" by (rule subseq_order.trans)
  with eq show ?case by simp
qed

lemma updateExplosions_enemies:
  "subseq (enemiesRef (updateExplosions env time s)) (enemiesRef s)"
proof -
  obtain kept s1 where f: "filterExplosions env time (explosionsRef s) s = (kept, s1)"
    by fastforce
  from filterExplosions_enemies[OF f] show ?thesis by (simp add: updateExplosions_def f)
qed

lemma updateEnemies_survivors:
  "enemiesRef (updateEnemies env s) =
     map advanceEnemy (filter (\<lambda>e. \<not> impacts e) (enemiesRef s))"
  by (simp add: updateEnemies_kept filter_map comp_def impacts_def)

lemma update_enemies:
  assumes "gameStateRef s = PLAYING" "\<not> isPausedRef s" "canvas env = Some (w, h)"
  shows "subseq (enemiesRef (update env time s))
           (map advanceEnemy (filter (\<lambda>e. \<not> impacts e) (enemiesRef (spawnPhase env s))))"
proof -
  let ?s1 = "updateEnemies env (spawnPhase env s)"
  let ?s2 = "updateMissiles env w h ?s1"
  have "subseq (enemiesRef (updateExplosions env time ?s2)) (enemiesRef ?s2)"
    by (rule updateExplosions_enemies)
  moreover have "subseq (enemiesRef ?s2) (enemiesRef ?s1)" by (rule updateMissiles_enemies)
  ultimately have "subseq (enemiesRef (updateExplosions env time ?s2)) (enemiesRef ?s1)"
    by (rule subseq_order.trans)
  thus ?thesis by (simp add: update_playing[OF assms] updateEnemies_survivors)
qed

lemma impacting_gone:
  assumes "gameStateRef s = PLAYING" "\<not> isPausedRef s" "canvas env = Some (w, h)"
    and "impacts e"
  shows "advanceEnemy e \<notin> set (enemiesRef (update env time s))"
proof
  assume a: "advanceEnemy e \<in> set (enemiesRef (update env time s))"
  from update_enemies[OF assms(1-3), of time] a
  obtain e1 where
    "e1 \<in> set (map advanceEnemy (filter (\<lambda>e. \<not> impacts e) (enemiesRef (spawnPhase env s))))"
    and "advanceEnemy e = e1"
    by (rule list_emb_set)
  then obtain e0 where "advanceEnemy e0 = advanceEnemy e" "\<not> impacts e0" by auto
  with assms(4) show False by (simp add: impacts_def)
qed

lemma fst_explosionCallback:
  "fst (explosionCallback env time ex s) =
     (if Fin 0 < Explosion.life (ageExplosion ex) then Some (ageExplosion ex) else None)"
  by (simp add: explosionCallback_def ageExplosion_def Let_def split: prod.splits)

lemma filterExplosions_kept:
  "filterExplosions env time exs s = (kept, s') \<Longrightarrow>
   kept = filter (\<lambda>ex. Fin 0 < Explosion.life ex) (map ageExplosion exs)"
proof (induction exs arbitrary: s kept s')
  case Nil
  then show ?case by simp
next
  case (Cons ex exs)
  obtain keep s1 where cb: "explosionCallback env time ex s = (keep, s1)" by fastforce
  obtain k2 s2 where rest: "filterExplosions env time exs s1 = (k2, s2)" by fastforce
  from Cons.prems cb rest
  have eq: "kept = (case keep of None \<Rightarrow> k2 | Some e \<Rightarrow> e # k2)" by simp
  from cb fst_explosionCallback[of env time ex s]
  have k: "keep = (if Fin 0 < Explosion.life (ageExplosion ex) then Some (ageExplosion ex)
                   else None)" by simp
  from Cons.IH[OF rest] show ?case by (simp add: eq k)
qed

lemma updateExplosions_kept:
  "explosionsRef (updateExplosions env time s) =
     filter (\<lambda>ex. Fin 0 < Explosion.life ex) (map ageExplosion (explosionsRef s))"
proof -
  obtain kept s1 where f: "filterExplosions env time (explosionsRef s) s = (kept, s1)"
    by fastforce
  from filterExplosions_kept[OF f] show ?thesis by (simp add: updateExplosions_def f)
qed

lemma update_explosions:
  assumes "gameStateRef s = PLAYING" "\<not> isPausedRef s" "canvas env = Some (w, h)"
  shows "explosionsRef (update env time s) =
           filter (\<lambda>ex. Fin 0 < Explosion.life ex)
             (map ageExplosion
                (explosionsRef (updateMissiles env w h (updateEnemies env (spawnPhase env s)))))"
  by (simp add: update_playing[OF assms] updateExplosions_kept)

lemma ageExplosion_fresh:
  assumes "Explosion.life ex = Fin 1" "maxRadius ex = Fin m" "0 \<le> m"
  shows "ageExplosion ex = ex\<lparr>Explosion.life := Fin (59 / 60), radius := Fin (m / 30)\<rparr>"
proof -
  have l: "Fin 1 - Fin 1 / EXPLOSION_DURATION = Fin (59 / 60)"
    by (simp add: EXPLOSION_DURATION_def jsnum_ops)
  have "0 \<le> m / 30" using assms(3) by simp
  hence "Math_max (Fin 0) (Fin (m / 30)) = Fin (m / 30)" by (rule Math_max_zero)
  moreover have "Fin m * (Fin 1 - (Fin (59 / 60) - Fin (5 / 10)) * Fin 2) = Fin (m / 30)"
    by (simp add: jsnum_ops)
  moreover have "Fin (5 / 10) < Fin (59 / 60)" by (simp add: jsnum_ops)
  ultimately have "explosionRadius (Fin m) (Fin (59 / 60)) = Fin (m / 30)"
    by (simp add: explosionRadius_def)
  thus ?thesis using assms(1,2) by (simp add: ageExplosion_def Let_def l)
qed

lemma fresh_explosion_stays:
  assumes playing: "gameStateRef s = PLAYING" "\<not> isPausedRef s" "canvas env = Some (w, h)"
    and ex: "ex \<in> set (explosionsRef (updateMissiles env w h (updateEnemies env (spawnPhase env s))))"
    and fresh: "Explosion.life ex = Fin 1" "maxRadius ex = Fin m" "0 \<le> m"
  shows "ex\<lparr>Explosion.life := Fin (59 / 60), radius := Fin (m / 30)\<rparr>
           \<in> set (explosionsRef (update env time s))"
proof -
  have a: "ageExplosion ex = ex\<lparr>Explosion.life := Fin (59 / 60), radius := Fin (m / 30)\<rparr>"
    using fresh by (rule ageExplosion_fresh)
  hence "Fin 0 < Explosion.life (ageExplosion ex)" by (simp add: jsnum_ops)
  with ex have "ageExplosion ex \<in> set (explosionsRef (update env time s))"
    by (simp add: update_explosions[OF playing])
  thus ?thesis by (simp add: a)
qed

lemma filterEnemies_explosion:
  "filterEnemies env es s = (kept, s') \<Longrightarrow> e \<in> set es \<Longrightarrow> impacts e \<Longrightarrow>
   \<exists>name. \<lparr>ident = name, x = EnemyRocket.targetX e, y = EnemyRocket.targetY e,
            radius = Fin 0, maxRadius = Fin 30, Explosion.life = Fin 1, isRare = None\<rparr>
           \<in> set (explosionsRef s')"
proof (induction es arbitrary: s kept s')
  case Nil
  then show ?case by simp
next
  case (Cons e0 es)
  let ?ex = "\<lambda>name. \<lparr>ident = name, x = EnemyRocket.targetX e, y = EnemyRocket.targetY e,
            radius = Fin 0, maxRadius = Fin 30, Explosion.life = Fin 1, isRare = None\<rparr>"
  show ?case
  proof (cases "impacts e0")
    case True
    let ?s1 = "impactEnemy env (advanceEnemy e0) s"
    from True Cons.prems(1) have r: "filterEnemies env es ?s1 = (kept, s')"
      by (simp add: Let_def impacts_def)
    show ?thesis
    proof (cases "e = e0")
      case True
      have "?ex (''impact-'' @ toStr env (Fin (Math_random env s))) \<in> set (explosionsRef ?s1)"
        by (simp add: impactEnemy_def Let_def True)
      with filterEnemies_more[OF r]
      have "?ex (''impact-'' @ toStr env (Fin (Math_random env s))) \<in> set (explosionsRef s')"
        by simp
      thus ?thesis ..
    next
      case False
      with Cons.prems(2) have "e \<in> set es" by simp
      from Cons.IH[OF r this Cons.prems(3)] show ?thesis .
    qed
  next
    case False
    with Cons.prems(1) obtain k where r: "filterEnemies env es s = (k, s')"
      by (auto simp add: Let_def impacts_def split: prod.splits)
    from False Cons.prems(2,3) have "e \<in> set es" by auto
    from Cons.IH[OF r this Cons.prems(3)] show ?thesis .
  qed
qed

lemma update_impact_explosion:
  assumes playing: "gameStateRef s = PLAYING" "\<not> isPausedRef s" "canvas env = Some (w, h)"
    and e: "e \<in> set (enemiesRef (spawnPhase env s))" "impacts e"
  shows "\<exists>name. \<lparr>ident = name, x = EnemyRocket.targetX e, y = EnemyRocket.targetY e,
                  radius = Fin 1, maxRadius = Fin 30, Explosion.life = Fin (59 / 60),
                  isRare = None\<rparr>
                 \<in> set (explosionsRef (update env time s))"
proof -
  let ?s0 = "spawnPhase env s"
  obtain kept s1 where f: "filterEnemies env (enemiesRef ?s0) ?s0 = (kept, s1)" by fastforce
  from filterEnemies_explosion[OF f e] obtain name where
    "\<lparr>ident = name, x = EnemyRocket.targetX e, y = EnemyRocket.targetY e,
      radius = Fin 0, maxRadius = Fin 30, Explosion.life = Fin 1, isRare = None\<rparr>
     \<in> set (explosionsRef s1)" ..
  hence "\<lparr>ident = name, x = EnemyRocket.targetX e, y = EnemyRocket.targetY e,
      radius = Fin 0, maxRadius = Fin 30, Explosion.life = Fin 1, isRare = None\<rparr>
     \<in> set (explosionsRef (updateEnemies env ?s0))"
    by (simp add: updateEnemies_def f)
  hence "\<lparr>ident = name, x = EnemyRocket.targetX e, y = EnemyRocket.targetY e,
      radius = Fin 0, maxRadius = Fin 30, Explosion.life = Fin 1, isRare = None\<rparr>
     \<in> set (explosionsRef (updateMissiles env w h (updateEnemies env ?s0)))"
    by (rule updateMissiles_explosions_mono)
  from fresh_explosion_stays[OF playing this, of 30 time]
  have "\<lparr>ident = name, x = EnemyRocket.targetX e, y = EnemyRocket.targetY e,
      radius = Fin 1, maxRadius = Fin 30, Explosion.life = Fin (59 / 60), isRare = None\<rparr>
     \<in> set (explosionsRef (update env time s))"
    by simp
  thus ?thesis ..
qed

lemma fst_missileCallback:
  "fst (missileCallback env w h m s) = fst (missileCallback env w h m t)"
  by (simp add: missileCallback_def Let_def)

lemma filterMissiles_kept:
  "filterMissiles env w h ms s = (kept, s') \<Longrightarrow>
   kept = List.map_filter (\<lambda>m. fst (missileCallback env w h m t)) ms"
proof (induction ms arbitrary: s kept s')
  case Nil
  then show ?case by simp
next
  case (Cons m ms)
  obtain keep s1 where cb: "missileCallback env w h m s = (keep, s1)" by fastforce
  obtain k2 s2 where rest: "filterMissiles env w h ms s1 = (k2, s2)" by fastforce
  from Cons.prems cb rest
  have eq: "kept = (case keep of None \<Rightarrow> k2 | Some e \<Rightarrow> e # k2)" by simp
  from cb fst_missileCallback[of env w h m t s]
  have k: "fst (missileCallback env w h m t) = keep" by simp
  from Cons.IH[OF rest] show ?case by (simp add: eq k split: option.splits)
qed

lemma missilesRef_explosion_phase [simp]:
  "missilesRef (emitParticle env time ex s) = missilesRef s"
  "missilesRef (rareClear ex s) = missilesRef s"
  by (simp_all add: emitParticle_def rareClear_def Let_def)

lemma missilesRef_spawnParticles [simp]:
  "missilesRef (spawnParticles env time ex n s) = missilesRef s"
  by (induction n arbitrary: s) simp_all

lemma missilesRef_filterHit:
  "filterHit ex es s = (kept, s') \<Longrightarrow> missilesRef s' = missilesRef s"
proof (induction es arbitrary: s kept s')
  case Nil
  then show ?case by simp
next
  case (Cons e es)
  let ?hit = "Math_sqrt ((x e - x ex) * (x e - x ex) + (y e - y ex) * (y e - y ex)) < radius ex"
  show ?case
  proof (cases ?hit)
    case True
    with Cons.prems have "filterHit ex es (s\<lparr>score := score s + 20\<rparr>) = (kept, s')"
      by (simp add: Let_def)
    from Cons.IH[OF this] show ?thesis by simp
  next
    case False
    with Cons.prems obtain k where r: "filterHit ex es s = (k, s')"
      by (auto simp add: Let_def split: prod.splits)
    from Cons.IH[OF r] show ?thesis .
  qed
qed

lemma missilesRef_explosionCallback:
  assumes "explosionCallback env time ex s = (keep, s')"
  shows "missilesRef s' = missilesRef s"
proof -
  let ?ex1 = "ex\<lparr>Explosion.life := Explosion.life ex - Fin 1 / EXPLOSION_DURATION\<rparr>"
  let ?s1 = "if Explosion.life ex = Fin 1 then spawnParticles env time ?ex1 15 s else s"
  let ?ex2 = "?ex1\<lparr>radius := explosionRadius (maxRadius ?ex1) (Explosion.life ?ex1)\<rparr>"
  let ?s2 = "rareClear ?ex2 ?s1"
  obtain kept s3 where f: "filterHit ?ex2 (enemiesRef ?s2) ?s2 = (kept, s3)" by fastforce
  have s': "s' = s3\<lparr>enemiesRef := kept\<rparr>"
    using assms f by (simp add: explosionCallback_def Let_def)
  have "missilesRef ?s2 = missilesRef s" by simp
  with missilesRef_filterHit[OF f] show ?thesis by (simp add: s')
qed

lemma missilesRef_filterExplosions:
  "filterExplosions env time exs s = (kept, s') \<Longrightarrow> missilesRef s' = missilesRef s"
proof (induction exs arbitrary: s kept s')
  case Nil
  then show ?case by simp
next
  case (Cons ex exs)
  obtain keep s1 where cb: "explosionCallback env time ex s = (keep, s1)" by fastforce
  obtain k2 s2 where rest: "filterExplosions env time exs s1 = (k2, s2)" by fastforce
  from Cons.prems cb rest have eq: "s' = s2" by (simp split: option.splits)
  from missilesRef_explosionCallback[OF cb] Cons.IH[OF rest] eq show ?case by simp
qed

lemma missilesRef_updateExplosions [simp]:
  "missilesRef (updateExplosions env time s) = missilesRef s"
proof -
  obtain kept s1 where f: "filterExplosions env time (explosionsRef s) s = (kept, s1)"
    by fastforce
  from missilesRef_filterExplosions[OF f] show ?thesis by (simp add: updateExplosions_def f)
qed

lemma update_missiles:
  assumes "gameStateRef s = PLAYING" "\<not> isPausedRef s" "canvas env = Some (w, h)"
  shows "missilesRef (update env time s) =
           List.map_filter (\<lambda>m. fst (missileCallback env w h m s)) (missilesRef s)"
proof -
  let ?s1 = "updateEnemies env (spawnPhase env s)"
  obtain kept s2 where f: "filterMissiles env w h (missilesRef ?s1) ?s1 = (kept, s2)"
    by fastforce
  have "missilesRef (updateMissiles env w h ?s1) = kept" by (simp add: updateMissiles_def f)
  also have "\<dots> = List.map_filter (\<lambda>m. fst (missileCallback env w h m s)) (missilesRef ?s1)"
    using f by (rule filterMissiles_kept)
  also have "missilesRef ?s1 = missilesRef s" by (simp add: updateEnemies_more)
  finally show ?thesis by (simp add: update_playing[OF assms])
qed

lemma filterMissiles_ran:
  "filterMissiles env w h ms s = (kept, s') \<Longrightarrow> m \<in> set ms \<Longrightarrow>
   \<exists>t. \<forall>ex. ex \<in> set (explosionsRef (snd (missileCallback env w h m t))) \<longrightarrow>
             ex \<in> set (explosionsRef s')"
proof (induction ms arbitrary: s kept s')
  case Nil
  then show ?case by simp
next
  case (Cons m0 ms)
  obtain keep s1 where cb: "missileCallback env w h m0 s = (keep, s1)" by fastforce
  obtain k2 s2 where rest: "filterMissiles env w h ms s1 = (k2, s2)" by fastforce
  from Cons.prems(1) cb rest have eq: "s' = s2" by (simp split: option.splits)
  show ?case
  proof (cases "m = m0")
    case True
    have "\<forall>ex. ex \<in> set (explosionsRef (snd (missileCallback env w h m s))) \<longrightarrow>
               ex \<in> set (explosionsRef s')"
      using filterMissiles_explosions_mono[OF rest] by (simp add: True cb eq)
    thus ?thesis ..
  next
    case False
    with Cons.prems(2) have "m \<in> set ms" by simp
    from Cons.IH[OF rest this] eq show ?thesis by simp
  qed
qed

lemma updateMissiles_ran:
  assumes "m \<in> set (missilesRef s)"
  shows "\<exists>t. \<forall>ex. ex \<in> set (explosionsRef (snd (missileCallback env w h m t))) \<longrightarrow>
             ex \<in> set (explosionsRef (updateMissiles env w h s))"
proof -
  obtain kept s1 where f: "filterMissiles env w h (missilesRef s) s = (kept, s1)" by fastforce
  from filterMissiles_ran[OF f assms] show ?thesis by (simp add: updateMissiles_def f)
qed

section \<open>The impact of an enemy projectile\<close>

lemma spawnPhase_enemies:
  "prefix (enemiesRef s) (enemiesRef (spawnPhase env s))"
  by (simp add: spawnPhase_def spawnEnemy_def Let_def drew_def)

lemma sqrt_336400: "sqrt 336400 = 580"
  by (rule real_sqrt_unique) simp_all

lemma narrow0_simps:
  "gameStateRef narrow0 = PLAYING" "isPausedRef narrow0 = False" "enemiesRef narrow0 = []"
  "missilesRef narrow0 = []" "explosionsRef narrow0 = []" "scoreRef narrow0 = 0"
  "canvas env40 = Some (40, 600)"
  by (simp_all add: narrow0_def syncRefs_def render_def startGame_def initGame_def mount_def
        Let_def env40_def)

lemma narrow0_cities:
  "citiesRef narrow0 =
     [\<lparr>ident = ''city-n'', x = Fin 6, y = Fin 560, City.active = True\<rparr>,
      \<lparr>ident = ''city-n'', x = Fin 10, y = Fin 560, City.active = True\<rparr>,
      \<lparr>ident = ''city-n'', x = Fin 14, y = Fin 560, City.active = True\<rparr>,
      \<lparr>ident = ''city-n'', x = Fin 26, y = Fin 560, City.active = True\<rparr>,
      \<lparr>ident = ''city-n'', x = Fin 30, y = Fin 560, City.active = True\<rparr>,
      \<lparr>ident = ''city-n'', x = Fin 34, y = Fin 560, City.active = True\<rparr>]"
  by (simp add: narrow0_def syncRefs_def render_def startGame_def initGame_def mount_def
        env40_def env0_def Let_def cityPositions_def)

lemma narrow0_batteries:
  "batteriesRef narrow0 =
     [\<lparr>ident = ''left'', x = Fin 2, y = Fin 550, Battery.active = True,
       Battery.ammo = 20, maxAmmo = 20\<rparr>,
      \<lparr>ident = ''center'', x = Fin 20, y = Fin 550, Battery.active = True,
       Battery.ammo = 40, maxAmmo = 40\<rparr>,
      \<lparr>ident = ''right'', x = Fin 38, y = Fin 550, Battery.active = True,
       Battery.ammo = 20, maxAmmo = 20\<rparr>]"
  by (simp add: narrow0_def syncRefs_def render_def startGame_def initGame_def mount_def
        env40_def env0_def Let_def INITIAL_AMMO_def)

lemma impacts_aimed: "impacts aimed1" "impacts aimed0"
  by (simp_all add: impacts_def advanceEnemy_def aimed1_def aimed0_def Let_def jsnum_ops
        sqrt_336400)

lemma spawnPhase_narrow:
  "enemiesRef (spawnPhase env40 narrow1) = [aimed1]"
  "enemiesRef (spawnPhase env40 narrow2) = [aimed0]"
  by (simp_all add: spawnPhase_def Let_def Math_random_def env40_def env0_def frac_half
        narrow1_def narrow2_def narrow0_simps)

lemma impacts_incoming: "impacts incoming"
  by (simp add: impacts_def advance_incoming jsnum_ops)

text \<open>
  C4, as stated, fails. In a window 40 units wide the cities stand 4 units apart. A
  projectile that impacts exactly on the second city (at 10, 560) leaves that city active and
  switches off the first city (at 6, 560) instead, the first in the array whose \<open>x\<close> is less
  than 5 away. A projectile that impacts exactly on the first city (at 6, 560) also switches
  off the left battery at (2, 550), which is more than 10 units from the point of impact:
  only \<open>x\<close> is compared.
\<close>

theorem enemy_impact_counterexample:
  "enemiesRef narrow1 = [aimed1] \<and> impacts aimed1 \<and>
   EnemyRocket.targetX aimed1 = x (citiesRef narrow1 ! 1) \<and>
   EnemyRocket.targetY aimed1 = y (citiesRef narrow1 ! 1) \<and>
   City.active (citiesRef narrow1 ! 1) \<and>
   City.active (citiesRef (update env40 0 narrow1) ! 1) \<and>
   x (citiesRef narrow1 ! 0) = Fin 6 \<and>
   \<not> City.active (citiesRef (update env40 0 narrow1) ! 0) \<and>
   enemiesRef narrow2 = [aimed0] \<and> impacts aimed0 \<and>
   EnemyRocket.targetX aimed0 = Fin 6 \<and> EnemyRocket.targetY aimed0 = Fin 560 \<and>
   x (batteriesRef narrow2 ! 0) = Fin 2 \<and> y (batteriesRef narrow2 ! 0) = Fin 550 \<and>
   Battery.active (batteriesRef narrow2 ! 0) \<and>
   \<not> Battery.active (batteriesRef (update env40 0 narrow2) ! 0)"
proof -
  have p1: "gameStateRef narrow1 = PLAYING" "\<not> isPausedRef narrow1"
    and p2: "gameStateRef narrow2 = PLAYING" "\<not> isPausedRef narrow2"
    and c: "canvas env40 = Some (40, 600)"
    by (simp_all add: narrow1_def narrow2_def narrow0_simps)
  have c1: "citiesRef narrow1 = citiesRef narrow0" and b2: "batteriesRef narrow2 = batteriesRef narrow0"
    by (simp_all add: narrow1_def narrow2_def)
  have "citiesRef (update env40 0 narrow1) = hitCity (Fin 10) (citiesRef narrow0)"
    by (simp add: update_defences_fold(1)[OF p1 c] spawnPhase_narrow impacts_aimed c1)
       (simp add: aimed1_def)
  hence u1: "City.active (citiesRef (update env40 0 narrow1) ! 1) \<and>
             \<not> City.active (citiesRef (update env40 0 narrow1) ! 0)"
    by (simp add: narrow0_cities jsnum_ops)
  have "batteriesRef (update env40 0 narrow2) = hitBattery (Fin 6) (batteriesRef narrow0)"
    by (simp add: update_defences_fold(2)[OF p2 c] spawnPhase_narrow impacts_aimed b2)
       (simp add: aimed0_def)
  hence u2: "\<not> Battery.active (batteriesRef (update env40 0 narrow2) ! 0)"
    by (simp add: narrow0_batteries jsnum_ops)
  have "enemiesRef narrow1 = [aimed1]" "enemiesRef narrow2 = [aimed0]"
    by (simp_all add: narrow1_def narrow2_def)
  moreover have "EnemyRocket.targetX aimed1 = x (citiesRef narrow1 ! 1) \<and>
   EnemyRocket.targetY aimed1 = y (citiesRef narrow1 ! 1) \<and>
   City.active (citiesRef narrow1 ! 1) \<and> x (citiesRef narrow1 ! 0) = Fin 6"
    by (simp add: c1 narrow0_cities aimed1_def)
  moreover have "EnemyRocket.targetX aimed0 = Fin 6 \<and> EnemyRocket.targetY aimed0 = Fin 560 \<and>
   x (batteriesRef narrow2 ! 0) = Fin 2 \<and> y (batteriesRef narrow2 ! 0) = Fin 550 \<and>
   Battery.active (batteriesRef narrow2 ! 0)"
    by (simp add: b2 narrow0_batteries aimed0_def)
  ultimately show ?thesis using u1 u2 impacts_aimed by simp
qed

text \<open>
  C4, amended. Over a tick that runs (the session is PLAYING, not paused, the canvas exists),
  with the enemy projectiles of the tick being those in the store at its start and the one
  the spawner may append: the store of enemy projectiles after the tick is a subsequence of
  the advanced forms of the projectiles whose progress after the advance is below 1, so
  every projectile whose progress reaches 1 or more is removed. For each removed one the
  store of explosions after the tick holds an explosion of maximal radius 30 at its target
  point, already processed once by the explosion phase of the same tick (life 59/60,
  radius 1). The city at index \<open>i\<close> is switched off exactly when it is the first city of the
  array whose \<open>x\<close> is less than 5 away from the \<open>x\<close> of the target of some projectile
  that impacts in that tick (\<open>y\<close> is not compared) and is exactly as before otherwise;
  and likewise for the batteries.
\<close>

theorem enemy_impact:
  assumes playing: "gameStateRef s = PLAYING" "\<not> isPausedRef s" "canvas env = Some (w, h)"
  shows "prefix (enemiesRef s) (enemiesRef (spawnPhase env s)) \<and>
         subseq (enemiesRef (update env time s))
           (map advanceEnemy (filter (\<lambda>e. \<not> impacts e) (enemiesRef (spawnPhase env s)))) \<and>
         (\<forall>e \<in> set (enemiesRef (spawnPhase env s)). impacts e \<longrightarrow>
            advanceEnemy e \<notin> set (enemiesRef (update env time s)) \<and>
            (\<exists>name. \<lparr>ident = name, x = EnemyRocket.targetX e, y = EnemyRocket.targetY e,
                      radius = Fin 1, maxRadius = Fin 30, Explosion.life = Fin (59 / 60),
                      isRare = None\<rparr>
                     \<in> set (explosionsRef (update env time s)))) \<and>
         length (citiesRef (update env time s)) = length (citiesRef s) \<and>
         (\<forall>i<length (citiesRef s).
            citiesRef (update env time s) ! i =
              (if \<exists>e \<in> set (enemiesRef (spawnPhase env s)).
                    impacts e \<and> firstNear (EnemyRocket.targetX e) (map x (citiesRef s)) i
               then (citiesRef s ! i)\<lparr>City.active := False\<rparr> else citiesRef s ! i)) \<and>
         length (batteriesRef (update env time s)) = length (batteriesRef s) \<and>
         (\<forall>i<length (batteriesRef s).
            batteriesRef (update env time s) ! i =
              (if \<exists>e \<in> set (enemiesRef (spawnPhase env s)).
                    impacts e \<and> firstNear (EnemyRocket.targetX e) (map x (batteriesRef s)) i
               then (batteriesRef s ! i)\<lparr>Battery.active := False\<rparr> else batteriesRef s ! i))"
proof -
  let ?es = "enemiesRef (spawnPhase env s)"
  have gone: "advanceEnemy e \<notin> set (enemiesRef (update env time s)) \<and>
            (\<exists>name. \<lparr>ident = name, x = EnemyRocket.targetX e, y = EnemyRocket.targetY e,
                      radius = Fin 1, maxRadius = Fin 30, Explosion.life = Fin (59 / 60),
                      isRare = None\<rparr>
                     \<in> set (explosionsRef (update env time s)))"
    if "e \<in> set ?es" "impacts e" for e
    using impacting_gone[OF playing that(2)] update_impact_explosion[OF playing that] by simp
  have ex: "(\<exists>e\<in>set (filter impacts ?es). Q e) = (\<exists>e\<in>set ?es. impacts e \<and> Q e)" for Q
    by auto
  have cs: "citiesRef (update env time s) ! i =
              (if \<exists>e \<in> set ?es. impacts e \<and> firstNear (EnemyRocket.targetX e) (map x (citiesRef s)) i
               then (citiesRef s ! i)\<lparr>City.active := False\<rparr> else citiesRef s ! i)"
    if "i < length (citiesRef s)" for i
    using fold_hitCity_nth[OF that, of "filter impacts ?es"]
    by (simp only: update_defences_fold(1)[OF playing] ex)
  have bs: "batteriesRef (update env time s) ! i =
              (if \<exists>e \<in> set ?es. impacts e \<and> firstNear (EnemyRocket.targetX e) (map x (batteriesRef s)) i
               then (batteriesRef s ! i)\<lparr>Battery.active := False\<rparr> else batteriesRef s ! i)"
    if "i < length (batteriesRef s)" for i
    using fold_hitBattery_nth[OF that, of "filter impacts ?es"]
    by (simp only: update_defences_fold(2)[OF playing] ex)
  have len: "length (citiesRef (update env time s)) = length (citiesRef s)"
    "length (batteriesRef (update env time s)) = length (batteriesRef s)"
    by (simp_all add: update_defences_fold[OF playing])
  from spawnPhase_enemies update_enemies[OF playing] gone cs bs len show ?thesis by simp
qed

theorem enemy_impact_witness:
  "enemiesRef strike_state = [incoming] \<and> impacts incoming \<and>
   enemiesRef (update env0 0 strike_state) = [] \<and>
   (\<exists>name. \<lparr>ident = name, x = Fin 400, y = Fin 550, radius = Fin 1, maxRadius = Fin 30,
             Explosion.life = Fin (59 / 60), isRare = None\<rparr>
            \<in> set (explosionsRef (update env0 0 strike_state))) \<and>
   batteriesRef (update env0 0 strike_state) ! 1 =
     (batteriesRef strike_state ! 1)\<lparr>Battery.active := False\<rparr> \<and>
   batteriesRef (update env0 0 strike_state) ! 0 = batteriesRef strike_state ! 0 \<and>
   batteriesRef (update env0 0 strike_state) ! 2 = batteriesRef strike_state ! 2 \<and>
   citiesRef (update env0 0 strike_state) ! 3 = citiesRef strike_state ! 3"
proof -
  have h: "gameStateRef strike_state = PLAYING" "\<not> isPausedRef strike_state"
    "canvas env0 = Some (800, 600)"
    by (simp_all add: strike_state_simps env0_def)
  have en: "enemiesRef (spawnPhase env0 strike_state) = [incoming]"
    unfolding spawnPhase_strike_state by (simp add: strike_state_def)
  have t: "EnemyRocket.targetX incoming = Fin 400" "EnemyRocket.targetY incoming = Fin 550"
    by (simp_all add: incoming_def)
  note p = enemy_impact[OF h, of 0, unfolded en]
  from p have "subseq (enemiesRef (update env0 0 strike_state))
                 (map advanceEnemy (filter (\<lambda>e. \<not> impacts e) [incoming]))"
    by (elim conjE)
  hence a: "enemiesRef (update env0 0 strike_state) = []"
    by (simp add: impacts_incoming)
  from p have "\<forall>e \<in> set [incoming]. impacts e \<longrightarrow>
            advanceEnemy e \<notin> set (enemiesRef (update env0 0 strike_state)) \<and>
            (\<exists>name. \<lparr>ident = name, x = EnemyRocket.targetX e, y = EnemyRocket.targetY e,
                      radius = Fin 1, maxRadius = Fin 30, Explosion.life = Fin (59 / 60),
                      isRare = None\<rparr>
                     \<in> set (explosionsRef (update env0 0 strike_state)))"
    by (elim conjE)
  hence b: "\<exists>name. \<lparr>ident = name, x = Fin 400, y = Fin 550, radius = Fin 1, maxRadius = Fin 30,
             Explosion.life = Fin (59 / 60), isRare = None\<rparr>
            \<in> set (explosionsRef (update env0 0 strike_state))"
    by (simp add: impacts_incoming t)
  from p have bs: "\<forall>i<length (batteriesRef strike_state).
            batteriesRef (update env0 0 strike_state) ! i =
              (if \<exists>e \<in> set [incoming].
                    impacts e \<and> firstNear (EnemyRocket.targetX e) (map x (batteriesRef strike_state)) i
               then (batteriesRef strike_state ! i)\<lparr>Battery.active := False\<rparr>
               else batteriesRef strike_state ! i)"
    by (elim conjE)
  from p have cs: "\<forall>i<length (citiesRef strike_state).
            citiesRef (update env0 0 strike_state) ! i =
              (if \<exists>e \<in> set [incoming].
                    impacts e \<and> firstNear (EnemyRocket.targetX e) (map x (citiesRef strike_state)) i
               then (citiesRef strike_state ! i)\<lparr>City.active := False\<rparr>
               else citiesRef strike_state ! i)"
    by (elim conjE)
  from bs[rule_format, of 0] bs[rule_format, of 1] bs[rule_format, of 2] cs[rule_format, of 3]
  have c: "batteriesRef (update env0 0 strike_state) ! 1 =
     (batteriesRef strike_state ! 1)\<lparr>Battery.active := False\<rparr> \<and>
   batteriesRef (update env0 0 strike_state) ! 0 = batteriesRef strike_state ! 0 \<and>
   batteriesRef (update env0 0 strike_state) ! 2 = batteriesRef strike_state ! 2 \<and>
   citiesRef (update env0 0 strike_state) ! 3 = citiesRef strike_state ! 3"
    by (simp add: t impacts_incoming strike_state_simps playing0_batteries playing0_cities
          firstNear_def jsnum_ops)
  from a b c impacts_incoming show ?thesis by (simp add: strike_state_simps)
qed

section \<open>A projectile that starts at its target\<close>

lemma low0_simps:
  "gameStateRef low0 = PLAYING" "isPausedRef low0 = False" "enemiesRef low0 = []"
  "missilesRef low0 = []" "explosionsRef low0 = []" "scoreRef low0 = 0" "drawn low0 = 0"
  "canvas env_low = Some (800, 30)"
  by (simp_all add: low0_def syncRefs_def render_def startGame_def initGame_def mount_def
        Let_def env_low_def)

lemma low0_batteries:
  "batteriesRef low0 =
     [\<lparr>ident = ''left'', x = Fin 40, y = Fin (- 20), Battery.active = True,
       Battery.ammo = 20, maxAmmo = 20\<rparr>,
      \<lparr>ident = ''center'', x = Fin 400, y = Fin (- 20), Battery.active = True,
       Battery.ammo = 40, maxAmmo = 40\<rparr>,
      \<lparr>ident = ''right'', x = Fin 760, y = Fin (- 20), Battery.active = True,
       Battery.ammo = 20, maxAmmo = 20\<rparr>]"
  by (simp add: low0_def syncRefs_def render_def startGame_def initGame_def mount_def
        env_low_def Let_def INITIAL_AMMO_def)

lemma low0_cities: "length (citiesRef low0) = 6" "list_all City.active (citiesRef low0)"
  by (simp_all add: low0_def syncRefs_def render_def startGame_def initGame_def mount_def
        env_low_def Let_def cityPositions_def)

lemma frac_five_sixths: "frac (5 / 6 :: real) = 5 / 6"
  by (simp add: frac_eq)

lemma spawn_low: "enemiesRef (spawnPhase env_low low0) = [stuck]"
proof -
  have r0: "Math_random env_low low0 = 0"
    by (simp add: Math_random_def low0_simps env_low_def)
  have r1: "Math_random env_low (drew low0) = 5 / 6"
    by (simp add: Math_random_def low0_simps env_low_def drew_def frac_five_sixths)
  have r2: "Math_random env_low (drew (drew low0)) = 1 / 2"
    "Math_random env_low (drew (drew (drew low0))) = 1 / 2"
    by (simp_all add: Math_random_def low0_simps env_low_def drew_def frac_half)
  have c: "filter City.active (citiesRef low0) = citiesRef low0"
    using low0_cities(2) by (simp add: list_all_iff)
  have sp: "spawnPhase env_low low0 = spawnEnemy env_low (drew low0)"
    by (simp add: spawnPhase_def Let_def r0 low0_simps)
  have fl: "nat \<lfloor>5 / 6 * (9::real)\<rfloor> = 7" by simp
  show ?thesis
    by (simp add: sp spawnEnemy_def Let_def r1 r2 c low0_cities low0_batteries low0_simps fl
          nth_append stuck_def ENEMY_SPEED_BASE_def jsnum_ops)
       (simp add: env_low_def)
qed

text \<open>
  C3, as stated, fails. In a window 30 units high the batteries stand at \<open>y = -20\<close>, the
  height at which projectiles start. When the draws of the tick are 0, 5/6, 1/2 and 1/2,
  the spawner of the tick sends a projectile to the centre battery from the battery's own
  position. The advance of the tick divides the speed by the distance 0: the
  progress of the projectile becomes Infinity and its coordinates NaN.
\<close>

theorem degenerate_enemy_counterexample:
  "enemiesRef low0 = [] \<and> enemiesRef (spawnPhase env_low low0) = [stuck] \<and>
   EnemyRocket.startX stuck = EnemyRocket.targetX stuck \<and>
   EnemyRocket.startY stuck = EnemyRocket.targetY stuck \<and>
   Math_sqrt ((EnemyRocket.targetX stuck - EnemyRocket.startX stuck) *
              (EnemyRocket.targetX stuck - EnemyRocket.startX stuck) +
              (EnemyRocket.targetY stuck - EnemyRocket.startY stuck) *
              (EnemyRocket.targetY stuck - EnemyRocket.startY stuck)) = Fin 0 \<and>
   speed stuck / Fin 0 = PInf \<and>
   EnemyRocket.progress (advanceEnemy stuck) = PInf \<and>
   x (advanceEnemy stuck) = NaN \<and> y (advanceEnemy stuck) = NaN \<and>
   \<not> isFinite (x (advanceEnemy stuck)) \<and> \<not> isFinite (y (advanceEnemy stuck))"
  by (simp add: spawn_low low0_simps) (simp add: advanceEnemy_def stuck_def Let_def jsnum_ops)

lemma advanceEnemy_course [simp]:
  "EnemyRocket.startX (advanceEnemy e) = EnemyRocket.startX e"
  "EnemyRocket.startY (advanceEnemy e) = EnemyRocket.startY e"
  "speed (advanceEnemy e) = speed e"
  by (simp_all add: advanceEnemy_def Let_def)

lemma degenerate_progress:
  assumes "EnemyRocket.startX e = Fin a" "EnemyRocket.targetX e = Fin a"
    and "EnemyRocket.startY e = Fin b" "EnemyRocket.targetY e = Fin b"
    and "speed e = Fin v" "0 < v"
  shows "EnemyRocket.progress (advanceEnemy e) = EnemyRocket.progress e + PInf"
  using assms by (simp add: advanceEnemy_def Let_def jsnum_ops)

lemma plus_PInf_not_Fin: "a + PInf \<noteq> Fin p"
  by (cases a) (simp_all add: jsnum_ops)

text \<open>
  C3, amended. For an enemy projectile of a tick that runs, whose finite target point is
  its starting point, with a positive finite speed and a finite progress: the tick has no
  guard and divides by the distance 0, which gives the progress Infinity and the
  projectile's own coordinates NaN. It is treated as an impact of that tick all the same:
  neither the projectile nor its advanced form is in the store after the tick (the store
  holds advanced forms of projectiles that did not impact), the store of explosions after
  the tick holds the impact explosion at the finite target point (maximal radius 30,
  processed once by the explosion phase: life 59/60, radius 1), and the first city and the
  first battery whose \<open>x\<close> is less than 5 away from the target's are switched off.
\<close>

theorem degenerate_enemy_impact:
  assumes playing: "gameStateRef s = PLAYING" "\<not> isPausedRef s" "canvas env = Some (w, h)"
    and e: "e \<in> set (enemiesRef (spawnPhase env s))"
    and geo: "EnemyRocket.startX e = Fin a" "EnemyRocket.targetX e = Fin a"
      "EnemyRocket.startY e = Fin b" "EnemyRocket.targetY e = Fin b"
    and sp: "speed e = Fin v" "0 < v"
    and pr: "EnemyRocket.progress e = Fin p"
  shows "EnemyRocket.progress (advanceEnemy e) = PInf \<and>
         x (advanceEnemy e) = NaN \<and> y (advanceEnemy e) = NaN \<and>
         advanceEnemy e \<notin> set (enemiesRef (update env time s)) \<and>
         e \<notin> set (enemiesRef (update env time s)) \<and>
         subseq (enemiesRef (update env time s))
           (map advanceEnemy (filter (\<lambda>e. \<not> impacts e) (enemiesRef (spawnPhase env s)))) \<and>
         (\<exists>name. \<lparr>ident = name, x = Fin a, y = Fin b, radius = Fin 1, maxRadius = Fin 30,
                   Explosion.life = Fin (59 / 60), isRare = None\<rparr>
                  \<in> set (explosionsRef (update env time s))) \<and>
         (\<forall>i<length (citiesRef s).
            firstNear (Fin a) (map x (citiesRef s)) i \<longrightarrow>
            citiesRef (update env time s) ! i = (citiesRef s ! i)\<lparr>City.active := False\<rparr>) \<and>
         (\<forall>i<length (batteriesRef s).
            firstNear (Fin a) (map x (batteriesRef s)) i \<longrightarrow>
            batteriesRef (update env time s) ! i =
              (batteriesRef s ! i)\<lparr>Battery.active := False\<rparr>)"
proof -
  have adv: "advanceEnemy e = e\<lparr>EnemyRocket.progress := PInf, x := NaN, y := NaN\<rparr>"
    using geo sp pr by (simp add: advanceEnemy_def Let_def jsnum_ops)
  have imp: "impacts e" by (simp add: impacts_def adv jsnum_ops)
  have gone: "advanceEnemy e \<notin> set (enemiesRef (update env time s))"
    using playing imp by (rule impacting_gone)
  have sub: "subseq (enemiesRef (update env time s))
           (map advanceEnemy (filter (\<lambda>e. \<not> impacts e) (enemiesRef (spawnPhase env s))))"
    using playing by (rule update_enemies)
  have gone': "e \<notin> set (enemiesRef (update env time s))"
  proof
    assume "e \<in> set (enemiesRef (update env time s))"
    with sub obtain e1 where
      "e1 \<in> set (map advanceEnemy (filter (\<lambda>e. \<not> impacts e) (enemiesRef (spawnPhase env s))))"
      and "e = e1"
      by (rule list_emb_set)
    then obtain e0 where e0: "e = advanceEnemy e0" by auto
    have "EnemyRocket.startX e0 = Fin a" "EnemyRocket.targetX e0 = Fin a"
      "EnemyRocket.startY e0 = Fin b" "EnemyRocket.targetY e0 = Fin b" "speed e0 = Fin v"
      using geo sp(1) by (simp_all add: e0)
    hence "EnemyRocket.progress (advanceEnemy e0) = EnemyRocket.progress e0 + PInf"
      using sp(2) by (rule degenerate_progress)
    with pr e0 show False by (simp add: plus_PInf_not_Fin)
  qed
  from update_impact_explosion[OF playing e imp, of time]
  have ex: "\<exists>name. \<lparr>ident = name, x = Fin a, y = Fin b, radius = Fin 1, maxRadius = Fin 30,
                   Explosion.life = Fin (59 / 60), isRare = None\<rparr>
                  \<in> set (explosionsRef (update env time s))"
    by (simp add: geo)
  have cs: "citiesRef (update env time s) ! i = (citiesRef s ! i)\<lparr>City.active := False\<rparr>"
    if "i < length (citiesRef s)" "firstNear (Fin a) (map x (citiesRef s)) i" for i
  proof -
    have "\<exists>e\<in>set (filter impacts (enemiesRef (spawnPhase env s))).
            firstNear (EnemyRocket.targetX e) (map x (citiesRef s)) i"
      using e imp that(2) geo(2) by auto
    with fold_hitCity_nth[OF that(1), of "filter impacts (enemiesRef (spawnPhase env s))"]
    show ?thesis by (simp only: update_defences_fold(1)[OF playing] if_True)
  qed
  have bs: "batteriesRef (update env time s) ! i =
              (batteriesRef s ! i)\<lparr>Battery.active := False\<rparr>"
    if "i < length (batteriesRef s)" "firstNear (Fin a) (map x (batteriesRef s)) i" for i
  proof -
    have "\<exists>e\<in>set (filter impacts (enemiesRef (spawnPhase env s))).
            firstNear (EnemyRocket.targetX e) (map x (batteriesRef s)) i"
      using e imp that(2) geo(2) by auto
    with fold_hitBattery_nth[OF that(1), of "filter impacts (enemiesRef (spawnPhase env s))"]
    show ?thesis by (simp only: update_defences_fold(2)[OF playing] if_True)
  qed
  from gone gone' sub ex cs bs show ?thesis by (simp add: adv)
qed

theorem degenerate_enemy_impact_witness:
  "enemiesRef low0 = [] \<and> enemiesRef (spawnPhase env_low low0) = [stuck] \<and>
   EnemyRocket.progress (advanceEnemy stuck) = PInf \<and>
   enemiesRef (update env_low 0 low0) = [] \<and>
   (\<exists>name. \<lparr>ident = name, x = Fin 400, y = Fin (- 20), radius = Fin 1, maxRadius = Fin 30,
             Explosion.life = Fin (59 / 60), isRare = None\<rparr>
            \<in> set (explosionsRef (update env_low 0 low0))) \<and>
   batteriesRef (update env_low 0 low0) ! 1 = (batteriesRef low0 ! 1)\<lparr>Battery.active := False\<rparr>"
proof -
  have h: "gameStateRef low0 = PLAYING" "\<not> isPausedRef low0" "canvas env_low = Some (800, 30)"
    by (simp_all add: low0_simps)
  have e: "stuck \<in> set (enemiesRef (spawnPhase env_low low0))" by (simp add: spawn_low)
  have g: "EnemyRocket.startX stuck = Fin 400" "EnemyRocket.targetX stuck = Fin 400"
    "EnemyRocket.startY stuck = Fin (- 20)" "EnemyRocket.targetY stuck = Fin (- 20)"
    "speed stuck = Fin (8 / 10)" "(0::real) < 8 / 10" "EnemyRocket.progress stuck = Fin 0"
    by (simp_all add: stuck_def)
  note p = degenerate_enemy_impact[OF h e g, of 0, unfolded spawn_low]
  from p have a: "EnemyRocket.progress (advanceEnemy stuck) = PInf" by (elim conjE)
  hence imp: "impacts stuck" by (simp add: impacts_def jsnum_ops)
  from p have "subseq (enemiesRef (update env_low 0 low0))
           (map advanceEnemy (filter (\<lambda>e. \<not> impacts e) [stuck]))"
    by (elim conjE)
  hence b: "enemiesRef (update env_low 0 low0) = []" by (simp add: imp)
  from p have c: "\<exists>name. \<lparr>ident = name, x = Fin 400, y = Fin (- 20), radius = Fin 1,
             maxRadius = Fin 30, Explosion.life = Fin (59 / 60), isRare = None\<rparr>
            \<in> set (explosionsRef (update env_low 0 low0))"
    by (elim conjE)
  from p have bs: "\<forall>i<length (batteriesRef low0).
            firstNear (Fin 400) (map x (batteriesRef low0)) i \<longrightarrow>
            batteriesRef (update env_low 0 low0) ! i =
              (batteriesRef low0 ! i)\<lparr>Battery.active := False\<rparr>"
    by (elim conjE)
  from bs[rule_format, of 1]
  have d: "batteriesRef (update env_low 0 low0) ! 1 =
             (batteriesRef low0 ! 1)\<lparr>Battery.active := False\<rparr>"
    by (simp add: low0_batteries firstNear_def jsnum_ops)
  from a b c d show ?thesis by (simp add: spawn_low low0_simps)
qed

section \<open>The drone over a tick\<close>

lemma map_filter_length_less:
  "a \<in> set xs \<Longrightarrow> f a = None \<Longrightarrow> length (List.map_filter f xs) < length xs"
  by (auto simp add: List.map_filter_def intro!: length_filter_less)

lemma map_filter_member:
  "a \<in> set xs \<Longrightarrow> f a = Some b \<Longrightarrow> b \<in> set (List.map_filter f xs)"
  by (force simp add: List.map_filter_def)

lemma map2_member:
  "length rs = length ns \<Longrightarrow> i < length ns \<Longrightarrow> F (ns ! i) (rs ! i) \<in> set (map2 F ns rs)"
proof -
  assume a: "length rs = length ns" "i < length ns"
  hence "map2 F ns rs ! i = F (ns ! i) (rs ! i)" by simp
  moreover have "i < length (map2 F ns rs)" using a by simp
  ultimately show ?thesis by (metis nth_mem)
qed

lemma droneSubBomb_explosions:
  "\<exists>r1 r2 r3.
     explosionsRef (droneSubBomb env m s) =
       explosionsRef s @
         [\<lparr>ident = ''drone-sub-exp-'' @ toStr env (Fin r3),
           x = x m + Math_cos (Fin r1 * Math_PI * Fin 2) * (Fin r2 * Fin 150 + Fin 50),
           y = y m + Math_sin (Fin r1 * Math_PI * Fin 2) * (Fin r2 * Fin 150 + Fin 50),
           radius = Fin 0, maxRadius = Fin 24, Explosion.life = Fin 1, isRare = None\<rparr>]"
  by (simp add: droneSubBomb_def Let_def EXPLOSION_RADIUS_def times_jsnum_def[of "Fin 40"])
     blast

lemma drone_hover_callback:
  assumes "mtype m = DRONE" "Fin 1 \<le> InterceptorMissile.progress m"
    "hoverTimer m = Some n" "0 < n"
  shows "missileCallback env w h m t =
           (Some (m\<lparr>hoverTimer := Some (n - 1)\<rparr>),
            if (n - 1) mod 20 = 0 then droneSubBomb env (m\<lparr>hoverTimer := Some (n - 1)\<rparr>) t
            else t)"
  using assms by (simp add: missileCallback_def Let_def advanceMissile_arrived)

lemma drone_burst_callback:
  assumes "mtype m = DRONE" "Fin 1 \<le> InterceptorMissile.progress m" "hoverTimer m = Some 0"
  shows "fst (missileCallback env w h m t) = None \<and>
         (\<exists>rs. length rs = 12 \<and>
           explosionsRef (snd (missileCallback env w h m t)) =
             explosionsRef t @
               map2 (\<lambda>i r.
                       \<lparr>ident = ''drone-final-exp-'' @ toStr env (Fin r),
                        x = x m + Math_cos ((Fin (real i) / Fin 12) * Math_PI * Fin 2) * Fin 80,
                        y = y m + Math_sin ((Fin (real i) / Fin 12) * Math_PI * Fin 2) * Fin 80,
                        radius = Fin 0, maxRadius = Fin 40, Explosion.life = Fin 1,
                        isRare = None\<rparr>)
                 [0..<12] rs)"
proof -
  have cb: "missileCallback env w h m t = (None, droneFinalBurst env m [0..<12] t)"
    using assms by (simp add: missileCallback_def Let_def advanceMissile_arrived)
  let ?rs = "map (\<lambda>k. frac (random env k)) [drawn t ..< drawn t + 12]"
  have "explosionsRef (droneFinalBurst env m [0..<12] t) =
          explosionsRef t @ map2 (\<lambda>i k. finalExplosion env m i (frac (random env k))) [0..<12]
            [drawn t ..< drawn t + 12]"
    using droneFinalBurst_explosions[of env m "[0..<12]" t] by simp
  also have "map2 (\<lambda>i k. finalExplosion env m i (frac (random env k))) [0..<12]
            [drawn t ..< drawn t + 12] =
     map2 (\<lambda>i r.
                       \<lparr>ident = ''drone-final-exp-'' @ toStr env (Fin r),
                        x = x m + Math_cos ((Fin (real i) / Fin 12) * Math_PI * Fin 2) * Fin 80,
                        y = y m + Math_sin ((Fin (real i) / Fin 12) * Math_PI * Fin 2) * Fin 80,
                        radius = Fin 0, maxRadius = Fin 40, Explosion.life = Fin 1,
                        isRare = None\<rparr>)
                 [0..<12] ?rs"
    by (simp add: zip_map2 finalExplosion_def Let_def EXPLOSION_RADIUS_def case_prod_unfold)
  finally have "\<exists>rs. length rs = 12 \<and>
           explosionsRef (droneFinalBurst env m [0..<12] t) =
             explosionsRef t @
               map2 (\<lambda>i r.
                       \<lparr>ident = ''drone-final-exp-'' @ toStr env (Fin r),
                        x = x m + Math_cos ((Fin (real i) / Fin 12) * Math_PI * Fin 2) * Fin 80,
                        y = y m + Math_sin ((Fin (real i) / Fin 12) * Math_PI * Fin 2) * Fin 80,
                        radius = Fin 0, maxRadius = Fin 40, Explosion.life = Fin 1,
                        isRare = None\<rparr>)
                 [0..<12] rs"
    by (intro exI[of _ ?rs]) simp
  thus ?thesis by (simp add: cb)
qed

lemma drone_states:
  "gameStateRef hover_state = PLAYING" "isPausedRef hover_state = False"
  "missilesRef hover_state = [drone1]"
  "gameStateRef burst_state = PLAYING" "isPausedRef burst_state = False"
  "missilesRef burst_state = [drone0]"
  by (simp_all add: hover_state_def burst_state_def playing0_simps)

lemma drones:
  "mtype drone1 = DRONE" "Fin 1 \<le> InterceptorMissile.progress drone1"
  "hoverTimer drone1 = Some 1"
  "mtype drone0 = DRONE" "Fin 1 \<le> InterceptorMissile.progress drone0"
  "hoverTimer drone0 = Some 0" "drone1\<lparr>hoverTimer := Some 0\<rparr> = drone0"
  by (simp_all add: drone0_def drone1_def jsnum_ops)

lemma before_missiles:
  "missilesRef (updateEnemies env0 (spawnPhase env0 hover_state)) = [drone1]"
  "explosionsRef (updateEnemies env0 (spawnPhase env0 hover_state)) = []"
  "missilesRef (updateEnemies env0 (spawnPhase env0 burst_state)) = [drone0]"
  "explosionsRef (updateEnemies env0 (spawnPhase env0 burst_state)) = []"
proof -
  have "spawnPhase env0 hover_state = drew hover_state"
    "spawnPhase env0 burst_state = drew burst_state"
    by (simp_all add: spawnPhase_def Let_def Math_random_def env0_def frac_half hover_state_def
          burst_state_def playing0_simps)
  thus "missilesRef (updateEnemies env0 (spawnPhase env0 hover_state)) = [drone1]"
    "explosionsRef (updateEnemies env0 (spawnPhase env0 hover_state)) = []"
    "missilesRef (updateEnemies env0 (spawnPhase env0 burst_state)) = [drone0]"
    "explosionsRef (updateEnemies env0 (spawnPhase env0 burst_state)) = []"
    by (simp_all add: updateEnemies_def hover_state_def burst_state_def playing0_simps)
qed

lemma fresh_all_stay:
  assumes "list_all (\<lambda>ex. Explosion.life ex = Fin 1) exs"
  shows "length (filter (\<lambda>ex. Fin 0 < Explosion.life ex) (map ageExplosion exs)) = length exs"
proof -
  have "Fin 0 < Explosion.life (ageExplosion ex)" if "Explosion.life ex = Fin 1" for ex
    using that by (simp add: ageExplosion_def Let_def EXPLOSION_DURATION_def jsnum_ops)
  with assms have "filter (\<lambda>ex. Fin 0 < Explosion.life ex) (map ageExplosion exs) =
                   map ageExplosion exs"
    by (simp add: list_all_iff)
  thus ?thesis by simp
qed

text \<open>
  C6, as stated, fails. A tick that begins with a drone at its target and a hover countdown
  of 1 takes the countdown to 0, and the drone is still in the store after the tick; the
  store of explosions then holds one explosion only, a sub-bomb of maximal radius 24, since
  0 is a multiple of 20.
\<close>

theorem drone_countdown_counterexample:
  "missilesRef hover_state = [drone1] \<and> mtype drone1 = DRONE \<and>
   Fin 1 \<le> InterceptorMissile.progress drone1 \<and> hoverTimer drone1 = Some 1 \<and>
   missilesRef (update env0 0 hover_state) = [drone0] \<and> hoverTimer drone0 = Some 0 \<and>
   length (explosionsRef (update env0 0 hover_state)) = 1 \<and>
   maxRadius (hd (explosionsRef (update env0 0 hover_state))) = Fin 24"
proof -
  have h: "gameStateRef hover_state = PLAYING" "\<not> isPausedRef hover_state"
    "canvas env0 = Some (800, 600)"
    by (simp_all add: drone_states env0_def)
  let ?s1 = "updateEnemies env0 (spawnPhase env0 hover_state)"
  have cb: "missileCallback env0 800 600 drone1 t = (Some drone0, droneSubBomb env0 drone0 t)"
    for t
    using drone_hover_callback[OF drones(1-3), of env0 800 600 t] by (simp add: drones)
  have a: "missilesRef (update env0 0 hover_state) = [drone0]"
    by (simp add: update_missiles[OF h] drone_states cb)
  from droneSubBomb_explosions[of env0 drone0 ?s1] obtain ex where
    ex: "explosionsRef (droneSubBomb env0 drone0 ?s1) = [ex]"
    and f: "maxRadius ex = Fin 24" "Explosion.life ex = Fin 1"
    by (auto simp add: before_missiles)
  have "explosionsRef (updateMissiles env0 800 600 ?s1) = [ex]"
    by (simp add: updateMissiles_def before_missiles cb ex)
  hence "explosionsRef (update env0 0 hover_state) =
           filter (\<lambda>ex. Fin 0 < Explosion.life ex) [ageExplosion ex]"
    by (simp add: update_explosions[OF h])
  moreover have "ageExplosion ex = ex\<lparr>Explosion.life := Fin (59 / 60), radius := Fin (24 / 30)\<rparr>"
    using f(2,1) by (rule ageExplosion_fresh) simp
  ultimately have "explosionsRef (update env0 0 hover_state) =
                     [ex\<lparr>Explosion.life := Fin (59 / 60), radius := Fin (24 / 30)\<rparr>]"
    by (simp add: jsnum_ops)
  with a f show ?thesis by (simp add: drone_states drones)
qed

lemma drone_burst_tick:
  assumes playing: "gameStateRef s = PLAYING" "\<not> isPausedRef s" "canvas env = Some (w, h)"
    and m: "m \<in> set (missilesRef s)" "mtype m = DRONE"
      "Fin 1 \<le> InterceptorMissile.progress m" "hoverTimer m = Some 0"
  shows "\<exists>rs. length rs = 12 \<and>
           (\<forall>i<12.
              \<lparr>ident = ''drone-final-exp-'' @ toStr env (Fin (rs ! i)),
               x = x m + Math_cos ((Fin (real i) / Fin 12) * Math_PI * Fin 2) * Fin 80,
               y = y m + Math_sin ((Fin (real i) / Fin 12) * Math_PI * Fin 2) * Fin 80,
               radius = Fin (4 / 3), maxRadius = Fin 40, Explosion.life = Fin (59 / 60),
               isRare = None\<rparr>
              \<in> set (explosionsRef (update env time s)))"
proof -
  let ?s1 = "updateEnemies env (spawnPhase env s)"
  let ?B = "\<lambda>i r. \<lparr>ident = ''drone-final-exp-'' @ toStr env (Fin r),
                        x = x m + Math_cos ((Fin (real i) / Fin 12) * Math_PI * Fin 2) * Fin 80,
                        y = y m + Math_sin ((Fin (real i) / Fin 12) * Math_PI * Fin 2) * Fin 80,
                        radius = Fin 0, maxRadius = Fin 40, Explosion.life = Fin 1,
                        isRare = None\<rparr>"
  have "m \<in> set (missilesRef ?s1)" using m(1) by (simp add: updateEnemies_more)
  from updateMissiles_ran[OF this, of env w h] obtain t where
    t: "\<forall>ex. ex \<in> set (explosionsRef (snd (missileCallback env w h m t))) \<longrightarrow>
             ex \<in> set (explosionsRef (updateMissiles env w h ?s1))" ..
  from drone_burst_callback[OF m(2-4), of env w h t] obtain rs where
    rs: "length rs = 12"
    and ex: "explosionsRef (snd (missileCallback env w h m t)) =
               explosionsRef t @ map2 ?B [0..<12] rs"
    by auto
  have "\<lparr>ident = ''drone-final-exp-'' @ toStr env (Fin (rs ! i)),
               x = x m + Math_cos ((Fin (real i) / Fin 12) * Math_PI * Fin 2) * Fin 80,
               y = y m + Math_sin ((Fin (real i) / Fin 12) * Math_PI * Fin 2) * Fin 80,
               radius = Fin (4 / 3), maxRadius = Fin 40, Explosion.life = Fin (59 / 60),
               isRare = None\<rparr>
              \<in> set (explosionsRef (update env time s))" if i: "i < 12" for i
  proof -
    have "?B ([0..<12] ! i) (rs ! i) \<in> set (map2 ?B [0..<12] rs)"
      using rs i by (intro map2_member) simp_all
    hence "?B i (rs ! i) \<in> set (map2 ?B [0..<12] rs)" using i by simp
    hence "?B i (rs ! i) \<in> set (explosionsRef (snd (missileCallback env w h m t)))"
      by (simp add: ex)
    with t have "?B i (rs ! i) \<in> set (explosionsRef (updateMissiles env w h ?s1))" by blast
    from fresh_explosion_stays[OF playing this, of 40 time] show ?thesis by simp
  qed
  with rs show ?thesis by blast
qed

lemma drone_hover_tick:
  assumes playing: "gameStateRef s = PLAYING" "\<not> isPausedRef s" "canvas env = Some (w, h)"
    and m: "m \<in> set (missilesRef s)" "mtype m = DRONE"
      "Fin 1 \<le> InterceptorMissile.progress m" "hoverTimer m = Some n" "0 < n"
    and bomb: "(n - 1) mod 20 = 0"
  shows "\<exists>ex\<in>set (explosionsRef (update env time s)).
           maxRadius ex = Fin 24 \<and> Explosion.life ex = Fin (59 / 60) \<and>
           radius ex = Fin (4 / 5)"
proof -
  let ?s1 = "updateEnemies env (spawnPhase env s)"
  let ?m1 = "m\<lparr>hoverTimer := Some (n - 1)\<rparr>"
  have "m \<in> set (missilesRef ?s1)" using m(1) by (simp add: updateEnemies_more)
  from updateMissiles_ran[OF this, of env w h] obtain t where
    t: "\<forall>ex. ex \<in> set (explosionsRef (snd (missileCallback env w h m t))) \<longrightarrow>
             ex \<in> set (explosionsRef (updateMissiles env w h ?s1))" ..
  have cb: "snd (missileCallback env w h m t) = droneSubBomb env ?m1 t"
    using drone_hover_callback[OF m(2-5), of env w h t] bomb by simp
  from droneSubBomb_explosions[of env ?m1 t] obtain ex where
    ex: "explosionsRef (droneSubBomb env ?m1 t) = explosionsRef t @ [ex]"
    and f: "maxRadius ex = Fin 24" "Explosion.life ex = Fin 1"
    by auto
  have "ex \<in> set (explosionsRef (snd (missileCallback env w h m t)))" by (simp add: cb ex)
  with t have "ex \<in> set (explosionsRef (updateMissiles env w h ?s1))" by blast
  from fresh_explosion_stays[OF playing this f(2,1), of time]
  have "ex\<lparr>Explosion.life := Fin (59 / 60), radius := Fin (24 / 30)\<rparr>
          \<in> set (explosionsRef (update env time s))" by simp
  thus ?thesis using f(1) by (intro bexI[of _ "ex\<lparr>Explosion.life := Fin (59 / 60), radius := Fin (24 / 30)\<rparr>"]) simp_all
qed

text \<open>
  C6, amended. Over a tick that runs, the interceptors in the store after the tick are
  what the callback of the filter keeps of each interceptor of the store before it, in
  order. For a DRONE in the store that has reached its target:

  if its countdown is 0 when the tick begins (the tick after the one that took it to 0), the
  callback keeps nothing of it and the store is shorter after the tick; the callback appends
  exactly 12 explosions of maximal radius 40, radius 0 and life 1, the \<open>i\<close>-th of them 80
  units from the drone at the angle of \<open>i\<close> twelfths of a full turn; and the store of
  explosions after the tick holds these 12, processed once by the explosion phase of the
  same tick (life 59/60, radius 4/3);

  if its countdown is \<open>n > 0\<close> when the tick begins, the drone is in the store after the
  tick with countdown \<open>n - 1\<close> (so also on the tick that takes the countdown to 0), and the
  callback appends no explosion, or one sub-bomb of maximal radius 24 when \<open>n - 1\<close> is a
  multiple of 20, which is then in the store after the tick (life 59/60, radius 4/5).
\<close>

theorem drone_final_burst:
  assumes playing: "gameStateRef s = PLAYING" "\<not> isPausedRef s" "canvas env = Some (w, h)"
    and m: "m \<in> set (missilesRef s)" "mtype m = DRONE"
      "Fin 1 \<le> InterceptorMissile.progress m"
  shows "missilesRef (update env time s) =
           List.map_filter (\<lambda>m'. fst (missileCallback env w h m' s)) (missilesRef s) \<and>
         (hoverTimer m = Some 0 \<longrightarrow>
            fst (missileCallback env w h m s) = None \<and>
            length (missilesRef (update env time s)) < length (missilesRef s) \<and>
            (\<forall>t. \<exists>rs. length rs = 12 \<and>
               explosionsRef (snd (missileCallback env w h m t)) =
                 explosionsRef t @
                   map2 (\<lambda>i r.
                       \<lparr>ident = ''drone-final-exp-'' @ toStr env (Fin r),
                        x = x m + Math_cos ((Fin (real i) / Fin 12) * Math_PI * Fin 2) * Fin 80,
                        y = y m + Math_sin ((Fin (real i) / Fin 12) * Math_PI * Fin 2) * Fin 80,
                        radius = Fin 0, maxRadius = Fin 40, Explosion.life = Fin 1,
                        isRare = None\<rparr>)
                     [0..<12] rs) \<and>
            (\<exists>rs. length rs = 12 \<and>
               (\<forall>i<12.
                  \<lparr>ident = ''drone-final-exp-'' @ toStr env (Fin (rs ! i)),
                   x = x m + Math_cos ((Fin (real i) / Fin 12) * Math_PI * Fin 2) * Fin 80,
                   y = y m + Math_sin ((Fin (real i) / Fin 12) * Math_PI * Fin 2) * Fin 80,
                   radius = Fin (4 / 3), maxRadius = Fin 40, Explosion.life = Fin (59 / 60),
                   isRare = None\<rparr>
                  \<in> set (explosionsRef (update env time s))))) \<and>
         (\<forall>n. hoverTimer m = Some n \<and> 0 < n \<longrightarrow>
            fst (missileCallback env w h m s) = Some (m\<lparr>hoverTimer := Some (n - 1)\<rparr>) \<and>
            m\<lparr>hoverTimer := Some (n - 1)\<rparr> \<in> set (missilesRef (update env time s)) \<and>
            (\<forall>t. \<exists>exs.
               explosionsRef (snd (missileCallback env w h m t)) = explosionsRef t @ exs \<and>
               length exs = (if (n - 1) mod 20 = 0 then 1 else 0) \<and>
               list_all (\<lambda>ex. maxRadius ex = Fin 24 \<and> Explosion.life ex = Fin 1 \<and>
                               radius ex = Fin 0) exs) \<and>
            ((n - 1) mod 20 = 0 \<longrightarrow>
               (\<exists>ex\<in>set (explosionsRef (update env time s)).
                  maxRadius ex = Fin 24 \<and> Explosion.life ex = Fin (59 / 60) \<and>
                  radius ex = Fin (4 / 5))))"
proof -
  note A = update_missiles[OF playing, of time]
  have burst: "fst (missileCallback env w h m s) = None \<and>
            length (missilesRef (update env time s)) < length (missilesRef s) \<and>
            (\<forall>t. \<exists>rs. length rs = 12 \<and>
               explosionsRef (snd (missileCallback env w h m t)) =
                 explosionsRef t @
                   map2 (\<lambda>i r.
                       \<lparr>ident = ''drone-final-exp-'' @ toStr env (Fin r),
                        x = x m + Math_cos ((Fin (real i) / Fin 12) * Math_PI * Fin 2) * Fin 80,
                        y = y m + Math_sin ((Fin (real i) / Fin 12) * Math_PI * Fin 2) * Fin 80,
                        radius = Fin 0, maxRadius = Fin 40, Explosion.life = Fin 1,
                        isRare = None\<rparr>)
                     [0..<12] rs) \<and>
            (\<exists>rs. length rs = 12 \<and>
               (\<forall>i<12.
                  \<lparr>ident = ''drone-final-exp-'' @ toStr env (Fin (rs ! i)),
                   x = x m + Math_cos ((Fin (real i) / Fin 12) * Math_PI * Fin 2) * Fin 80,
                   y = y m + Math_sin ((Fin (real i) / Fin 12) * Math_PI * Fin 2) * Fin 80,
                   radius = Fin (4 / 3), maxRadius = Fin 40, Explosion.life = Fin (59 / 60),
                   isRare = None\<rparr>
                  \<in> set (explosionsRef (update env time s))))"
    if ht: "hoverTimer m = Some 0"
  proof -
    have b1: "fst (missileCallback env w h m s) = None"
      using drone_burst_callback[OF m(2,3) ht, of env w h s] by simp
    have b2: "length (missilesRef (update env time s)) < length (missilesRef s)"
      unfolding A using m(1) b1 by (rule map_filter_length_less)
    have b3: "\<exists>rs. length rs = 12 \<and>
               explosionsRef (snd (missileCallback env w h m t)) =
                 explosionsRef t @
                   map2 (\<lambda>i r.
                       \<lparr>ident = ''drone-final-exp-'' @ toStr env (Fin r),
                        x = x m + Math_cos ((Fin (real i) / Fin 12) * Math_PI * Fin 2) * Fin 80,
                        y = y m + Math_sin ((Fin (real i) / Fin 12) * Math_PI * Fin 2) * Fin 80,
                        radius = Fin 0, maxRadius = Fin 40, Explosion.life = Fin 1,
                        isRare = None\<rparr>)
                     [0..<12] rs" for t
      using drone_burst_callback[OF m(2,3) ht, of env w h t] by simp
    from b1 b2 b3 drone_burst_tick[OF playing m ht, of time] show ?thesis by simp
  qed
  have hover: "fst (missileCallback env w h m s) = Some (m\<lparr>hoverTimer := Some (n - 1)\<rparr>) \<and>
            m\<lparr>hoverTimer := Some (n - 1)\<rparr> \<in> set (missilesRef (update env time s)) \<and>
            (\<forall>t. \<exists>exs.
               explosionsRef (snd (missileCallback env w h m t)) = explosionsRef t @ exs \<and>
               length exs = (if (n - 1) mod 20 = 0 then 1 else 0) \<and>
               list_all (\<lambda>ex. maxRadius ex = Fin 24 \<and> Explosion.life ex = Fin 1 \<and>
                               radius ex = Fin 0) exs) \<and>
            ((n - 1) mod 20 = 0 \<longrightarrow>
               (\<exists>ex\<in>set (explosionsRef (update env time s)).
                  maxRadius ex = Fin 24 \<and> Explosion.life ex = Fin (59 / 60) \<and>
                  radius ex = Fin (4 / 5)))"
    if ht: "hoverTimer m = Some n" "0 < n" for n
  proof -
    let ?m1 = "m\<lparr>hoverTimer := Some (n - 1)\<rparr>"
    note cb = drone_hover_callback[OF m(2,3) ht]
    have h1: "fst (missileCallback env w h m s) = Some ?m1" by (simp add: cb)
    have h2: "?m1 \<in> set (missilesRef (update env time s))"
      unfolding A using m(1) h1 by (rule map_filter_member)
    have h3: "\<exists>exs.
               explosionsRef (snd (missileCallback env w h m t)) = explosionsRef t @ exs \<and>
               length exs = (if (n - 1) mod 20 = 0 then 1 else 0) \<and>
               list_all (\<lambda>ex. maxRadius ex = Fin 24 \<and> Explosion.life ex = Fin 1 \<and>
                               radius ex = Fin 0) exs" for t
    proof (cases "(n - 1) mod 20 = 0")
      case True
      from droneSubBomb_explosions[of env ?m1 t] obtain ex where
        "explosionsRef (droneSubBomb env ?m1 t) = explosionsRef t @ [ex]"
        "maxRadius ex = Fin 24" "Explosion.life ex = Fin 1" "radius ex = Fin 0"
        by auto
      thus ?thesis using True by (intro exI[of _ "[ex]"]) (simp add: cb)
    next
      case False
      thus ?thesis by (intro exI[of _ "[]"]) (simp add: cb)
    qed
    have h4: "\<exists>ex\<in>set (explosionsRef (update env time s)).
                  maxRadius ex = Fin 24 \<and> Explosion.life ex = Fin (59 / 60) \<and>
                  radius ex = Fin (4 / 5)" if "(n - 1) mod 20 = 0"
      using playing m ht that by (rule drone_hover_tick)
    from h1 h2 h3 h4 show ?thesis by simp
  qed
  from A burst hover show ?thesis by simp
qed

theorem drone_final_burst_witness:
  "missilesRef burst_state = [drone0] \<and> hoverTimer drone0 = Some 0 \<and>
   missilesRef (update env0 0 burst_state) = [] \<and>
   length (explosionsRef (update env0 0 burst_state)) = 12 \<and>
   (\<exists>name. \<lparr>ident = name, x = Fin 480, y = Fin 300, radius = Fin (4 / 3), maxRadius = Fin 40,
             Explosion.life = Fin (59 / 60), isRare = None\<rparr>
            \<in> set (explosionsRef (update env0 0 burst_state))) \<and>
   missilesRef hover_state = [drone1] \<and> hoverTimer drone1 = Some 1 \<and>
   missilesRef (update env0 0 hover_state) = [drone0] \<and>
   (\<exists>ex\<in>set (explosionsRef (update env0 0 hover_state)).
      maxRadius ex = Fin 24 \<and> Explosion.life ex = Fin (59 / 60) \<and> radius ex = Fin (4 / 5))"
proof -
  have hb: "gameStateRef burst_state = PLAYING" "\<not> isPausedRef burst_state"
    "canvas env0 = Some (800, 600)"
    and hh: "gameStateRef hover_state = PLAYING" "\<not> isPausedRef hover_state"
    "canvas env0 = Some (800, 600)"
    by (simp_all add: drone_states env0_def)
  have mb: "drone0 \<in> set (missilesRef burst_state)"
    and mh: "drone1 \<in> set (missilesRef hover_state)"
    by (simp_all add: drone_states)
  note pb = drone_final_burst[OF hb mb drones(4,5), of 0]
  note ph = drone_final_burst[OF hh mh drones(1,2), of 0]
  let ?s1 = "updateEnemies env0 (spawnPhase env0 burst_state)"
  let ?B = "\<lambda>i r. \<lparr>ident = ''drone-final-exp-'' @ toStr env0 (Fin r),
                x = x drone0 + Math_cos ((Fin (real i) / Fin 12) * Math_PI * Fin 2) * Fin 80,
                y = y drone0 + Math_sin ((Fin (real i) / Fin 12) * Math_PI * Fin 2) * Fin 80,
                radius = Fin 0, maxRadius = Fin 40, Explosion.life = Fin 1, isRare = None\<rparr>"
  from pb drones(6) have b1: "fst (missileCallback env0 800 600 drone0 burst_state) = None"
    by (elim conjE) simp
  from pb have "missilesRef (update env0 0 burst_state) =
      List.map_filter (\<lambda>m'. fst (missileCallback env0 800 600 m' burst_state))
        (missilesRef burst_state)"
    by (elim conjE)
  hence a: "missilesRef (update env0 0 burst_state) = []"
    by (simp add: drone_states b1)
  from pb drones(6) have all: "\<forall>t. \<exists>rs. length rs = 12 \<and>
               explosionsRef (snd (missileCallback env0 800 600 drone0 t)) =
                 explosionsRef t @ map2 ?B [0..<12] rs"
    by (elim conjE) simp
  from all[THEN spec, of ?s1] obtain rs where rs: "length rs = 12"
    and ex0: "explosionsRef (snd (missileCallback env0 800 600 drone0 ?s1)) =
                explosionsRef ?s1 @ map2 ?B [0..<12] rs"
    by (elim exE conjE)
  have ex: "explosionsRef (snd (missileCallback env0 800 600 drone0 ?s1)) = map2 ?B [0..<12] rs"
    using ex0 by (simp only: before_missiles append_Nil)
  obtain k t' where cbq: "missileCallback env0 800 600 drone0 ?s1 = (k, t')" by fastforce
  have "explosionsRef (updateMissiles env0 800 600 ?s1) = map2 ?B [0..<12] rs"
    using ex by (simp add: updateMissiles_def before_missiles cbq)
  hence "explosionsRef (update env0 0 burst_state) =
           filter (\<lambda>ex. Fin 0 < Explosion.life ex) (map ageExplosion (map2 ?B [0..<12] rs))"
    by (simp add: update_explosions[OF hb])
  moreover have "list_all (\<lambda>ex. Explosion.life ex = Fin 1) (map2 ?B [0..<12] rs)"
    by (simp add: list_all_iff case_prod_unfold)
  ultimately have "length (explosionsRef (update env0 0 burst_state)) =
                     length (map2 ?B [0..<12] rs)"
    by (simp only: fresh_all_stay)
  hence b: "length (explosionsRef (update env0 0 burst_state)) = 12" using rs by simp
  from pb drones(6) have "\<exists>rs. length rs = 12 \<and>
               (\<forall>i<12.
                  \<lparr>ident = ''drone-final-exp-'' @ toStr env0 (Fin (rs ! i)),
                   x = x drone0 + Math_cos ((Fin (real i) / Fin 12) * Math_PI * Fin 2) * Fin 80,
                   y = y drone0 + Math_sin ((Fin (real i) / Fin 12) * Math_PI * Fin 2) * Fin 80,
                   radius = Fin (4 / 3), maxRadius = Fin 40, Explosion.life = Fin (59 / 60),
                   isRare = None\<rparr>
                  \<in> set (explosionsRef (update env0 0 burst_state)))"
    by (elim conjE) simp
  then obtain rs' where "\<forall>i<12.
                  \<lparr>ident = ''drone-final-exp-'' @ toStr env0 (Fin (rs' ! i)),
                   x = x drone0 + Math_cos ((Fin (real i) / Fin 12) * Math_PI * Fin 2) * Fin 80,
                   y = y drone0 + Math_sin ((Fin (real i) / Fin 12) * Math_PI * Fin 2) * Fin 80,
                   radius = Fin (4 / 3), maxRadius = Fin 40, Explosion.life = Fin (59 / 60),
                   isRare = None\<rparr>
                  \<in> set (explosionsRef (update env0 0 burst_state))"
    by (elim exE conjE)
  from this[rule_format, of 0]
  have "\<lparr>ident = ''drone-final-exp-'' @ toStr env0 (Fin (rs' ! 0)),
          x = Fin 480, y = Fin 300,
          radius = Fin (4 / 3), maxRadius = Fin 40, Explosion.life = Fin (59 / 60),
          isRare = None\<rparr> \<in> set (explosionsRef (update env0 0 burst_state))"
    by (simp add: drone0_def drone1_def Math_PI_def jsnum_ops)
  hence c: "\<exists>name. \<lparr>ident = name, x = Fin 480, y = Fin 300, radius = Fin (4 / 3),
             maxRadius = Fin 40, Explosion.life = Fin (59 / 60), isRare = None\<rparr>
            \<in> set (explosionsRef (update env0 0 burst_state))" ..
  from ph have hv: "\<forall>n. hoverTimer drone1 = Some n \<and> 0 < n \<longrightarrow>
            fst (missileCallback env0 800 600 drone1 hover_state) =
              Some (drone1\<lparr>hoverTimer := Some (n - 1)\<rparr>) \<and>
            drone1\<lparr>hoverTimer := Some (n - 1)\<rparr> \<in> set (missilesRef (update env0 0 hover_state)) \<and>
            (\<forall>t. \<exists>exs.
               explosionsRef (snd (missileCallback env0 800 600 drone1 t)) = explosionsRef t @ exs \<and>
               length exs = (if (n - 1) mod 20 = 0 then 1 else 0) \<and>
               list_all (\<lambda>ex. maxRadius ex = Fin 24 \<and> Explosion.life ex = Fin 1 \<and>
                               radius ex = Fin 0) exs) \<and>
            ((n - 1) mod 20 = 0 \<longrightarrow>
               (\<exists>ex\<in>set (explosionsRef (update env0 0 hover_state)).
                  maxRadius ex = Fin 24 \<and> Explosion.life ex = Fin (59 / 60) \<and>
                  radius ex = Fin (4 / 5)))"
    by (elim conjE)
  from hv[rule_format, of 1]
  have h1: "fst (missileCallback env0 800 600 drone1 hover_state) = Some drone0"
    and d: "\<exists>ex\<in>set (explosionsRef (update env0 0 hover_state)).
                  maxRadius ex = Fin 24 \<and> Explosion.life ex = Fin (59 / 60) \<and>
                  radius ex = Fin (4 / 5)"
    by (simp_all add: drones)
  from ph have "missilesRef (update env0 0 hover_state) =
      List.map_filter (\<lambda>m'. fst (missileCallback env0 800 600 m' hover_state))
        (missilesRef hover_state)"
    by (elim conjE)
  hence e: "missilesRef (update env0 0 hover_state) = [drone0]"
    by (simp add: drone_states h1)
  from a b c d e show ?thesis by (simp add: drone_states drones)
qed

section \<open>The rare bomb and its queued updater\<close>

lemma pendingClears_frame [simp]:
  "pendingClears (drew s) = pendingClears s"
  "pendingClears (emitParticle env time ex s) = pendingClears s"
  "pendingClears (updateParticles s) = pendingClears s"
  "pendingClears (checkWinLoss s) = pendingClears s"
  by (simp_all add: drew_def emitParticle_def updateParticles_def checkWinLoss_def Let_def)

lemma pendingClears_spawnParticles [simp]:
  "pendingClears (spawnParticles env time ex n s) = pendingClears s"
  by (induction n arbitrary: s) simp_all





end
